(* ===== verification/Prelude.thy ===== *)
theory Prelude
  imports Main "HOL-Library.Word" "HOL-Library.Sublist"
begin

text \<open>
  Shared vocabulary of the development: the machine types of the Rust sources, results with an
  error on the left, the \<open>?\<close> operator, and the generic lemmas on lists and results that the
  component theories use.

  Rust's \<open>String\<close> and \<open>Vec<u8>\<close> are both \<open>string\<close>: a HOL \<open>char\<close> is one byte, so a
  \<open>string\<close> is a byte sequence; that a Rust \<open>String\<close> holds valid UTF-8 is the predicate
  \<open>utf8_valid\<close> of theory \<open>Rust_Str\<close>. The 64-bit integers are \<open>64 word\<close>: \<open>u64\<close> and \<open>usize\<close>
  are read with \<open>unat\<close>, \<open>i64\<close> with \<open>sint\<close>, and Rust's \<open>as\<close> casts between them are the identity
  on the word.
\<close>

section \<open>Types\<close>

type_synonym bytes = string
type_synonym u16 = "16 word"
type_synonym u32 = "32 word"
type_synonym u64 = "64 word"
type_synonym i64 = "64 word"
type_synonym usize = "64 word"

section \<open>Collections of rewrite rules\<close>

named_theorems wire_simps \<open>equations of the readers and writers of the wire format\<close>
named_theorems parse_simps \<open>equations of the command parser\<close>
named_theorems conn_simps \<open>equations of the connection state machine\<close>

section \<open>Results and the question-mark operator\<close>

text \<open>
  A Rust \<open>Result<T, E>\<close> is \<open>'e + 'a\<close> with \<open>Inl\<close> for \<open>Err\<close> and \<open>Inr\<close> for \<open>Ok\<close>;
  \<open>try_res\<close> is the \<open>?\<close> operator followed by the rest of the function body.
\<close>

definition try_res :: "'e + 'a \<Rightarrow> ('a \<Rightarrow> 'e + 'b) \<Rightarrow> 'e + 'b" where
  "try_res r k = (case r of Inl e \<Rightarrow> Inl e | Inr x \<Rightarrow> k x)"

definition map_err :: "('e \<Rightarrow> 'f) \<Rightarrow> 'e + 'a \<Rightarrow> 'f + 'a" where
  "map_err f r = (case r of Inl e \<Rightarrow> Inl (f e) | Inr x \<Rightarrow> Inr x)"

definition ok_or :: "'a option \<Rightarrow> 'e \<Rightarrow> 'e + 'a" where
  "ok_or x e = (case x of None \<Rightarrow> Inl e | Some v \<Rightarrow> Inr v)"

definition res_ok :: "'e + 'a \<Rightarrow> 'a option" where
  "res_ok r = (case r of Inl _ \<Rightarrow> None | Inr x \<Rightarrow> Some x)"

definition is_ok :: "'e + 'a \<Rightarrow> bool" where
  "is_ok r = (case r of Inl _ \<Rightarrow> False | Inr _ \<Rightarrow> True)"

lemma try_res_simps [simp]:
  "try_res (Inl e) k = Inl e"
  "try_res (Inr x) k = k x"
  by (simp_all add: try_res_def)

lemma try_res_eq_Inr [simp]:
  "try_res r k = Inr y \<longleftrightarrow> (\<exists>x. r = Inr x \<and> k x = Inr y)"
  by (cases r) simp_all

lemma try_res_eq_Inl:
  "try_res r k = Inl e \<longleftrightarrow> r = Inl e \<or> (\<exists>x. r = Inr x \<and> k x = Inl e)"
  by (cases r) simp_all

lemma map_err_simps [simp]:
  "map_err f (Inl e) = Inl (f e)"
  "map_err f (Inr x) = Inr x"
  by (simp_all add: map_err_def)

lemma map_err_eq_Inr [simp]: "map_err f r = Inr x \<longleftrightarrow> r = Inr x"
  by (cases r) simp_all

lemma ok_or_simps [simp]:
  "ok_or None e = Inl e"
  "ok_or (Some v) e = Inr v"
  by (simp_all add: ok_or_def)

lemma res_ok_simps [simp]:
  "res_ok (Inl e) = None"
  "res_ok (Inr x) = Some x"
  by (simp_all add: res_ok_def)

lemma is_ok_simps [simp]:
  "is_ok (Inl e) = False"
  "is_ok (Inr x) = True"
  by (simp_all add: is_ok_def)

text \<open>Collecting an iterator of results: the first error wins.\<close>

fun collect_res :: "('a \<Rightarrow> 'e + 'b) \<Rightarrow> 'a list \<Rightarrow> 'e + 'b list" where
  "collect_res f [] = Inr []"
| "collect_res f (x # xs) = try_res (f x) (\<lambda>y. try_res (collect_res f xs) (\<lambda>ys. Inr (y # ys)))"

lemma collect_res_all_ok:
  "(\<And>x. x \<in> set xs \<Longrightarrow> f x = Inr (g x)) \<Longrightarrow> collect_res f xs = Inr (map g xs)"
  by (induction xs) simp_all

lemma collect_res_length: "collect_res f xs = Inr ys \<Longrightarrow> length ys = length xs"
  by (induction xs arbitrary: ys) auto

lemma collect_res_nth:
  "collect_res f xs = Inr ys \<Longrightarrow> i < length xs \<Longrightarrow> f (xs ! i) = Inr (ys ! i)"
proof (induction xs arbitrary: ys i)
  case (Cons x xs)
  then show ?case by (cases i) auto
qed simp

section \<open>Slices\<close>

text \<open>\<open>slice.get(i)\<close>: the element, or nothing when the index is out of range.\<close>

definition slice_get :: "'a list \<Rightarrow> nat \<Rightarrow> 'a option" where
  "slice_get xs i = (if i < length xs then Some (xs ! i) else None)"

lemma slice_get_simps [simp]:
  "slice_get [] i = None"
  "slice_get (x # xs) 0 = Some x"
  "slice_get (x # xs) (Suc i) = slice_get xs i"
  by (simp_all add: slice_get_def)

text \<open>\<open>strip_prefix\<close> and \<open>strip_suffix\<close> on byte strings.\<close>

fun strip_prefix :: "string \<Rightarrow> string \<Rightarrow> string option" where
  "strip_prefix [] s = Some s"
| "strip_prefix (p # ps) [] = None"
| "strip_prefix (p # ps) (c # cs) = (if p = c then strip_prefix ps cs else None)"

definition strip_suffix :: "string \<Rightarrow> string \<Rightarrow> string option" where
  "strip_suffix p s = map_option rev (strip_prefix (rev p) (rev s))"

lemma strip_prefix_append [simp]: "strip_prefix p (p @ s) = Some s"
  by (induction p) simp_all

lemma strip_prefix_eq_Some: "strip_prefix p s = Some r \<longleftrightarrow> s = p @ r"
  by (induction p s rule: strip_prefix.induct) auto

lemma strip_prefix_eq_None: "strip_prefix p s = None \<longleftrightarrow> \<not> prefix p s"
  by (induction p s rule: strip_prefix.induct) auto

lemma strip_suffix_eq_Some: "strip_suffix p s = Some r \<longleftrightarrow> s = r @ p"
proof
  assume "strip_suffix p s = Some r"
  then obtain z where "strip_prefix (rev p) (rev s) = Some z" and "r = rev z"
    by (auto simp: strip_suffix_def)
  then have "rev s = rev p @ z" by (simp add: strip_prefix_eq_Some)
  then have "rev (rev s) = rev z @ p" by (simp only: rev_append rev_rev_ident)
  with \<open>r = rev z\<close> show "s = r @ p" by simp
qed (simp add: strip_suffix_def)

lemma strip_suffix_append [simp]: "strip_suffix p (s @ p) = Some s"
  by (simp add: strip_suffix_eq_Some)

text \<open>\<open>str::contains\<close> and \<open>starts_with\<close>.\<close>

fun str_contains :: "string \<Rightarrow> string \<Rightarrow> bool" where
  "str_contains [] p = (p = [])"
| "str_contains (c # cs) p = (prefix p (c # cs) \<or> str_contains cs p)"

lemma str_contains_iff: "str_contains s p \<longleftrightarrow> (\<exists>a b. s = a @ p @ b)"
proof (induction s)
  case (Cons c cs)
  show ?case
  proof
    assume "str_contains (c # cs) p"
    then consider "prefix p (c # cs)" | "\<exists>a b. cs = a @ p @ b" using Cons by auto
    then show "\<exists>a b. c # cs = a @ p @ b"
    proof cases
      case 1 then show ?thesis by (metis append_Nil prefixE)
    next
      case 2 then show ?thesis by (metis append_Cons)
    qed
  next
    assume "\<exists>a b. c # cs = a @ p @ b"
    then obtain a b where ab: "c # cs = a @ p @ b" by blast
    show "str_contains (c # cs) p"
    proof (cases a)
      case Nil
      with ab have "prefix p (c # cs)" by simp
      then show ?thesis by simp
    next
      case (Cons x xs) with ab Cons.IH show ?thesis by auto
    qed
  qed
qed auto

end
