(* ===== verification/Rust_Str.thy ===== *)
theory Rust_Str
  imports Prelude
begin

text \<open>
  What the sources use of Rust's string and integer library: ASCII case folding, decimal
  parsing and printing of integers (with the error kinds of \<open>ParseIntError\<close>), UTF-8 validation
  (\<open>String::from_utf8\<close>, the check behind \<open>read_line\<close>), \<open>String::from_utf8_lossy\<close>, and splitting at a character
  or a substring.
\<close>

section \<open>Characters\<close>

abbreviation CR :: char where "CR \<equiv> CHR 0x0D"
abbreviation LF :: char where "LF \<equiv> CHR 0x0A"
abbreviation CRLF :: string where "CRLF \<equiv> [CR, LF]"

definition to_ascii_upper_char :: "char \<Rightarrow> char" where
  "to_ascii_upper_char c =
     (if 97 \<le> (of_char c :: nat) \<and> (of_char c :: nat) \<le> 122 then char_of ((of_char c :: nat) - 32) else c)"

definition to_ascii_lower_char :: "char \<Rightarrow> char" where
  "to_ascii_lower_char c =
     (if 65 \<le> (of_char c :: nat) \<and> (of_char c :: nat) \<le> 90 then char_of ((of_char c :: nat) + 32) else c)"

definition to_ascii_uppercase :: "string \<Rightarrow> string" where
  "to_ascii_uppercase s = map to_ascii_upper_char s"

definition to_ascii_lowercase :: "string \<Rightarrow> string" where
  "to_ascii_lowercase s = map to_ascii_lower_char s"

definition eq_ignore_ascii_case :: "string \<Rightarrow> string \<Rightarrow> bool" where
  "eq_ignore_ascii_case a b \<longleftrightarrow> to_ascii_lowercase a = to_ascii_lowercase b"

definition is_ascii_hexdigit :: "char \<Rightarrow> bool" where
  "is_ascii_hexdigit c \<longleftrightarrow>
     (let n = (of_char c :: nat) in
        48 \<le> n \<and> n \<le> 57 \<or> 65 \<le> n \<and> n \<le> 70 \<or> 97 \<le> n \<and> n \<le> 102)"

lemma of_char_char_of_less: "n < 256 \<Longrightarrow> of_char (char_of n :: char) = (n :: nat)"
  by (simp add: of_char_of)

lemma upper_upper_char [simp]: "to_ascii_upper_char (to_ascii_upper_char c) = to_ascii_upper_char c"
  by (auto simp: to_ascii_upper_char_def of_char_char_of_less)

lemma to_ascii_uppercase_idem [simp]:
  "to_ascii_uppercase (to_ascii_uppercase s) = to_ascii_uppercase s"
  by (simp add: to_ascii_uppercase_def)

lemma lower_upper_char [simp]: "to_ascii_lower_char (to_ascii_upper_char c) = to_ascii_lower_char c"
  by (auto simp: to_ascii_upper_char_def to_ascii_lower_char_def of_char_char_of_less)

lemma upper_lower_char [simp]: "to_ascii_upper_char (to_ascii_lower_char c) = to_ascii_upper_char c"
  by (auto simp: to_ascii_upper_char_def to_ascii_lower_char_def of_char_char_of_less)

text \<open>Comparing without case is comparing the upper-case forms, as the parser's verbs are.\<close>

lemma eq_ignore_ascii_case_upper:
  "eq_ignore_ascii_case a b \<longleftrightarrow> to_ascii_uppercase a = to_ascii_uppercase b"
proof
  assume "eq_ignore_ascii_case a b"
  then have "map to_ascii_upper_char (map to_ascii_lower_char a) =
      map to_ascii_upper_char (map to_ascii_lower_char b)"
    by (simp add: eq_ignore_ascii_case_def to_ascii_lowercase_def)
  then show "to_ascii_uppercase a = to_ascii_uppercase b"
    by (simp add: to_ascii_uppercase_def comp_def)
next
  assume "to_ascii_uppercase a = to_ascii_uppercase b"
  then have "map to_ascii_lower_char (map to_ascii_upper_char a) =
      map to_ascii_lower_char (map to_ascii_upper_char b)"
    by (simp add: to_ascii_uppercase_def)
  then show "eq_ignore_ascii_case a b"
    by (simp add: eq_ignore_ascii_case_def to_ascii_lowercase_def comp_def)
qed

section \<open>Decimal integers\<close>

text \<open>\<open>to_string\<close> on unsigned and signed integers.\<close>

definition digit_char :: "nat \<Rightarrow> char" where
  "digit_char d = char_of (48 + d)"

fun dec_of_nat :: "nat \<Rightarrow> string" where
  "dec_of_nat n = (if n < 10 then [digit_char n] else dec_of_nat (n div 10) @ [digit_char (n mod 10)])"

declare dec_of_nat.simps [simp del]

definition dec_of_int :: "int \<Rightarrow> string" where
  "dec_of_int i = (if i < 0 then CHR ''-'' # dec_of_nat (nat (- i)) else dec_of_nat (nat i))"

definition u64_to_string :: "u64 \<Rightarrow> string" where
  "u64_to_string w = dec_of_nat (unat w)"

definition i64_to_string :: "i64 \<Rightarrow> string" where
  "i64_to_string w = dec_of_int (sint w)"

text \<open>\<open>parse::<uN>\<close> and \<open>parse::<iN>\<close>: the kinds of \<open>ParseIntError\<close> and their messages.\<close>

datatype parse_int_error = PI_Empty | PI_InvalidDigit | PI_PosOverflow | PI_NegOverflow

fun parse_int_error_to_string :: "parse_int_error \<Rightarrow> string" where
  "parse_int_error_to_string PI_Empty = ''cannot parse integer from empty string''"
| "parse_int_error_to_string PI_InvalidDigit = ''invalid digit found in string''"
| "parse_int_error_to_string PI_PosOverflow = ''number too large to fit in target type''"
| "parse_int_error_to_string PI_NegOverflow = ''number too small to fit in target type''"

definition char_to_digit :: "char \<Rightarrow> nat option" where
  "char_to_digit c =
     (let n = (of_char c :: nat) in if 48 \<le> n \<and> n \<le> 57 then Some (n - 48) else None)"

fun parse_digits :: "nat \<Rightarrow> nat \<Rightarrow> string \<Rightarrow> parse_int_error + nat" where
  "parse_digits mx acc [] = Inr acc"
| "parse_digits mx acc (c # cs) =
     (case char_to_digit c of
        None \<Rightarrow> Inl PI_InvalidDigit
      | Some d \<Rightarrow> if acc * 10 + d > mx then Inl PI_PosOverflow else parse_digits mx (acc * 10 + d) cs)"

definition parse_unsigned :: "nat \<Rightarrow> string \<Rightarrow> parse_int_error + nat" where
  "parse_unsigned mx s =
     (if s = [] then Inl PI_Empty
      else if s = ''+'' \<or> s = ''-'' then Inl PI_InvalidDigit
      else if hd s = CHR ''+'' then parse_digits mx 0 (tl s)
      else parse_digits mx 0 s)"

definition parse_u64 :: "string \<Rightarrow> parse_int_error + u64" where
  "parse_u64 s = map_sum id of_nat (parse_unsigned (2 ^ 64 - 1) s)"

text \<open>\<open>usize\<close> is 64 bits wide on the targets of the server.\<close>

definition parse_usize :: "string \<Rightarrow> parse_int_error + usize" where
  "parse_usize s = parse_u64 s"

definition parse_u16 :: "string \<Rightarrow> parse_int_error + u16" where
  "parse_u16 s = map_sum id of_nat (parse_unsigned (2 ^ 16 - 1) s)"

definition parse_i64 :: "string \<Rightarrow> parse_int_error + i64" where
  "parse_i64 s =
     (if s = [] then Inl PI_Empty
      else if s = ''+'' \<or> s = ''-'' then Inl PI_InvalidDigit
      else if hd s = CHR ''-'' then
        (case parse_digits (2 ^ 63) 0 (tl s) of
           Inl PI_PosOverflow \<Rightarrow> Inl PI_NegOverflow
         | Inl e \<Rightarrow> Inl e
         | Inr n \<Rightarrow> Inr (of_int (- int n)))
      else if hd s = CHR ''+'' then map_sum id of_nat (parse_digits (2 ^ 63 - 1) 0 (tl s))
      else map_sum id of_nat (parse_digits (2 ^ 63 - 1) 0 s))"

subsection \<open>Printing and parsing are inverse\<close>

lemma of_char_digit_char: "d < 10 \<Longrightarrow> of_char (digit_char d) = (48 + d :: nat)"
  by (simp add: digit_char_def of_char_char_of_less)

lemma char_to_digit_digit_char [simp]: "d < 10 \<Longrightarrow> char_to_digit (digit_char d) = Some d"
  by (simp add: char_to_digit_def of_char_digit_char)

lemma parse_digits_append:
  "parse_digits mx acc (s @ t) = try_res (parse_digits mx acc s) (\<lambda>a. parse_digits mx a t)"
  by (induction mx acc s rule: parse_digits.induct) (auto split: option.splits)

lemma parse_digits_dec_of_nat: "n \<le> mx \<Longrightarrow> parse_digits mx 0 (dec_of_nat n) = Inr n"
proof (induction n rule: dec_of_nat.induct)
  case (1 n)
  show ?case
  proof (cases "n < 10")
    case True
    with "1.prems" show ?thesis by (simp add: dec_of_nat.simps [of n])
  next
    case False
    have "parse_digits mx 0 (dec_of_nat (n div 10)) = Inr (n div 10)"
      using "1.IH" False "1.prems" by (simp add: le_trans [OF div_le_dividend])
    with False "1.prems" show ?thesis
      by (simp add: dec_of_nat.simps [of n] parse_digits_append)
  qed
qed

lemma dec_of_nat_not_Nil [simp]: "dec_of_nat n \<noteq> []"
  by (simp add: dec_of_nat.simps [of n])

lemma digit_char_mem: "c \<in> set (dec_of_nat n) \<Longrightarrow> \<exists>d < 10. c = digit_char d"
proof (induction n rule: dec_of_nat.induct)
  case (1 n)
  then show ?case
    by (subst (asm) (2) dec_of_nat.simps) (auto split: if_splits intro: exI [of _ "n mod 10"])
qed

lemma digit_char_range: "d < 10 \<Longrightarrow> c = digit_char d \<Longrightarrow> 48 \<le> (of_char c :: nat) \<and> (of_char c :: nat) \<le> 57"
  by (simp add: of_char_digit_char)

lemma dec_of_nat_range: "c \<in> set (dec_of_nat n) \<Longrightarrow> 48 \<le> (of_char c :: nat) \<and> (of_char c :: nat) \<le> 57"
  using digit_char_mem digit_char_range by blast

lemma dec_of_nat_hd: "48 \<le> (of_char (hd (dec_of_nat n)) :: nat) \<and> (of_char (hd (dec_of_nat n)) :: nat) \<le> 57"
  by (rule dec_of_nat_range [of _ n]) simp

lemma dec_of_nat_no_sign [simp]:
  "hd (dec_of_nat n) \<noteq> CHR ''+''" "hd (dec_of_nat n) \<noteq> CHR ''-''"
  "dec_of_nat n \<noteq> ''+''" "dec_of_nat n \<noteq> ''-''"
proof -
  show a: "hd (dec_of_nat n) \<noteq> CHR ''+''" and b: "hd (dec_of_nat n) \<noteq> CHR ''-''"
    using dec_of_nat_hd [of n] by (auto dest: arg_cong [where f = "of_char :: char \<Rightarrow> nat"])
  show "dec_of_nat n \<noteq> ''+''" "dec_of_nat n \<noteq> ''-''" using a b by auto
qed

lemma parse_unsigned_dec_of_nat: "n \<le> mx \<Longrightarrow> parse_unsigned mx (dec_of_nat n) = Inr n"
  by (simp add: parse_unsigned_def parse_digits_dec_of_nat)

lemma unat_le_max: "unat (w :: 64 word) \<le> 2 ^ 64 - 1"
  using unsigned_less [of w, where 'a = nat] by simp

lemma parse_u64_to_string [simp]: "parse_u64 (u64_to_string w) = Inr w"
  using parse_unsigned_dec_of_nat [OF unat_le_max [of w]]
  by (simp add: parse_u64_def u64_to_string_def)

lemma parse_usize_to_string [simp]: "parse_usize (u64_to_string w) = Inr w"
  by (simp add: parse_usize_def)

lemma parse_usize_dec_of_nat: "n < 2 ^ 64 \<Longrightarrow> parse_usize (dec_of_nat n) = Inr (of_nat n)"
  using parse_unsigned_dec_of_nat [of n "2 ^ 64 - 1"]
  by (simp add: parse_usize_def parse_u64_def)

lemma sint_i64_bounds: "- (2 ^ 63) \<le> sint (w :: 64 word)" "sint (w :: 64 word) < 2 ^ 63"
  using sint_ge [of w] sint_lt [of w] by simp_all

lemma parse_i64_to_string [simp]: "parse_i64 (i64_to_string w) = Inr w"
proof (cases "sint w < 0")
  case True
  have "nat (- sint w) \<le> 2 ^ 63" using sint_i64_bounds [of w] by simp
  then have "parse_digits (2 ^ 63) 0 (dec_of_nat (nat (- sint w))) = Inr (nat (- sint w))"
    by (rule parse_digits_dec_of_nat)
  with True show ?thesis by (simp add: parse_i64_def i64_to_string_def dec_of_int_def)
next
  case False
  have "nat (sint w) \<le> 2 ^ 63 - 1" using sint_i64_bounds [of w] by simp
  then have "parse_digits (2 ^ 63 - 1) 0 (dec_of_nat (nat (sint w))) = Inr (nat (sint w))"
    by (rule parse_digits_dec_of_nat)
  moreover have "of_nat (nat (sint w)) = w"
    using False by (metis of_int_sint of_nat_nat not_less scast_id)
  ultimately show ?thesis using False by (simp add: parse_i64_def i64_to_string_def dec_of_int_def)
qed

section \<open>UTF-8\<close>

text \<open>
  One step of \<open>core::str\<close> validation on a non-empty byte sequence: whether a scalar value starts
  here, and how many bytes the scalar value (or, when malformed, the maximal rejected prefix)
  has. Overlong forms, surrogates and values above U+10FFFF are rejected.
\<close>

abbreviation byte :: "char \<Rightarrow> nat" where "byte c \<equiv> of_char c"

definition is_cont :: "char \<Rightarrow> bool" where
  "is_cont c \<longleftrightarrow> 0x80 \<le> byte c \<and> byte c \<le> 0xBF"

definition second3_ok :: "nat \<Rightarrow> nat \<Rightarrow> bool" where
  "second3_ok a b \<longleftrightarrow>
     a = 0xE0 \<and> 0xA0 \<le> b \<and> b \<le> 0xBF \<or>
     (0xE1 \<le> a \<and> a \<le> 0xEC \<or> 0xEE \<le> a \<and> a \<le> 0xEF) \<and> 0x80 \<le> b \<and> b \<le> 0xBF \<or>
     a = 0xED \<and> 0x80 \<le> b \<and> b \<le> 0x9F"

definition second4_ok :: "nat \<Rightarrow> nat \<Rightarrow> bool" where
  "second4_ok a b \<longleftrightarrow>
     a = 0xF0 \<and> 0x90 \<le> b \<and> b \<le> 0xBF \<or>
     0xF1 \<le> a \<and> a \<le> 0xF3 \<and> 0x80 \<le> b \<and> b \<le> 0xBF \<or>
     a = 0xF4 \<and> 0x80 \<le> b \<and> b \<le> 0x8F"

definition utf8_char_width :: "nat \<Rightarrow> nat" where
  "utf8_char_width a =
     (if a < 0x80 then 1
      else if 0xC2 \<le> a \<and> a \<le> 0xDF then 2
      else if 0xE0 \<le> a \<and> a \<le> 0xEF then 3
      else if 0xF0 \<le> a \<and> a \<le> 0xF4 then 4
      else 0)"

definition has_byte :: "string \<Rightarrow> nat \<Rightarrow> (char \<Rightarrow> bool) \<Rightarrow> bool" where
  "has_byte s i p \<longleftrightarrow> i < length s \<and> p (s ! i)"

definition utf8_next :: "string \<Rightarrow> bool \<times> nat" where
  "utf8_next s =
     (let a = byte (s ! 0); w = utf8_char_width a in
      if w = 1 then (True, 1)
      else if w = 2 then (if has_byte s 1 is_cont then (True, 2) else (False, 1))
      else if w = 3 then
        (if \<not> has_byte s 1 (\<lambda>c. second3_ok a (byte c)) then (False, 1)
         else if has_byte s 2 is_cont then (True, 3) else (False, 2))
      else if w = 4 then
        (if \<not> has_byte s 1 (\<lambda>c. second4_ok a (byte c)) then (False, 1)
         else if \<not> has_byte s 2 is_cont then (False, 2)
         else if has_byte s 3 is_cont then (True, 4) else (False, 3))
      else (False, 1))"

lemma utf8_next_pos: "0 < snd (utf8_next s)"
  by (simp add: utf8_next_def Let_def)

lemma utf8_next_le: "s \<noteq> [] \<Longrightarrow> snd (utf8_next s) \<le> length s"
  by (simp add: utf8_next_def Let_def Suc_le_eq has_byte_def)

function utf8_valid :: "string \<Rightarrow> bool" where
  "utf8_valid s =
     (if s = [] then True
      else if fst (utf8_next s) then utf8_valid (drop (snd (utf8_next s)) s) else False)"
  by pat_completeness auto
termination
  by (relation "measure length") (simp_all add: utf8_next_pos)

text \<open>\<open>String::from_utf8_lossy\<close>: each maximal malformed prefix becomes one U+FFFD.\<close>

abbreviation REPLACEMENT :: string where "REPLACEMENT \<equiv> [CHR 0xEF, CHR 0xBF, CHR 0xBD]"

function from_utf8_lossy :: "string \<Rightarrow> string" where
  "from_utf8_lossy s =
     (if s = [] then []
      else (if fst (utf8_next s) then take (snd (utf8_next s)) s else REPLACEMENT)
           @ from_utf8_lossy (drop (snd (utf8_next s)) s))"
  by pat_completeness auto
termination
  by (relation "measure length") (simp_all add: utf8_next_pos)

declare utf8_valid.simps [simp del] from_utf8_lossy.simps [simp del]

lemma utf8_valid_Nil [simp]: "utf8_valid []"
  by (simp add: utf8_valid.simps [of "[]"])

lemma from_utf8_lossy_Nil [simp]: "from_utf8_lossy [] = []"
  by (simp add: from_utf8_lossy.simps [of "[]"])

lemma from_utf8_lossy_valid [simp]: "utf8_valid s \<Longrightarrow> from_utf8_lossy s = s"
proof (induction s rule: utf8_valid.induct)
  case (1 s)
  show ?case
  proof (cases "s = []")
    case False
    with "1.prems" have "fst (utf8_next s)" and "utf8_valid (drop (snd (utf8_next s)) s)"
      by (simp_all add: utf8_valid.simps [of s] split: if_splits)
    with "1.IH" False show ?thesis by (simp add: from_utf8_lossy.simps [of s])
  qed simp
qed

text \<open>Validity is decided scalar value by scalar value, so it is preserved by concatenation.\<close>

lemma has_byte_append: "has_byte s i p \<Longrightarrow> has_byte (s @ t) i p"
  by (simp add: has_byte_def nth_append)

lemma has_byte_take: "i < n \<Longrightarrow> has_byte (take n s) i p = has_byte s i p"
  by (simp add: has_byte_def)

lemma utf8_next_append:
  "fst (utf8_next s) \<Longrightarrow> s \<noteq> [] \<Longrightarrow> utf8_next (s @ t) = utf8_next s"
  by (simp add: utf8_next_def Let_def has_byte_append nth_append split: if_split_asm)

lemma utf8_valid_append: "utf8_valid s \<Longrightarrow> utf8_valid (s @ t) = utf8_valid t"
proof (induction s rule: utf8_valid.induct)
  case (1 s)
  show ?case
  proof (cases "s = []")
    case False
    with "1.prems" have n: "fst (utf8_next s)" and v: "utf8_valid (drop (snd (utf8_next s)) s)"
      by (simp_all add: utf8_valid.simps [of s] split: if_splits)
    have nx: "utf8_next (s @ t) = utf8_next s" using n False by (rule utf8_next_append)
    have "drop (snd (utf8_next s)) (s @ t) = drop (snd (utf8_next s)) s @ t"
      using utf8_next_le [OF False] by simp
    moreover have "utf8_valid (drop (snd (utf8_next s)) s @ t) = utf8_valid t"
      using "1.IH" False n v by simp
    ultimately show ?thesis using n nx False by (simp add: utf8_valid.simps [of "s @ t"])
  qed simp
qed

lemma utf8_valid_Cons_ascii [simp]: "byte c < 0x80 \<Longrightarrow> utf8_valid (c # s) = utf8_valid s"
  by (simp add: utf8_valid.simps [of "c # s"] utf8_next_def utf8_char_width_def)

lemma utf8_valid_ascii: "(\<And>c. c \<in> set s \<Longrightarrow> byte c < 0x80) \<Longrightarrow> utf8_valid s"
  by (induction s) auto

text \<open>An ASCII byte is never inside a longer scalar value: it can be dropped from the end.\<close>

lemma has_byte_snoc_ascii:
  assumes "byte c < 0x80" and "\<And>b. p b \<Longrightarrow> 0x80 \<le> byte b"
  shows "has_byte (s @ [c]) i p = has_byte s i p"
  using assms(1) assms(2) [of c] by (auto simp: has_byte_def nth_append less_Suc_eq)

lemma utf8_next_snoc_ascii:
  assumes "byte c < 0x80" and "s \<noteq> []"
  shows "utf8_next (s @ [c]) = utf8_next s"
proof -
  have "has_byte (s @ [c]) i is_cont = has_byte s i is_cont" for i
    using assms(1) by (rule has_byte_snoc_ascii) (simp add: is_cont_def)
  moreover have "has_byte (s @ [c]) i (\<lambda>b. second3_ok a (byte b)) = has_byte s i (\<lambda>b. second3_ok a (byte b))" for i a
    using assms(1) by (rule has_byte_snoc_ascii) (auto simp: second3_ok_def)
  moreover have "has_byte (s @ [c]) i (\<lambda>b. second4_ok a (byte b)) = has_byte s i (\<lambda>b. second4_ok a (byte b))" for i a
    using assms(1) by (rule has_byte_snoc_ascii) (auto simp: second4_ok_def)
  ultimately show ?thesis using assms(2) by (simp add: utf8_next_def Let_def nth_append)
qed

lemma utf8_valid_snoc_ascii:
  "byte c < 0x80 \<Longrightarrow> utf8_valid (s @ [c]) = utf8_valid s"
proof (induction s rule: utf8_valid.induct)
  case (1 s)
  show ?case
  proof (cases "s = []")
    case False
    have "drop (snd (utf8_next s)) (s @ [c]) = drop (snd (utf8_next s)) s @ [c]"
      using utf8_next_le [OF False] by simp
    with 1 False utf8_next_snoc_ascii [OF "1.prems" False] show ?thesis
      by (simp add: utf8_valid.simps [of s] utf8_valid.simps [of "s @ [c]"])
  next
    case True
    with 1 show ?thesis by simp
  qed
qed

lemma utf8_valid_dec_of_nat [simp]: "utf8_valid (dec_of_nat n)"
  by (rule utf8_valid_ascii) (use dec_of_nat_range in fastforce)

lemma utf8_valid_dec_of_int [simp]: "utf8_valid (dec_of_int i)"
  by (simp add: dec_of_int_def)

lemma utf8_valid_to_string [simp]: "utf8_valid (u64_to_string w)" "utf8_valid (i64_to_string v)"
  by (simp_all add: u64_to_string_def i64_to_string_def)

text \<open>The lossy conversion always produces valid UTF-8.\<close>

lemma utf8_valid_REPLACEMENT: "utf8_valid (REPLACEMENT @ s) = utf8_valid s"
  by (rule utf8_valid_append)
    (simp add: utf8_valid.simps [of REPLACEMENT] utf8_next_def utf8_char_width_def has_byte_def
      second3_ok_def is_cont_def)

lemma utf8_next_take:
  "fst (utf8_next s) \<Longrightarrow> s \<noteq> [] \<Longrightarrow> utf8_next (take (snd (utf8_next s)) s) = utf8_next s"
  by (simp add: utf8_next_def Let_def has_byte_take split: if_split_asm)

lemma utf8_valid_from_utf8_lossy [simp]: "utf8_valid (from_utf8_lossy s)"
proof (induction s rule: from_utf8_lossy.induct)
  case (1 s)
  show ?case
  proof (cases "s = []")
    case False
    have IH: "utf8_valid (from_utf8_lossy (drop (snd (utf8_next s)) s))" using "1.IH" False by simp
    show ?thesis
    proof (cases "fst (utf8_next s)")
      case True
      let ?p = "take (snd (utf8_next s)) s"
      have ne: "?p \<noteq> []" using False utf8_next_pos [of s] by simp
      have "utf8_valid ?p"
        using utf8_next_take [OF True False] True ne by (simp add: utf8_valid.simps [of ?p])
      then have "utf8_valid (?p @ from_utf8_lossy (drop (snd (utf8_next s)) s))"
        using IH by (simp add: utf8_valid_append)
      then show ?thesis using False True by (simp add: from_utf8_lossy.simps [of s])
    next
      case bad: False
      then show ?thesis using False IH utf8_valid_REPLACEMENT
        by (simp add: from_utf8_lossy.simps [of s])
    qed
  qed simp
qed

section \<open>White space\<close>

text \<open>
  Unicode white space at the front of a UTF-8 string: the number of bytes of the character, or zero
  when it is none.
\<close>

fun ws_len :: "string \<Rightarrow> nat" where
  "ws_len [] = 0"
| "ws_len (a # s) =
     (let x = byte a in
      if 9 \<le> x \<and> x \<le> 13 \<or> x = 32 then 1
      else case s of
        [] \<Rightarrow> 0
      | b # t \<Rightarrow>
          (let y = byte b in
           if x = 0xC2 \<and> (y = 0x85 \<or> y = 0xA0) then 2
           else case t of
             [] \<Rightarrow> 0
           | c # _ \<Rightarrow>
               (let z = byte c in
                if x = 0xE1 \<and> y = 0x9A \<and> z = 0x80 \<or>
                   x = 0xE2 \<and> y = 0x80 \<and> (0x80 \<le> z \<and> z \<le> 0x8A \<or> z = 0xA8 \<or> z = 0xA9 \<or> z = 0xAF) \<or>
                   x = 0xE2 \<and> y = 0x81 \<and> z = 0x9F \<or>
                   x = 0xE3 \<and> y = 0x80 \<and> z = 0x80
                then 3 else 0)))"

declare ws_len.simps [simp del]

lemma ws_len_Nil [simp]: "ws_len [] = 0"
  by (simp add: ws_len.simps)

lemma ws_len_space [simp]: "ws_len (CHR '' '' # s) = 1"
  by (simp add: ws_len.simps)

lemma ws_len_ascii [simp]:
  "byte a < 128 \<Longrightarrow> \<not> (9 \<le> byte a \<and> byte a \<le> 13) \<Longrightarrow> byte a \<noteq> 32 \<Longrightarrow> ws_len (a # s) = 0"
  by (simp add: ws_len.simps Let_def split: list.split)

function trim_start :: "string \<Rightarrow> string" where
  "trim_start s = (if ws_len s = 0 then s else trim_start (drop (ws_len s) s))"
  by pat_completeness auto
termination
proof (relation "measure length")
  show "ws_len s \<noteq> 0 \<Longrightarrow> (drop (ws_len s) s, s) \<in> measure length" for s
    by (cases s) simp_all
qed simp

declare trim_start.simps [simp del]

lemma trim_start_id: "ws_len s = 0 \<Longrightarrow> trim_start s = s"
  by (subst trim_start.simps) simp

text \<open>The number of bytes of the white space character at the end of a string, or zero.\<close>

definition last_ws :: "string \<Rightarrow> nat" where
  "last_ws s =
     (if 1 \<le> length s \<and> ws_len (drop (length s - 1) s) = 1 then 1
      else if 2 \<le> length s \<and> ws_len (drop (length s - 2) s) = 2 then 2
      else if 3 \<le> length s \<and> ws_len (drop (length s - 3) s) = 3 then 3 else 0)"

function trim_end :: "string \<Rightarrow> string" where
  "trim_end s = (if last_ws s = 0 then s else trim_end (take (length s - last_ws s) s))"
  by pat_completeness auto
termination
  by (relation "measure length") (auto simp: last_ws_def split: if_splits)

declare trim_end.simps [simp del]

definition trim :: "string \<Rightarrow> string" where
  "trim s = trim_end (trim_start s)"

lemma last_ws_ascii:
  assumes "byte c < 128" and "\<not> (9 \<le> byte c \<and> byte c \<le> 13)" and "byte c \<noteq> 32"
  shows "last_ws (s @ [c]) = 0"
proof -
  have 2: "ws_len [a, c] \<noteq> 2" for a using assms(1) by (simp add: ws_len.simps Let_def)
  have 3: "ws_len [a, b, c] \<noteq> 3" for a b using assms(1) by (simp add: ws_len.simps Let_def)
  have "\<exists>a. drop (length s - 1) s = [a]" if "1 \<le> length s"
    using that by (metis One_nat_def append_butlast_last_id append_eq_conv_conj length_butlast length_greater_0_conv less_le_trans zero_less_one)
  moreover have "\<exists>a b. drop (length s - 2) s = [a, b]" if "2 \<le> length s"
  proof -
    have "length (drop (length s - 2) s) = 2" using that by simp
    then show ?thesis by (metis (no_types, lifting) One_nat_def Suc_1 length_0_conv length_Suc_conv)
  qed
  ultimately show ?thesis using assms 2 3
    by (auto simp: last_ws_def numeral_2_eq_2 numeral_3_eq_3)
qed

lemma trim_end_id: "last_ws s = 0 \<Longrightarrow> trim_end s = s"
  by (subst trim_end.simps) simp

text \<open>A non-empty string whose first and last character are visible ASCII is not changed by \<open>trim\<close>.\<close>

lemma trim_id:
  assumes "s \<noteq> []" and "33 \<le> byte (hd s)" and "byte (hd s) < 128" and "33 \<le> byte (last s)" and "byte (last s) < 128"
  shows "trim s = s"
proof -
  have "ws_len s = 0" using assms(1-3) by (cases s) auto
  moreover have "last_ws (butlast s @ [last s]) = 0" using assms(4,5) by (intro last_ws_ascii) auto
  ultimately show ?thesis using assms(1) by (simp add: trim_def trim_start_id trim_end_id)
qed

text \<open>
  \<open>to_lowercase\<close>, exact on ASCII. Of the other characters only the Kelvin sign becomes an ASCII
  character; the rest stay outside ASCII and are left as they are here.
\<close>

fun to_lowercase :: "string \<Rightarrow> string" where
  "to_lowercase (a # b # c # s) =
     (if byte a = 0xE2 \<and> byte b = 0x84 \<and> byte c = 0xAA then CHR ''k'' # to_lowercase s
      else to_ascii_lower_char a # to_lowercase (b # c # s))"
| "to_lowercase s = to_ascii_lowercase s"

lemma to_lowercase_ascii: "(\<And>c. c \<in> set s \<Longrightarrow> byte c < 128) \<Longrightarrow> to_lowercase s = to_ascii_lowercase s"
proof (induction s rule: to_lowercase.induct)
  case (1 a b c s)
  then have "byte a \<noteq> 226" by fastforce
  with 1 show ?case by (simp add: to_ascii_lowercase_def)
qed simp_all

text \<open>\<open>split_whitespace\<close>: the non-empty pieces between white space; \<open>acc\<close> is the current piece.\<close>

function split_ws :: "string \<Rightarrow> string \<Rightarrow> string list" where
  "split_ws acc [] = (if acc = [] then [] else [acc])"
| "split_ws acc (c # s) =
     (if ws_len (c # s) = 0 then split_ws (acc @ [c]) s
      else (if acc = [] then [] else [acc]) @ split_ws [] (drop (ws_len (c # s)) (c # s)))"
  by pat_completeness auto
termination
  by (relation "measure (length \<circ> snd)") (auto simp: less_Suc_eq_le)

definition split_whitespace :: "string \<Rightarrow> string list" where
  "split_whitespace s = split_ws [] s"

section \<open>Splitting at a character or a substring\<close>

text \<open>\<open>split_once\<close> and \<open>rsplit_once\<close> at a character: what is before and after its first (last) occurrence.\<close>

definition split_once :: "char \<Rightarrow> string \<Rightarrow> (string \<times> string) option" where
  "split_once c s = (case dropWhile (\<lambda>x. x \<noteq> c) s of [] \<Rightarrow> None | _ # r \<Rightarrow> Some (takeWhile (\<lambda>x. x \<noteq> c) s, r))"

definition rsplit_once :: "char \<Rightarrow> string \<Rightarrow> (string \<times> string) option" where
  "rsplit_once c s = map_option (\<lambda>(a, b). (rev b, rev a)) (split_once c (rev s))"

lemma split_once_append: "c \<notin> set a \<Longrightarrow> split_once c (a @ c # b) = Some (a, b)"
proof -
  assume "c \<notin> set a"
  then have "\<And>x. x \<in> set a \<Longrightarrow> x \<noteq> c" by auto
  then show ?thesis by (simp add: split_once_def dropWhile_append2 takeWhile_append2)
qed

lemma split_once_None: "c \<notin> set s \<Longrightarrow> split_once c s = None"
proof -
  assume "c \<notin> set s"
  then have "dropWhile (\<lambda>x. x \<noteq> c) s = []" by (induction s) auto
  then show ?thesis unfolding split_once_def by (simp only: list.case)
qed

lemma rsplit_once_append: "c \<notin> set b \<Longrightarrow> rsplit_once c (a @ c # b) = Some (a, b)"
  using split_once_append [of c "rev b" "rev a"] by (simp add: rsplit_once_def)

text \<open>The text before and after the first occurrence of a substring, as found by \<open>find\<close>.\<close>

fun split_at_str :: "string \<Rightarrow> string \<Rightarrow> (string \<times> string) option" where
  "split_at_str p [] = (if p = [] then Some ([], []) else None)"
| "split_at_str p (c # cs) =
     (if prefix p (c # cs) then Some ([], drop (length p) (c # cs))
      else map_option (\<lambda>(a, b). (c # a, b)) (split_at_str p cs))"

lemma split_at_str_Some: "split_at_str p s = Some (a, b) \<Longrightarrow> s = a @ p @ b"
  by (induction s arbitrary: a) (auto split: if_splits simp: prefix_def)

lemma split_once_Some: "split_once c s = Some (a, b) \<Longrightarrow> s = a @ c # b \<and> c \<notin> set a"
proof -
  assume "split_once c s = Some (a, b)"
  then obtain x where d: "dropWhile (\<lambda>x. x \<noteq> c) s = x # b" and a: "a = takeWhile (\<lambda>x. x \<noteq> c) s"
    by (auto simp: split_once_def split: list.splits)
  have "x = c" using hd_dropWhile [of "\<lambda>x. x \<noteq> c" s] d by simp
  then show ?thesis using takeWhile_dropWhile_id [of "\<lambda>x. x \<noteq> c" s] a d by (auto dest: set_takeWhileD)
qed

text \<open>Lower-case hexadecimal of a byte, \<open>{:02x}\<close>.\<close>

definition hex_lower :: "nat \<Rightarrow> char" where
  "hex_lower n = (if n < 10 then char_of (48 + n) else char_of (87 + n))"

definition hex_byte_to_string :: "char \<Rightarrow> string" where
  "hex_byte_to_string b = [hex_lower (byte b div 16), hex_lower (byte b mod 16)]"

end
