(* ===== verification/F64.thy ===== *)
theory F64
  imports Complex_Main "HOL-Library.Log_Nat" Rust_Str
begin

text \<open>
  The part of Rust's \<open>f64\<close> that the configuration uses: the values of IEEE 754 binary64 (the sign of
  zero left out), rounding to nearest even, the parser \<open>str::parse::<f64>\<close>, multiplication, division
  and the saturating cast to \<open>usize\<close>.
\<close>

section \<open>Values and rounding\<close>

text \<open>\<open>F_inf True\<close> is negative infinity.\<close>

datatype f64 = F_nan | F_inf bool | F_fin rat

text \<open>The exponent of the largest power of two that is not above a positive number.\<close>

definition ilog2 :: "rat \<Rightarrow> int" where
  "ilog2 x = (case quotient_of x of (p, q) \<Rightarrow>
     let e = int (floorlog 2 (nat p)) - int (floorlog 2 (nat q)) in
     if 2 powi e \<le> x then e else e - 1)"

definition round_half_even :: "rat \<Rightarrow> int" where
  "round_half_even x =
     (let n = \<lfloor>x\<rfloor>; r = x - of_int n in
      if r < 1 / 2 then n else if 1 / 2 < r then n + 1 else if even n then n else n + 1)"

text \<open>The exponent of the last bit: 53 bits of precision, and nothing below \<open>2\<close> to the \<open>-1074\<close>.\<close>

definition ulp_exp :: "rat \<Rightarrow> int" where
  "ulp_exp x = max (ilog2 x - 52) (-1074)"

definition round_f64 :: "rat \<Rightarrow> f64" where
  "round_f64 x =
     (if x = 0 then F_fin 0
      else let u = ulp_exp \<bar>x\<bar>; y = of_int (round_half_even (\<bar>x\<bar> / 2 powi u)) * 2 powi u in
        if 2 ^ 1024 \<le> y then F_inf (x < 0) else F_fin (sgn x * y))"

section \<open>Parsing\<close>

definition is_digit :: "char \<Rightarrow> bool" where
  "is_digit c \<longleftrightarrow> 48 \<le> byte c \<and> byte c \<le> 57"

definition digits_value :: "string \<Rightarrow> nat" where
  "digits_value ds = foldl (\<lambda>a c. 10 * a + (byte c - 48)) 0 ds"

text \<open>An optional sign: whether it is a minus, and what follows.\<close>

definition split_sign :: "string \<Rightarrow> bool \<times> string" where
  "split_sign s = (case s of
     [] \<Rightarrow> (False, [])
   | c # r \<Rightarrow> if c = CHR ''-'' then (True, r) else if c = CHR ''+'' then (False, r) else (False, s))"

text \<open>The exponent after the digits: absent, or \<open>e\<close> with an optional sign and at least one digit.\<close>

definition parse_exponent :: "string \<Rightarrow> int option" where
  "parse_exponent s = (case s of
     [] \<Rightarrow> Some 0
   | c # r \<Rightarrow>
       if c = CHR ''e'' \<or> c = CHR ''E'' then
         (case split_sign r of (neg, ds) \<Rightarrow>
            if ds \<noteq> [] \<and> list_all is_digit ds
            then Some (if neg then - int (digits_value ds) else int (digits_value ds)) else None)
       else None)"

definition parse_decimal :: "string \<Rightarrow> rat option" where
  "parse_decimal s =
     (let ip = takeWhile is_digit s; r = dropWhile is_digit s;
          (fp, r') = (case r of c # t \<Rightarrow> if c = CHR ''.'' then (takeWhile is_digit t, dropWhile is_digit t) else ([], r)
            | [] \<Rightarrow> ([], r)) in
      if ip = [] \<and> fp = [] then None
      else map_option (\<lambda>e. of_nat (digits_value (ip @ fp)) * 10 powi (e - int (length fp))) (parse_exponent r'))"

definition parse_f64 :: "string \<Rightarrow> f64 option" where
  "parse_f64 s = (case split_sign s of (neg, r) \<Rightarrow>
     if eq_ignore_ascii_case r ''inf'' \<or> eq_ignore_ascii_case r ''infinity'' then Some (F_inf neg)
     else if eq_ignore_ascii_case r ''nan'' then Some F_nan
     else map_option (\<lambda>x. round_f64 (if neg then - x else x)) (parse_decimal r))"

section \<open>Arithmetic\<close>

definition f64_is_neg :: "f64 \<Rightarrow> bool" where
  "f64_is_neg x = (case x of F_nan \<Rightarrow> False | F_inf s \<Rightarrow> s | F_fin r \<Rightarrow> r < 0)"

definition f64_mul :: "f64 \<Rightarrow> f64 \<Rightarrow> f64" where
  "f64_mul x y = (case (x, y) of
     (F_fin a, F_fin b) \<Rightarrow> round_f64 (a * b)
   | (F_nan, _) \<Rightarrow> F_nan
   | (_, F_nan) \<Rightarrow> F_nan
   | _ \<Rightarrow> if x = F_fin 0 \<or> y = F_fin 0 then F_nan else F_inf (f64_is_neg x \<noteq> f64_is_neg y))"

text \<open>Division by a finite number other than zero.\<close>

definition f64_div_fin :: "f64 \<Rightarrow> rat \<Rightarrow> f64" where
  "f64_div_fin x b = (case x of
     F_nan \<Rightarrow> F_nan | F_inf s \<Rightarrow> F_inf (s \<noteq> (b < 0)) | F_fin a \<Rightarrow> round_f64 (a / b))"

text \<open>The casts from integers, and \<open>Duration::as_secs_f64\<close>: whole seconds plus the fraction.\<close>

definition f64_of_u64 :: "u64 \<Rightarrow> f64" where
  "f64_of_u64 w = round_f64 (of_nat (unat w))"

definition f64_add :: "f64 \<Rightarrow> f64 \<Rightarrow> f64" where
  "f64_add x y = (case (x, y) of
     (F_fin a, F_fin b) \<Rightarrow> round_f64 (a + b)
   | (F_inf s, F_inf t) \<Rightarrow> if s = t then F_inf s else F_nan
   | (F_inf s, F_fin _) \<Rightarrow> F_inf s
   | (F_fin _, F_inf t) \<Rightarrow> F_inf t
   | _ \<Rightarrow> F_nan)"

definition f64_of_nanos :: "nat \<Rightarrow> f64" where
  "f64_of_nanos d =
     f64_add (round_f64 (of_nat (d div 10 ^ 9))) (f64_div_fin (round_f64 (of_nat (d mod 10 ^ 9))) (10 ^ 9))"

text \<open>\<open>(lo..=hi).contains\<close>: false for \<open>NaN\<close>.\<close>

definition f64_in_range :: "rat \<Rightarrow> rat \<Rightarrow> f64 \<Rightarrow> bool" where
  "f64_in_range lo hi x = (case x of F_fin r \<Rightarrow> lo \<le> r \<and> r \<le> hi | _ \<Rightarrow> False)"

text \<open>The cast \<open>as usize\<close> truncates and saturates; \<open>NaN\<close> becomes zero.\<close>

definition f64_as_usize :: "f64 \<Rightarrow> usize" where
  "f64_as_usize x = (case x of
     F_nan \<Rightarrow> 0
   | F_inf neg \<Rightarrow> if neg then 0 else - 1
   | F_fin r \<Rightarrow> if r \<le> 0 then 0 else if 2 ^ 64 \<le> r then - 1 else of_int \<lfloor>r\<rfloor>)"

section \<open>Exact results\<close>

lemma bit_length: "0 < n \<Longrightarrow> 2 ^ (floorlog 2 n - 1) \<le> n \<and> n < 2 ^ floorlog 2 n"
  using floorlog_bounds [of n 2] by simp

lemma ilog2_le:
  assumes "0 < x" shows "2 powi ilog2 x \<le> x"
proof -
  obtain p q where pq: "quotient_of x = (p, q)" by fastforce
  have q: "0 < q" using quotient_of_denom_pos [OF pq] .
  have x: "x = of_int p / of_int q" by (rule quotient_of_div [OF pq])
  with assms q have p: "0 < p" by (simp add: zero_less_divide_iff)
  define a b where "a = floorlog 2 (nat p)" and "b = floorlog 2 (nat q)"
  have a: "2 ^ (a - 1) \<le> nat p" and b: "nat q < 2 ^ b"
    using bit_length [of "nat p"] bit_length [of "nat q"] p q by (auto simp: a_def b_def)
  have a1: "1 \<le> a" using p bit_length [of "nat p"] by (cases a) (auto simp: a_def)
  have P: "(2::rat) powi (int a - 1) \<le> of_int p"
  proof -
    have "(2::rat) powi (int a - 1) = of_nat (2 ^ (a - 1))" using a1 by (simp add: power_int_def nat_diff_distrib)
    also have "\<dots> \<le> of_nat (nat p)" using a by (simp only: of_nat_le_iff)
    also have "\<dots> = of_int p" using p by (simp add: of_nat_nat)
    finally show ?thesis .
  qed
  have Q: "(of_int q :: rat) \<le> 2 powi (int b)"
  proof -
    have "(of_int q :: rat) = of_nat (nat q)" using q by (simp add: of_nat_nat)
    also have "\<dots> \<le> of_nat (2 ^ b)" using b by (simp only: of_nat_le_iff)
    also have "\<dots> = 2 powi (int b)" by simp
    finally show ?thesis .
  qed
  have "(2::rat) powi (int a - 1 - int b) = 2 powi (int a - 1) / 2 powi (int b)"
    by (rule power_int_diff) simp
  also have "\<dots> \<le> of_int p / of_int q"
    by (rule frac_le) (use P Q q p in simp_all)
  finally have "2 powi (int a - 1 - int b) \<le> x" using x by simp
  then show ?thesis by (simp add: ilog2_def pq Let_def algebra_simps flip: a_def b_def)
qed

lemma round_half_even_int [simp]: "round_half_even (of_int n) = n"
  by (simp add: round_half_even_def)

lemma round_f64_exact:
  assumes "x = of_int m * 2 powi k" and "\<bar>m\<bar> < 2 ^ 53" and "- 1074 \<le> k" and "\<bar>x\<bar> < 2 ^ 1024"
  shows "round_f64 x = F_fin x"
proof (cases "x = 0")
  case False
  define u where "u = ulp_exp \<bar>x\<bar>"
  have "\<bar>x\<bar> < 2 powi (53 + k)"
  proof -
    have "\<bar>x\<bar> = of_int \<bar>m\<bar> * 2 powi k" by (simp add: assms(1) abs_mult)
    also have "\<dots> < 2 ^ 53 * 2 powi k"
    proof -
      have "(of_int \<bar>m\<bar> :: rat) < of_int (2 ^ 53)" using assms(2) by (simp only: of_int_less_iff)
      then show ?thesis by simp
    qed
    finally show ?thesis by (simp add: power_int_add)
  qed
  moreover have "2 powi ilog2 \<bar>x\<bar> \<le> \<bar>x\<bar>" by (rule ilog2_le) (use False in simp)
  ultimately have "2 powi ilog2 \<bar>x\<bar> < (2::rat) powi (53 + k)" by simp
  then have "ilog2 \<bar>x\<bar> < 53 + k" by (meson not_less power_int_increasing one_le_numeral)
  then have u: "u \<le> k" using assms(3) by (simp add: u_def ulp_exp_def)
  have "\<bar>x\<bar> / 2 powi u = of_int \<bar>m\<bar> * 2 powi (k - u)"
    by (simp add: assms(1) abs_mult power_int_diff)
  also have "\<dots> = of_int (\<bar>m\<bar> * 2 ^ nat (k - u))" using u by (simp add: power_int_def)
  finally have "\<bar>x\<bar> / 2 powi u = of_int (\<bar>m\<bar> * 2 ^ nat (k - u))" .
  then have "of_int (round_half_even (\<bar>x\<bar> / 2 powi u)) * 2 powi u = \<bar>x\<bar>"
    by (metis round_half_even_int nonzero_eq_divide_eq power_int_eq_0_iff zero_neq_numeral)
  then show ?thesis using assms(4) False
    by (simp add: round_f64_def Let_def flip: u_def) (simp add: sgn_mult_abs)
qed (simp add: round_f64_def)

lemma round_f64_nat: "n < 2 ^ 53 \<Longrightarrow> round_f64 (of_nat (n * 2 ^ k)) = F_fin (of_nat (n * 2 ^ k))" if "k \<le> 900"
proof (rule round_f64_exact [of _ "int n" "int k"])
  assume n: "n < 2 ^ 53"
  then show "\<bar>int n\<bar> < 2 ^ 53" by simp
  have "n * 2 ^ k < 2 ^ 53 * 2 ^ k" using n by simp
  also have "\<dots> = (2::nat) ^ (53 + k)" by (simp add: power_add)
  also have "\<dots> \<le> 2 ^ 1024" using that by (intro power_increasing) simp_all
  finally have "n * 2 ^ k < (2::nat) ^ 1024" .
  then have "(of_nat (n * 2 ^ k) :: rat) < of_nat (2 ^ 1024)" by (simp only: of_nat_less_iff)
  then show "\<bar>of_nat (n * 2 ^ k) :: rat\<bar> < 2 ^ 1024" by (simp only: abs_of_nat of_nat_power of_nat_numeral)
qed simp_all

lemma is_digit_dec_of_nat: "c \<in> set (dec_of_nat n) \<Longrightarrow> is_digit c"
  using dec_of_nat_range [of c n] by (simp add: is_digit_def)

lemma digits_value_dec_of_nat [simp]: "digits_value (dec_of_nat n) = n"
proof (induction n rule: dec_of_nat.induct)
  case (1 n)
  show ?case
  proof (cases "n < 10")
    case False
    then have "digits_value (dec_of_nat (n div 10)) = n div 10" by (rule 1)
    with False show ?thesis
      by (simp add: dec_of_nat.simps [of n] digits_value_def of_char_digit_char)
  qed (simp add: dec_of_nat.simps [of n] digits_value_def of_char_digit_char)
qed

lemma parse_decimal_nat: "parse_decimal (dec_of_nat n) = Some (of_nat n)"
proof -
  have 1: "takeWhile is_digit (dec_of_nat n) = dec_of_nat n" and 2: "dropWhile is_digit (dec_of_nat n) = []"
    using is_digit_dec_of_nat by (auto simp: takeWhile_eq_all_conv dropWhile_eq_Nil_conv)
  show ?thesis unfolding parse_decimal_def Let_def 1 2 by (simp add: parse_exponent_def)
qed

lemma split_sign_dec_of_nat: "split_sign (dec_of_nat n) = (False, dec_of_nat n)"
  using dec_of_nat_no_sign(1,2) [of n] by (cases "dec_of_nat n") (auto simp: split_sign_def)

lemma parse_f64_nat: "n < 2 ^ 53 \<Longrightarrow> parse_f64 (dec_of_nat n) = Some (F_fin (of_nat n))"
proof -
  assume n: "n < 2 ^ 53"
  obtain d ds where d: "dec_of_nat n = d # ds" by (cases "dec_of_nat n") simp_all
  have "48 \<le> byte d \<and> byte d \<le> 57" using dec_of_nat_hd [of n] by (simp add: d)
  then have "to_ascii_lower_char d \<notin> {CHR ''i'', CHR ''n''}"
    by (auto simp: to_ascii_lower_char_def dest: arg_cong [where f = "of_char :: char \<Rightarrow> nat"])
  then have "\<not> eq_ignore_ascii_case (dec_of_nat n) (c # w)" if "c \<in> {CHR ''i'', CHR ''n''}" for c w
    using that by (auto simp: eq_ignore_ascii_case_def to_ascii_lowercase_def d to_ascii_lower_char_def)
  then show ?thesis using round_f64_nat [of 0 n] n
    by (simp add: parse_f64_def split_sign_dec_of_nat parse_decimal_nat)
qed

lemma f64_mul_nat: "n < 2 ^ 53 \<Longrightarrow> k \<le> 900 \<Longrightarrow> f64_mul (F_fin (of_nat n)) (F_fin (2 ^ k)) = F_fin (of_nat (n * 2 ^ k))"
  using round_f64_nat [of k n] by (simp add: f64_mul_def)

lemma f64_as_usize_nat: "f64_as_usize (F_fin (of_nat n)) = of_nat (min n (2 ^ 64 - 1))"
proof -
  have "(2 ^ 64 \<le> (of_nat n :: rat)) = (2 ^ 64 \<le> n)"
    by (metis of_nat_le_iff of_nat_numeral of_nat_power)
  moreover have "(of_nat (2 ^ 64 - 1) :: usize) = - 1" by simp
  ultimately show ?thesis
    by (auto simp: f64_as_usize_def min_def not_le le_diff_conv2 less_Suc_eq_le)
qed

end
