(* ===== verification/Wire_Codec.thy ===== *)
theory Wire_Codec
  imports Rust_Str
begin

text \<open>
  The interface between the two ends of a connection: an encoder, a decoder that consumes one
  message from the front of the byte stream, what the receiver sees of a message, and the domain
  on which the pair is lossless. The readers and writers of the server and of the client are
  interpretations of it; what follows from the contract (streams of messages, unique decoding)
  is proved here once.
\<close>

text \<open>Reading a given number of messages, stopping at the first error.\<close>

fun read_n :: "(bytes \<Rightarrow> 'e + 'b \<times> bytes) \<Rightarrow> nat \<Rightarrow> bytes \<Rightarrow> 'e + 'b list \<times> bytes" where
  "read_n dec 0 s = Inr ([], s)"
| "read_n dec (Suc n) s =
     try_res (dec s) (\<lambda>(x, r). try_res (read_n dec n r) (\<lambda>(xs, r'). Inr (x # xs, r')))"

locale wire_codec =
  fixes enc :: "'a \<Rightarrow> bytes"
    and dec :: "bytes \<Rightarrow> 'e + 'b \<times> bytes"
    and view :: "'a \<Rightarrow> 'b"
    and ok :: "'a \<Rightarrow> bool"
  assumes dec_enc: "ok x \<Longrightarrow> dec (enc x @ rest) = Inr (view x, rest)"
begin

lemma stream_roundtrip:
  "(\<And>x. x \<in> set xs \<Longrightarrow> ok x) \<Longrightarrow>
   read_n dec (length xs) (concat (map enc xs) @ rest) = Inr (map view xs, rest)"
proof (induction xs)
  case (Cons x xs)
  then have "dec (enc x @ concat (map enc xs) @ rest) = Inr (view x, concat (map enc xs) @ rest)"
    by (intro dec_enc) simp
  with Cons show ?case by simp
qed simp

lemma unique_decoding:
  assumes "ok x" and "ok y" and "enc x @ r = enc y @ r'"
  shows "view x = view y \<and> r = r'"
proof -
  have "dec (enc x @ r) = Inr (view x, r)" using assms(1) by (rule dec_enc)
  moreover have "dec (enc x @ r) = Inr (view y, r')" using assms by (simp add: dec_enc)
  ultimately show ?thesis by simp
qed

lemma no_strict_prefix:
  assumes "ok x" and "ok y" and "view x \<noteq> view y"
  shows "\<not> prefix (enc x) (enc y)"
proof
  assume "prefix (enc x) (enc y)"
  then obtain z where "enc x @ z = enc y @ []" by (auto simp: prefix_def)
  with unique_decoding [OF assms(1,2)] assms(3) show False by blast
qed

end

end
