(* ===== verification/Resp3.thy ===== *)
theory Resp3
  imports Wire_Codec
begin

text \<open>
  The RESP3 frames of \<open>shroudb-protocol/src/resp3\<close>: the frame type and the protocol errors
  (\<open>mod.rs\<close>), the reader (\<open>reader.rs\<close>) and the writer (\<open>writer.rs\<close>).

  The reader works on the bytes still to come from the peer; the end of the list is the end of
  the stream. A result carries the unread rest. The server drops the connection after any error
  of the reader, so an error carries no rest.
\<close>

section \<open>Frames and errors\<close>

datatype resp3_frame =
    SimpleString string
  | SimpleError string
  | Integer i64
  | BulkString bytes
  | Array "resp3_frame list"
  | Map "(resp3_frame \<times> resp3_frame) list"
  | Push "resp3_frame list"
  | Null

text \<open>The I/O errors that a reader of a byte stream meets: a short read and a line that is not UTF-8.\<close>

datatype io_error = UnexpectedEof | InvalidData

datatype protocol_error =
    InvalidTypeByte char
  | FrameTooLarge usize
  | NestingTooDeep
  | InvalidFormat string
  | Io io_error

definition MAX_BULK_SIZE :: nat where "MAX_BULK_SIZE = 16 * 1024 * 1024"
definition MAX_COLLECTION_SIZE :: nat where "MAX_COLLECTION_SIZE = 100000"
definition MAX_DEPTH :: nat where "MAX_DEPTH = 8"

section \<open>Reader\<close>

definition read_exact :: "nat \<Rightarrow> bytes \<Rightarrow> protocol_error + bytes \<times> bytes" where
  "read_exact n s = (if n \<le> length s then Inr (take n s, drop n s) else Inl (Io UnexpectedEof))"

text \<open>The bytes up to and including the first line feed (all of them when there is none).\<close>

fun split_line :: "bytes \<Rightarrow> bytes \<times> bytes" where
  "split_line [] = ([], [])"
| "split_line (c # cs) =
     (if c = LF then ([c], cs) else (case split_line cs of (l, r) \<Rightarrow> (c # l, r)))"

definition pop_newline :: "string \<Rightarrow> string" where
  "pop_newline l =
     (if l \<noteq> [] \<and> last l = LF then
        (let m = butlast l in if m \<noteq> [] \<and> last m = CR then butlast m else m)
      else l)"

definition read_line :: "bytes \<Rightarrow> protocol_error + string \<times> bytes" where
  "read_line s =
     (case split_line s of (l, r) \<Rightarrow>
        if utf8_valid l then Inr (pop_newline l, r) else Inl (Io InvalidData))"

text \<open>The length line of a bulk string, array, map or push frame.\<close>

definition read_len :: "string \<Rightarrow> nat \<Rightarrow> bytes \<Rightarrow> protocol_error + nat \<times> bytes" where
  "read_len what limit s =
     try_res (read_line s) (\<lambda>(line, r).
     try_res (map_err (\<lambda>e. InvalidFormat (''bad '' @ what @ '' length: '' @ parse_int_error_to_string e))
                (parse_usize line)) (\<lambda>n.
     if limit < unat n then Inl (FrameTooLarge n) else Inr (unat n, r)))"

definition read_crlf :: "string \<Rightarrow> bytes \<Rightarrow> protocol_error + bytes" where
  "read_crlf after s =
     try_res (read_exact 2 s) (\<lambda>(crlf, r).
     if crlf \<noteq> CRLF then Inl (InvalidFormat (''missing CRLF after '' @ after)) else Inr r)"

definition read_bulk :: "bytes \<Rightarrow> protocol_error + bytes \<times> bytes" where
  "read_bulk s =
     try_res (read_len ''bulk'' MAX_BULK_SIZE s) (\<lambda>(n, r).
     try_res (read_exact n r) (\<lambda>(buf, r').
     try_res (read_crlf ''bulk string'' r') (\<lambda>r''. Inr (buf, r''))))"

definition read_integer :: "bytes \<Rightarrow> protocol_error + i64 \<times> bytes" where
  "read_integer s =
     try_res (read_line s) (\<lambda>(line, r).
     try_res (map_err (\<lambda>e. InvalidFormat (''bad integer: '' @ parse_int_error_to_string e))
                (parse_i64 line)) (\<lambda>n. Inr (n, r)))"

lemma try_res_cong [fundef_cong]:
  "r = r' \<Longrightarrow> (\<And>x. r' = Inr x \<Longrightarrow> k x = k' x) \<Longrightarrow> try_res r k = try_res r' k'"
  by (cases r') simp_all

text \<open>
  \<open>read_frames\<close> and \<open>read_pairs\<close> are the \<open>for _ in 0..count\<close> loops over the elements of an
  array or push frame and over the entries of a map.
\<close>

function (sequential)
  read_frame_depth :: "nat \<Rightarrow> bytes \<Rightarrow> protocol_error + resp3_frame option \<times> bytes"
  and read_frames :: "nat \<Rightarrow> string \<Rightarrow> nat \<Rightarrow> bytes \<Rightarrow> protocol_error + resp3_frame list \<times> bytes"
  and read_pairs :: "nat \<Rightarrow> nat \<Rightarrow> bytes \<Rightarrow> protocol_error + (resp3_frame \<times> resp3_frame) list \<times> bytes"
where
  "read_frame_depth depth s =
     (if MAX_DEPTH < depth then Inl NestingTooDeep
      else case s of
        [] \<Rightarrow> Inr (None, [])
      | type_byte # s1 \<Rightarrow>
          if type_byte = CHR ''+'' then
            try_res (read_line s1) (\<lambda>(line, r). Inr (Some (SimpleString line), r))
          else if type_byte = CHR ''-'' then
            try_res (read_line s1) (\<lambda>(line, r). Inr (Some (SimpleError line), r))
          else if type_byte = CHR '':'' then
            try_res (read_integer s1) (\<lambda>(n, r). Inr (Some (Integer n), r))
          else if type_byte = CHR ''$'' then
            try_res (read_bulk s1) (\<lambda>(buf, r). Inr (Some (BulkString buf), r))
          else if type_byte = CHR ''*'' then
            try_res (read_len ''array'' MAX_COLLECTION_SIZE s1) (\<lambda>(count, r).
            try_res (read_frames (Suc depth) ''array'' count r) (\<lambda>(fs, r'). Inr (Some (Array fs), r')))
          else if type_byte = CHR ''%'' then
            try_res (read_len ''map'' MAX_COLLECTION_SIZE s1) (\<lambda>(count, r).
            try_res (read_pairs (Suc depth) count r) (\<lambda>(ps, r'). Inr (Some (Map ps), r')))
          else if type_byte = CHR ''>'' then
            try_res (read_len ''push'' MAX_COLLECTION_SIZE s1) (\<lambda>(count, r).
            try_res (read_frames (Suc depth) ''push frame'' count r) (\<lambda>(fs, r'). Inr (Some (Push fs), r')))
          else if type_byte = CHR ''_'' then
            try_res (read_crlf ''null'' s1) (\<lambda>r. Inr (Some Null, r))
          else Inl (InvalidTypeByte type_byte))"
| "read_frames depth what 0 s = Inr ([], s)"
| "read_frames depth what (Suc n) s =
     try_res (read_frame_depth depth s) (\<lambda>(x, r).
       case x of
         None \<Rightarrow> Inl (InvalidFormat (''unexpected EOF in '' @ what))
       | Some f \<Rightarrow> try_res (read_frames depth what n r) (\<lambda>(fs, r'). Inr (f # fs, r')))"
| "read_pairs depth 0 s = Inr ([], s)"
| "read_pairs depth (Suc n) s =
     try_res (read_frame_depth depth s) (\<lambda>(x, r).
       case x of
         None \<Rightarrow> Inl (InvalidFormat ''unexpected EOF in map key'')
       | Some k \<Rightarrow>
           try_res (read_frame_depth depth r) (\<lambda>(y, r').
             case y of
               None \<Rightarrow> Inl (InvalidFormat ''unexpected EOF in map value'')
             | Some v \<Rightarrow> try_res (read_pairs depth n r') (\<lambda>(ps, r''). Inr ((k, v) # ps, r''))))"
  by pat_completeness auto
termination
  by (relation "measures
       [\<lambda>x. case x of Inl (d, s) \<Rightarrow> 10 - d | Inr (Inl (d, w, n, s)) \<Rightarrow> 10 - d | Inr (Inr (d, n, s)) \<Rightarrow> 10 - d,
        \<lambda>x. case x of Inl _ \<Rightarrow> 0 | Inr (Inl (d, w, n, s)) \<Rightarrow> Suc n | Inr (Inr (d, n, s)) \<Rightarrow> Suc n]")
    (auto simp: MAX_DEPTH_def)

declare read_frame_depth.simps [simp del]

definition read_frame :: "bytes \<Rightarrow> protocol_error + resp3_frame option \<times> bytes" where
  "read_frame s = read_frame_depth 0 s"

section \<open>Writer\<close>

fun write_frame :: "resp3_frame \<Rightarrow> bytes" where
  "write_frame (SimpleString s) = CHR ''+'' # s @ CRLF"
| "write_frame (SimpleError s) = CHR ''-'' # s @ CRLF"
| "write_frame (Integer n) = CHR '':'' # i64_to_string n @ CRLF"
| "write_frame (BulkString data) = CHR ''$'' # dec_of_nat (length data) @ CRLF @ data @ CRLF"
| "write_frame (Array frames) =
     CHR ''*'' # dec_of_nat (length frames) @ CRLF @ concat (map write_frame frames)"
| "write_frame (Map pairs) =
     CHR ''%'' # dec_of_nat (length pairs) @ CRLF @
     concat (map (\<lambda>(k, v). write_frame k @ write_frame v) pairs)"
| "write_frame (Push frames) =
     CHR ''>'' # dec_of_nat (length frames) @ CRLF @ concat (map write_frame frames)"
| "write_frame Null = CHR ''_'' # CRLF"

section \<open>Well-formed frames\<close>

text \<open>
  The frames the reader can produce at a nesting depth, which are also the frames it reads back:
  simple strings are one line of UTF-8, bulk strings and collections are within their limits, and
  nesting stops at \<open>MAX_DEPTH\<close>.
\<close>

definition line_ok :: "string \<Rightarrow> bool" where
  "line_ok s \<longleftrightarrow> utf8_valid s \<and> LF \<notin> set s"

fun frame_ok :: "nat \<Rightarrow> resp3_frame \<Rightarrow> bool" where
  "frame_ok d (SimpleString s) = (d \<le> MAX_DEPTH \<and> line_ok s)"
| "frame_ok d (SimpleError s) = (d \<le> MAX_DEPTH \<and> line_ok s)"
| "frame_ok d (Integer n) = (d \<le> MAX_DEPTH)"
| "frame_ok d (BulkString data) = (d \<le> MAX_DEPTH \<and> length data \<le> MAX_BULK_SIZE)"
| "frame_ok d (Array frames) =
     (d \<le> MAX_DEPTH \<and> length frames \<le> MAX_COLLECTION_SIZE \<and> (\<forall>f \<in> set frames. frame_ok (Suc d) f))"
| "frame_ok d (Map pairs) =
     (d \<le> MAX_DEPTH \<and> length pairs \<le> MAX_COLLECTION_SIZE \<and>
      (\<forall>(k, v) \<in> set pairs. frame_ok (Suc d) k \<and> frame_ok (Suc d) v))"
| "frame_ok d (Push frames) =
     (d \<le> MAX_DEPTH \<and> length frames \<le> MAX_COLLECTION_SIZE \<and> (\<forall>f \<in> set frames. frame_ok (Suc d) f))"
| "frame_ok d Null = (d \<le> MAX_DEPTH)"

lemma frame_ok_depth: "frame_ok d f \<Longrightarrow> d \<le> MAX_DEPTH"
  by (cases f) simp_all

section \<open>Lines\<close>

lemma split_line_append: "LF \<notin> set l \<Longrightarrow> split_line (l @ LF # r) = (l @ [LF], r)"
  by (induction l) auto

lemma split_line_concat: "split_line s = (l, r) \<Longrightarrow> s = l @ r"
  by (induction s arbitrary: l r) (auto split: if_splits prod.splits)

lemma split_line_LF: "split_line s = (l, r) \<Longrightarrow> LF \<notin> set (butlast l)"
proof (induction s arbitrary: l r)
  case (Cons c cs)
  then show ?case by (cases "split_line cs") (auto split: if_splits)
qed simp

lemma LF_not_digit: "LF \<notin> set (dec_of_nat n)"
  using dec_of_nat_range [of LF n] by auto

lemma LF_not_dec_of_int: "LF \<notin> set (dec_of_int i)"
  by (simp add: dec_of_int_def LF_not_digit)

lemma line_ok_dec [simp]:
  "line_ok (dec_of_nat n)" "line_ok (i64_to_string w)" "line_ok (u64_to_string v)"
  by (simp_all add: line_ok_def LF_not_digit i64_to_string_def LF_not_dec_of_int u64_to_string_def)

lemma pop_newline_CRLF [simp]: "pop_newline (l @ CRLF) = l"
  by (simp add: pop_newline_def Let_def butlast_append)

lemma read_line_line [wire_simps]:
  assumes "line_ok l"
  shows "read_line (l @ CR # LF # r) = Inr (l, r)"
proof -
  have "split_line ((l @ [CR]) @ LF # r) = ((l @ [CR]) @ [LF], r)"
    using assms by (intro split_line_append) (auto simp: line_ok_def)
  then have "split_line (l @ CR # LF # r) = (l @ CRLF, r)" by simp
  moreover have "utf8_valid (l @ CRLF)"
    using assms by (simp add: line_ok_def utf8_valid_append)
  ultimately show ?thesis by (simp add: read_line_def)
qed

lemma take_2_CRLF: "take 2 (CR # LF # r) = CRLF" "drop 2 (CR # LF # r) = r"
  by (simp_all add: numeral_2_eq_2)

lemma read_crlf_CRLF [wire_simps]: "read_crlf w (CR # LF # r) = Inr r"
  by (simp add: read_crlf_def read_exact_def take_2_CRLF)

lemma read_integer_write [wire_simps]: "read_integer (i64_to_string n @ CR # LF # r) = Inr (n, r)"
  by (simp add: read_integer_def read_line_line)

lemma limits_small: "MAX_BULK_SIZE < 2 ^ 64" "MAX_COLLECTION_SIZE < 2 ^ 64"
  by (simp_all add: MAX_BULK_SIZE_def MAX_COLLECTION_SIZE_def)

lemma read_len_write [wire_simps]:
  assumes "n \<le> limit" and "limit < 2 ^ 64"
  shows "read_len w limit (dec_of_nat n @ CR # LF # r) = Inr (n, r)"
proof -
  have n: "n < 2 ^ 64" using assms by simp
  then have "unat (of_nat n :: 64 word) = n"
    by (simp add: unsigned_of_nat take_bit_nat_eq_self)
  with n assms(1) show ?thesis
    by (simp add: read_len_def read_line_line parse_usize_dec_of_nat)
qed

lemma read_bulk_write [wire_simps]:
  assumes "length data \<le> MAX_BULK_SIZE"
  shows "read_bulk (dec_of_nat (length data) @ CR # LF # data @ CR # LF # r) = Inr (data, r)"
  using assms limits_small by (simp add: read_bulk_def wire_simps read_exact_def)

section \<open>Reading what was written\<close>

text \<open>The reader after its type byte, one equation per kind of frame.\<close>

lemma read_frame_depth_kind [wire_simps]:
  assumes "d \<le> MAX_DEPTH"
  shows
    "read_frame_depth d (CHR ''+'' # s) = try_res (read_line s) (\<lambda>(l, r). Inr (Some (SimpleString l), r))"
    "read_frame_depth d (CHR ''-'' # s) = try_res (read_line s) (\<lambda>(l, r). Inr (Some (SimpleError l), r))"
    "read_frame_depth d (CHR '':'' # s) = try_res (read_integer s) (\<lambda>(n, r). Inr (Some (Integer n), r))"
    "read_frame_depth d (CHR ''$'' # s) = try_res (read_bulk s) (\<lambda>(b, r). Inr (Some (BulkString b), r))"
    "read_frame_depth d (CHR ''*'' # s) =
       try_res (read_len ''array'' MAX_COLLECTION_SIZE s) (\<lambda>(n, r).
       try_res (read_frames (Suc d) ''array'' n r) (\<lambda>(fs, r'). Inr (Some (Array fs), r')))"
    "read_frame_depth d (CHR ''%'' # s) =
       try_res (read_len ''map'' MAX_COLLECTION_SIZE s) (\<lambda>(n, r).
       try_res (read_pairs (Suc d) n r) (\<lambda>(ps, r'). Inr (Some (Map ps), r')))"
    "read_frame_depth d (CHR ''>'' # s) =
       try_res (read_len ''push'' MAX_COLLECTION_SIZE s) (\<lambda>(n, r).
       try_res (read_frames (Suc d) ''push frame'' n r) (\<lambda>(fs, r'). Inr (Some (Push fs), r')))"
    "read_frame_depth d (CHR ''_'' # s) = try_res (read_crlf ''null'' s) (\<lambda>r. Inr (Some Null, r))"
  using assms by (simp_all add: read_frame_depth.simps)

lemma read_frames_write:
  assumes "\<And>f r. f \<in> set fs \<Longrightarrow> read_frame_depth d (write_frame f @ r) = Inr (Some f, r)"
  shows "read_frames d w (length fs) (concat (map write_frame fs) @ r) = Inr (fs, r)"
  using assms by (induction fs) simp_all

lemma read_pairs_write:
  assumes "\<And>k v r. (k, v) \<in> set ps \<Longrightarrow>
      read_frame_depth d (write_frame k @ r) = Inr (Some k, r) \<and>
      read_frame_depth d (write_frame v @ r) = Inr (Some v, r)"
  shows "read_pairs d (length ps) (concat (map (\<lambda>(k, v). write_frame k @ write_frame v) ps) @ r) = Inr (ps, r)"
  using assms
proof (induction ps)
  case (Cons p ps)
  obtain k v where p: "p = (k, v)" by force
  have "read_frame_depth d (write_frame k @ t) = Inr (Some k, t)"
    "read_frame_depth d (write_frame v @ t) = Inr (Some v, t)" for t
    using Cons.prems [of k v t] p by simp_all
  moreover have "read_pairs d (length ps) (concat (map (\<lambda>(k, v). write_frame k @ write_frame v) ps) @ r) = Inr (ps, r)"
    by (rule Cons.IH) (rule Cons.prems, simp)
  ultimately show ?case using p by simp
qed simp

lemma read_frame_depth_write:
  "frame_ok d f \<Longrightarrow> read_frame_depth d (write_frame f @ r) = Inr (Some f, r)"
proof (induction f arbitrary: d r rule: write_frame.induct)
  case (5 frames)
  then have "read_frames (Suc d) ''array'' (length frames) (concat (map write_frame frames) @ r) = Inr (frames, r)"
    by (intro read_frames_write) simp
  with 5 limits_small show ?case by (simp add: wire_simps)
next
  case (6 pairs)
  have "read_pairs (Suc d) (length pairs)
      (concat (map (\<lambda>(k, v). write_frame k @ write_frame v) pairs) @ r) = Inr (pairs, r)"
  proof (rule read_pairs_write)
    fix k v r assume kv: "(k, v) \<in> set pairs"
    with "6.prems" have "frame_ok (Suc d) k" "frame_ok (Suc d) v" by auto
    with kv "6.IH" [OF kv refl]
    show "read_frame_depth (Suc d) (write_frame k @ r) = Inr (Some k, r) \<and>
          read_frame_depth (Suc d) (write_frame v @ r) = Inr (Some v, r)" by simp
  qed
  with 6 limits_small show ?case by (simp add: wire_simps)
next
  case (7 frames)
  then have "read_frames (Suc d) ''push frame'' (length frames) (concat (map write_frame frames) @ r) = Inr (frames, r)"
    by (intro read_frames_write) simp
  with 7 limits_small show ?case by (simp add: wire_simps)
qed (simp_all add: wire_simps)

interpretation server_wire: wire_codec write_frame read_frame Some "frame_ok 0"
  by unfold_locales (simp add: read_frame_def read_frame_depth_write)

section \<open>What is read\<close>

text \<open>Every successful read consumes input and yields a well-formed frame.\<close>

lemma pop_newline_line_ok:
  assumes "utf8_valid l" and "LF \<notin> set (butlast l)"
  shows "line_ok (pop_newline l)"
proof (cases "l \<noteq> [] \<and> last l = LF")
  case True
  then obtain m where l: "l = m @ [LF]" by (metis append_butlast_last_id)
  have m: "LF \<notin> set m" using assms(2) l by simp
  have vm: "utf8_valid m"
    using assms(1) l utf8_valid_snoc_ascii [of LF m] by simp
  show ?thesis
  proof (cases "m \<noteq> [] \<and> last m = CR")
    case True
    then obtain n where n: "m = n @ [CR]" by (metis append_butlast_last_id)
    have "utf8_valid n" using vm n utf8_valid_snoc_ascii [of CR n] by simp
    with m n l show ?thesis by (simp add: line_ok_def)
  next
    case False
    with l m vm show ?thesis by (auto simp: pop_newline_def line_ok_def)
  qed
next
  case False
  then have "LF \<notin> set l"
    using assms(2) by (cases l rule: rev_cases) auto
  with False assms(1) show ?thesis by (auto simp: pop_newline_def line_ok_def)
qed

lemma read_line_ok:
  assumes "read_line s = Inr (l, r)"
  shows "line_ok l \<and> length r \<le> length s"
proof -
  obtain l' where l': "split_line s = (l', r)" "utf8_valid l'" "l = pop_newline l'"
    using assms by (auto simp: read_line_def split: prod.splits if_splits)
  from l'(2) split_line_LF [OF l'(1)] have "line_ok (pop_newline l')" by (rule pop_newline_line_ok)
  moreover have "length r \<le> length s" using split_line_concat [OF l'(1)] by simp
  ultimately show ?thesis using l'(3) by simp
qed

lemma read_integer_ok: "read_integer s = Inr (n, r) \<Longrightarrow> length r \<le> length s"
  by (auto simp: read_integer_def dest: read_line_ok)

lemma read_len_ok: "read_len w limit s = Inr (n, r) \<Longrightarrow> n \<le> limit \<and> length r \<le> length s"
  by (auto simp: read_len_def split: if_splits dest: read_line_ok)

lemma read_exact_ok: "read_exact n s = Inr (b, r) \<Longrightarrow> length b = n \<and> length r \<le> length s"
  by (auto simp: read_exact_def split: if_splits)

lemma read_crlf_ok: "read_crlf w s = Inr r \<Longrightarrow> length r \<le> length s"
  by (auto simp: read_crlf_def split: if_splits dest: read_exact_ok)

lemma read_bulk_ok:
  assumes "read_bulk s = Inr (b, r)"
  shows "length b \<le> MAX_BULK_SIZE \<and> length r \<le> length s"
proof -
  obtain n r1 r2 where "read_len ''bulk'' MAX_BULK_SIZE s = Inr (n, r1)"
    "read_exact n r1 = Inr (b, r2)" "read_crlf ''bulk string'' r2 = Inr r"
    using assms by (auto simp: read_bulk_def)
  then show ?thesis using read_len_ok [of "''bulk''"] read_exact_ok read_crlf_ok [of "''bulk string''"] by fastforce
qed

lemmas read_piece_ok = read_line_ok read_integer_ok read_len_ok read_crlf_ok read_bulk_ok

lemma read_frames_ok:
  assumes el: "\<And>s f r. read_frame_depth d s = Inr (Some f, r) \<Longrightarrow> frame_ok d f \<and> length r < length s"
  shows "read_frames d w n s = Inr (fs, r) \<Longrightarrow>
    length r \<le> length s \<and> length fs = n \<and> (\<forall>f \<in> set fs. frame_ok d f)"
proof (induction n arbitrary: s fs)
  case (Suc n)
  then obtain f r1 gs where step: "read_frame_depth d s = Inr (Some f, r1)"
    "read_frames d w n r1 = Inr (gs, r)" "fs = f # gs"
    by (auto split: option.splits)
  with Suc.IH [OF step(2)] el [OF step(1)] show ?case by auto
qed auto

lemma read_pairs_ok:
  assumes el: "\<And>s f r. read_frame_depth d s = Inr (Some f, r) \<Longrightarrow> frame_ok d f \<and> length r < length s"
  shows "read_pairs d n s = Inr (ps, r) \<Longrightarrow>
    length r \<le> length s \<and> length ps = n \<and> (\<forall>(k, v) \<in> set ps. frame_ok d k \<and> frame_ok d v)"
proof (induction n arbitrary: s ps)
  case (Suc n)
  then obtain k r1 v r2 qs where step: "read_frame_depth d s = Inr (Some k, r1)"
    "read_frame_depth d r1 = Inr (Some v, r2)" "read_pairs d n r2 = Inr (qs, r)" "ps = (k, v) # qs"
    by (auto split: option.splits)
  with Suc.IH [OF step(3)] el [OF step(1)] el [OF step(2)] show ?case by auto
qed auto

lemma read_frame_depth_ok:
  "read_frame_depth d s = Inr (Some f, r) \<Longrightarrow> frame_ok d f \<and> length r < length s"
proof (induction "Suc MAX_DEPTH - d" arbitrary: d s f r)
  case 0
  then show ?case by (simp add: read_frame_depth.simps [of d s])
next
  case (Suc k)
  then have d: "d \<le> MAX_DEPTH" and k: "k = Suc MAX_DEPTH - Suc d" by simp_all
  have el: "frame_ok (Suc d) g \<and> length q < length t"
    if "read_frame_depth (Suc d) t = Inr (Some g, q)" for t g q
    using Suc.hyps(1) [OF k that] .
  have fr: "length q \<le> length t \<and> length fs = n \<and> (\<forall>g \<in> set fs. frame_ok (Suc d) g)"
    if "read_frames (Suc d) w n t = Inr (fs, q)" for w n t fs q
    by (rule read_frames_ok [OF _ that]) (rule el)
  have pr: "length q \<le> length t \<and> length ps = n \<and> (\<forall>(g, h) \<in> set ps. frame_ok (Suc d) g \<and> frame_ok (Suc d) h)"
    if "read_pairs (Suc d) n t = Inr (ps, q)" for n t ps q
    by (rule read_pairs_ok [OF _ that]) (rule el)
  obtain t s1 where s: "s = t # s1"
    using Suc.prems d by (cases s) (auto simp: read_frame_depth.simps)
  have "t \<in> set ''+-:$*%>_''"
    using Suc.prems d s by (auto simp: read_frame_depth.simps split: if_splits)
  then consider "t = CHR ''+''" | "t = CHR ''-''" | "t = CHR '':''" | "t = CHR ''$''" | "t = CHR ''_''"
    | "t = CHR ''*''" | "t = CHR ''>''" | "t = CHR ''%''" by auto
  then show ?case
  proof cases
    case 6
    then obtain n q fs where a: "read_len ''array'' MAX_COLLECTION_SIZE s1 = Inr (n, q)"
      "read_frames (Suc d) ''array'' n q = Inr (fs, r)" "f = Array fs"
      using Suc.prems s by (auto simp: wire_simps d)
    with read_len_ok [OF a(1)] fr [OF a(2)] s d show ?thesis by simp
  next
    case 7
    then obtain n q fs where a: "read_len ''push'' MAX_COLLECTION_SIZE s1 = Inr (n, q)"
      "read_frames (Suc d) ''push frame'' n q = Inr (fs, r)" "f = Push fs"
      using Suc.prems s by (auto simp: wire_simps d)
    with read_len_ok [OF a(1)] fr [OF a(2)] s d show ?thesis by simp
  next
    case 8
    then obtain n q ps where a: "read_len ''map'' MAX_COLLECTION_SIZE s1 = Inr (n, q)"
      "read_pairs (Suc d) n q = Inr (ps, r)" "f = Map ps"
      using Suc.prems s by (auto simp: wire_simps d)
    with read_len_ok [OF a(1)] pr [OF a(2)] s d show ?thesis by simp
  qed (use Suc.prems s d in \<open>auto simp: wire_simps less_Suc_eq_le dest: read_piece_ok\<close>)
qed

section \<open>Properties\<close>

text \<open>
  C5: a well-formed frame, however much input follows it, is read back exactly as it was written
  and the reader stops at its last byte.
\<close>

theorem read_frame_write_frame:
  assumes "frame_ok 0 f"
  shows "read_frame (write_frame f @ rest) = Inr (Some f, rest)"
  using assms by (rule server_wire.dec_enc)

theorem read_frame_write_frame_witness:
  "read_frame (write_frame (Map [(BulkString ''status'', Array [Integer 7, Null])]) @ ''+x'') =
     Inr (Some (Map [(BulkString ''status'', Array [Integer 7, Null])]), ''+x'')"
  by (rule read_frame_write_frame)
    (simp add: MAX_DEPTH_def MAX_COLLECTION_SIZE_def MAX_BULK_SIZE_def)

text \<open>
  Several frames written back to back (pipelined commands or a stream of pushes) are read
  back one by one, in order, without loss.
\<close>

lemma read_frame_stream:
  assumes "\<And>f. f \<in> set fs \<Longrightarrow> frame_ok 0 f"
  shows "read_n read_frame (length fs) (concat (map write_frame fs) @ rest) = Inr (map Some fs, rest)"
  using assms by (rule server_wire.stream_roundtrip)

text \<open>
  C11: whatever bytes a peer sends, a frame that the reader accepts respects every limit (line
  shape, bulk size, collection size, nesting depth), consumes input, and survives being written
  out and read again.
\<close>

theorem read_frame_sound:
  assumes "read_frame s = Inr (Some f, rest)"
  shows "frame_ok 0 f \<and> length rest < length s \<and>
    read_frame (write_frame f @ rest) = Inr (Some f, rest)"
proof -
  from assms have "frame_ok 0 f \<and> length rest < length s"
    unfolding read_frame_def by (rule read_frame_depth_ok)
  then show ?thesis by (simp add: server_wire.dec_enc)
qed

theorem read_frame_sound_witness:
  "frame_ok 0 (SimpleString ''OK'') \<and> length [] < length ''+OK'' \<and>
   read_frame (write_frame (SimpleString ''OK'') @ []) = Inr (Some (SimpleString ''OK''), [])"
proof -
  have "read_frame ''+OK'' = Inr (Some (SimpleString ''OK''), [])"
    by (simp add: read_frame_def read_frame_depth.simps MAX_DEPTH_def read_line_def pop_newline_def)
  from read_frame_sound [OF this] show ?thesis by simp
qed

end
