(* ===== verification/Command.thy ===== *)
theory Command
  imports Resp3
begin

text \<open>
  The protocol-level data of \<open>shroudb-protocol/src\<close>: commands with their ACL requirement, verb and
  read classification (\<open>command.rs\<close>), command errors with their wire text (\<open>error.rs\<close>), response
  values (\<open>response.rs\<close>) and their conversion to frames (\<open>resp3/serialize.rs\<close>).

  Values of third-party crates that the sources only pass around (JSON values, store metadata,
  meta schemas, validation errors) are values of the type parameter \<open>'x\<close>; the functions of those
  crates that the sources call are the fields of the record \<open>'x ext\<close>, an argument of every
  definition that uses one.
\<close>

section \<open>Types of the store crate that the sources name\<close>

text \<open>
  \<open>StoreError\<close>: the variants that the sources match on or construct; any other variant is
  \<open>SE_Other\<close>.
\<close>

datatype 'x store_error =
    SE_NotFound
  | SE_NamespaceNotFound string
  | SE_NamespaceExists string
  | SE_NamespaceNotEmpty string
  | SE_VersionConflict u64
  | SE_PrefixTooLarge u64 u64
  | SE_ValidationFailed 'x
  | SE_InvalidCursor string
  | SE_Storage string
  | SE_Connection string
  | SE_Other 'x

datatype scope = Read | Write

datatype acl_req =
    AclNone
  | AclAdmin
  | AclNamespace string scope "string option"

text \<open>Functions of third-party crates. A \<open>string +\<close> result carries the error's display text.\<close>

record 'x ext =
  json_from_str :: "string \<Rightarrow> string + 'x"
  json_to_string :: "'x \<Rightarrow> string"
  metadata_from_json :: "'x \<Rightarrow> string + 'x"
  metadata_to_json :: "'x \<Rightarrow> 'x"
  schema_from_json :: "'x \<Rightarrow> string + 'x"
  store_error_to_string :: "'x store_error \<Rightarrow> string"
  validation_debug :: "'x \<Rightarrow> string"
  verror_to_string :: "'x \<Rightarrow> string"
  f64_to_string :: "64 word \<Rightarrow> string"
  io_error_to_string :: "io_error \<Rightarrow> string"

text \<open>
  A concrete instance of the foreign functions, for evaluating the definitions: JSON values are
  their own text.
\<close>

definition text_ext :: "string ext" where
  "text_ext = \<lparr> json_from_str = Inr, json_to_string = id, metadata_from_json = Inr,
     metadata_to_json = id, schema_from_json = Inr, store_error_to_string = (\<lambda>_. ''store''),
     validation_debug = id, verror_to_string = id, f64_to_string = (\<lambda>_. ''0''),
     io_error_to_string = (\<lambda>_. ''io'') \<rparr>"

section \<open>Commands\<close>

datatype 'x command =
    Auth string
  | Ping
  | Put string bytes bytes "'x option" "u64 option"
  | Get string bytes "u64 option" bool
  | Delete string bytes
  | PutIf string bytes bytes "'x option" u64
  | DelIf string bytes u64
  | DelPrefix string bytes
  | List string "bytes option" "string option" "usize option"
  | Versions string bytes "usize option" "u64 option"
  | NamespaceCreate string "'x option" "u64 option" "u64 option"
  | NamespaceDrop string bool
  | NamespaceList "string option" "usize option"
  | NamespaceInfo string
  | NamespaceAlter string "'x option" "u64 option" "u64 option"
  | NamespaceValidate string
  | Pipeline "'x command list" "string option"
  | Subscribe string "bytes option" "string list"
  | Unsubscribe
  | Health
  | ConfigGet string
  | ConfigSet string string
  | CommandList
  | Rekey string
  | RekeyStatus

fun acl_requirement :: "'x command \<Rightarrow> acl_req" where
  "acl_requirement (Auth _) = AclNone"
| "acl_requirement Ping = AclNone"
| "acl_requirement Health = AclNone"
| "acl_requirement (ConfigGet _) = AclNone"
| "acl_requirement CommandList = AclNone"
| "acl_requirement RekeyStatus = AclNone"
| "acl_requirement (NamespaceCreate _ _ _ _) = AclAdmin"
| "acl_requirement (NamespaceDrop _ _) = AclAdmin"
| "acl_requirement (NamespaceAlter _ _ _ _) = AclAdmin"
| "acl_requirement (ConfigSet _ _) = AclAdmin"
| "acl_requirement (Rekey _) = AclAdmin"
| "acl_requirement (Get ns _ _ _) = AclNamespace ns Read None"
| "acl_requirement (List ns _ _ _) = AclNamespace ns Read None"
| "acl_requirement (Versions ns _ _ _) = AclNamespace ns Read None"
| "acl_requirement (NamespaceInfo ns) = AclNamespace ns Read None"
| "acl_requirement (NamespaceValidate ns) = AclNamespace ns Read None"
| "acl_requirement (Subscribe ns _ _) = AclNamespace ns Read None"
| "acl_requirement (Put ns _ _ _ _) = AclNamespace ns Write None"
| "acl_requirement (Delete ns _) = AclNamespace ns Write None"
| "acl_requirement (PutIf ns _ _ _ _) = AclNamespace ns Write None"
| "acl_requirement (DelIf ns _ _) = AclNamespace ns Write None"
| "acl_requirement (DelPrefix ns _) = AclNamespace ns Write None"
| "acl_requirement (NamespaceList _ _) = AclNone"
| "acl_requirement Unsubscribe = AclNone"
| "acl_requirement (Pipeline _ _) = AclNone"

fun verb :: "'x command \<Rightarrow> string" where
  "verb (Auth _) = ''AUTH''"
| "verb Ping = ''PING''"
| "verb (Put _ _ _ _ _) = ''PUT''"
| "verb (Get _ _ _ _) = ''GET''"
| "verb (Delete _ _) = ''DELETE''"
| "verb (PutIf _ _ _ _ _) = ''PUTIF''"
| "verb (DelIf _ _ _) = ''DELIF''"
| "verb (DelPrefix _ _) = ''DELPREFIX''"
| "verb (List _ _ _ _) = ''LIST''"
| "verb (Versions _ _ _ _) = ''VERSIONS''"
| "verb (NamespaceCreate _ _ _ _) = ''NAMESPACE CREATE''"
| "verb (NamespaceDrop _ _) = ''NAMESPACE DROP''"
| "verb (NamespaceList _ _) = ''NAMESPACE LIST''"
| "verb (NamespaceInfo _) = ''NAMESPACE INFO''"
| "verb (NamespaceAlter _ _ _ _) = ''NAMESPACE ALTER''"
| "verb (NamespaceValidate _) = ''NAMESPACE VALIDATE''"
| "verb (Pipeline _ _) = ''PIPELINE''"
| "verb (Subscribe _ _ _) = ''SUBSCRIBE''"
| "verb Unsubscribe = ''UNSUBSCRIBE''"
| "verb Health = ''HEALTH''"
| "verb (ConfigGet _) = ''CONFIG GET''"
| "verb (ConfigSet _ _) = ''CONFIG SET''"
| "verb CommandList = ''COMMAND LIST''"
| "verb (Rekey _) = ''REKEY''"
| "verb RekeyStatus = ''REKEY STATUS''"

fun is_read :: "'x command \<Rightarrow> bool" where
  "is_read (Get _ _ _ _) = True"
| "is_read (List _ _ _ _) = True"
| "is_read (Versions _ _ _ _) = True"
| "is_read (NamespaceList _ _) = True"
| "is_read (NamespaceInfo _) = True"
| "is_read (NamespaceValidate _) = True"
| "is_read Health = True"
| "is_read (ConfigGet _) = True"
| "is_read CommandList = True"
| "is_read RekeyStatus = True"
| "is_read Ping = True"
| "is_read _ = False"

section \<open>Command errors\<close>

datatype 'x command_error =
    NotFound
  | NamespaceNotFound string
  | NamespaceExists string
  | NamespaceNotEmpty string
  | VersionNotFound u64
  | ValidationFailed string
  | Denied string
  | NotAuthenticated
  | NotReady string
  | BadArg string
  | PipelineAborted usize string
  | VersionConflict u64
  | PrefixTooLarge u64 u64
  | Store "'x store_error"
  | Internal string

fun command_error_to_string :: "'x ext \<Rightarrow> 'x command_error \<Rightarrow> string" where
  "command_error_to_string X NotFound = ''not found''"
| "command_error_to_string X (NamespaceNotFound s) = ''namespace not found: '' @ s"
| "command_error_to_string X (NamespaceExists s) = ''namespace already exists: '' @ s"
| "command_error_to_string X (NamespaceNotEmpty s) = ''namespace not empty: '' @ s"
| "command_error_to_string X (VersionNotFound v) = ''version not found: '' @ u64_to_string v"
| "command_error_to_string X (ValidationFailed s) = ''validation failed: '' @ s"
| "command_error_to_string X (Denied reason) = ''permission denied: '' @ reason"
| "command_error_to_string X NotAuthenticated = ''not authenticated''"
| "command_error_to_string X (NotReady s) = ''not ready: server is in '' @ s @ '' state''"
| "command_error_to_string X (BadArg message) = ''bad argument: '' @ message"
| "command_error_to_string X (PipelineAborted index reason) =
     ''pipeline aborted: command '' @ u64_to_string index @ '' failed: '' @ reason"
| "command_error_to_string X (VersionConflict current) =
     ''VERSIONCONFLICT current='' @ u64_to_string current"
| "command_error_to_string X (PrefixTooLarge matched limit) =
     ''PREFIXTOOLARGE matched='' @ u64_to_string matched @ '' limit='' @ u64_to_string limit"
| "command_error_to_string X (Store e) = ''store error: '' @ store_error_to_string X e"
| "command_error_to_string X (Internal s) = ''internal error: '' @ s"

section \<open>Responses\<close>

text \<open>\<open>ResponseMap\<close> is its list of fields, in insertion order; \<open>Float\<close> holds the bits of the f64.\<close>

datatype 'x response_value =
    RvString string
  | RvInteger i64
  | RvFloat "64 word"
  | RvBoolean bool
  | RvBytes bytes
  | RvNull
  | RvMap "(string \<times> 'x response_value) list"
  | RvArray "'x response_value list"
  | RvJson 'x

type_synonym 'x response_map = "(string \<times> 'x response_value) list"

definition rm_ok :: "'x response_map" where
  "rm_ok = [(''status'', RvString ''OK'')]"

definition rm_with :: "'x response_map \<Rightarrow> string \<Rightarrow> 'x response_value \<Rightarrow> 'x response_map" where
  "rm_with m k v = m @ [(k, v)]"

datatype 'x command_response =
    Success "'x response_map"
  | Error "'x command_error"
  | ArrayResponse "'x command_response list"
  | CachedFrame resp3_frame

fun response_value_to_frame :: "'x ext \<Rightarrow> 'x response_value \<Rightarrow> resp3_frame" where
  "response_value_to_frame X (RvString s) = BulkString s"
| "response_value_to_frame X (RvInteger n) = Integer n"
| "response_value_to_frame X (RvFloat f) = BulkString (f64_to_string X f)"
| "response_value_to_frame X (RvBoolean b) = BulkString (if b then ''true'' else ''false'')"
| "response_value_to_frame X (RvBytes data) = BulkString data"
| "response_value_to_frame X RvNull = Null"
| "response_value_to_frame X (RvMap m) =
     Map (map (\<lambda>(k, v). (BulkString k, response_value_to_frame X v)) m)"
| "response_value_to_frame X (RvArray items) = Array (map (response_value_to_frame X) items)"
| "response_value_to_frame X (RvJson val) = BulkString (json_to_string X val)"

definition response_map_to_frame :: "'x ext \<Rightarrow> 'x response_map \<Rightarrow> resp3_frame" where
  "response_map_to_frame X m = Map (map (\<lambda>(k, v). (BulkString k, response_value_to_frame X v)) m)"

fun response_to_frame :: "'x ext \<Rightarrow> 'x command_response \<Rightarrow> resp3_frame" where
  "response_to_frame X (Success m) = response_map_to_frame X m"
| "response_to_frame X (Error err) = SimpleError (command_error_to_string X err)"
| "response_to_frame X (ArrayResponse items) = Array (map (response_to_frame X) items)"
| "response_to_frame X (CachedFrame frame) = frame"

end
