(* ===== verification/Config.thy ===== *)
theory Config
  imports F64 Command
begin

text \<open>
  The server configuration, \<open>shroudb-server/src/config.rs\<close>: the parsed file with its defaults, the
  expansion of environment variables, and what the server derives from it (storage engine settings,
  token validator, whether authentication is required). The TOML parser and the types of the
  access-control crate are outside the repository: the parser is an argument of \<open>load_config\<close>, the
  token validator is a record of operations. Addresses and paths are text; of the TLS settings, a type
  of another crate, only the client certificate authority is looked at.
\<close>

section \<open>Configuration records\<close>

record webhook_config =
  wc_url :: string
  wc_secret :: string
  wc_events :: "string list"
  wc_namespaces :: "string list"
  wc_max_retries :: u32
  wc_timeout_ms :: u64

definition default_max_retries :: u32 where "default_max_retries = 5"
definition default_webhook_timeout_ms :: u64 where "default_webhook_timeout_ms = 5000"
definition default_bind :: string where "default_bind = ''0.0.0.0:6399''"
definition default_mode :: string where "default_mode = ''embedded''"
definition default_data_dir :: string where "default_data_dir = ''./data''"

record tls_config =
  tls_client_ca :: "string option"
  tls_rest :: string

record server_config =
  sc_bind :: string
  sc_tls :: "tls_config option"
  sc_unix_socket :: "string option"
  sc_rate_limit_per_second :: "u32 option"
  sc_metrics_bind :: "string option"
  sc_otel_endpoint :: "string option"

definition server_config_default :: server_config where
  "server_config_default = \<lparr>sc_bind = default_bind, sc_tls = None, sc_unix_socket = None,
     sc_rate_limit_per_second = None, sc_metrics_bind = None, sc_otel_endpoint = None\<rparr>"

record cache_config =
  cc_memory_budget :: "string option"

record storage_config =
  so_mode :: string
  so_uri :: "string option"
  so_data_dir :: string
  so_namespace :: "string option"
  so_fsync_mode :: "string option"
  so_fsync_interval_ms :: "u64 option"
  so_max_segment_bytes :: "u64 option"
  so_max_segment_entries :: "u64 option"
  so_snapshot_interval_entries :: "u64 option"
  so_snapshot_interval_minutes :: "u64 option"
  so_cache :: "cache_config option"

definition storage_config_default :: storage_config where
  "storage_config_default = \<lparr>so_mode = default_mode, so_uri = None, so_data_dir = default_data_dir,
     so_namespace = None, so_fsync_mode = None, so_fsync_interval_ms = None, so_max_segment_bytes = None,
     so_max_segment_entries = None, so_snapshot_interval_entries = None, so_snapshot_interval_minutes = None,
     so_cache = None\<rparr>"

text \<open>The fields of the access-control crate's configuration that the source reads; tokens by their text.\<close>

record grant_config =
  gc_namespace :: string
  gc_scopes :: "string list"

record token_config =
  tc_tenant :: string
  tc_actor :: string
  tc_platform :: bool
  tc_grants :: "grant_config list"

record auth_config =
  ac_method :: "string option"
  ac_tokens :: "(string \<times> token_config) list"

record shroudb_config =
  cf_server :: server_config
  cf_storage :: storage_config
  cf_auth :: "auth_config option"
  cf_webhooks :: "webhook_config list"

definition shroudb_config_default :: shroudb_config where
  "shroudb_config_default = \<lparr>cf_server = server_config_default, cf_storage = storage_config_default,
     cf_auth = None, cf_webhooks = []\<rparr>"

section \<open>Environment variables\<close>

text \<open>
  One iteration of the loop of \<open>expand_env_vars\<close>; \<open>env\<close> gives the value of a variable, empty when it
  is not set. The loop itself may not end.
\<close>

definition expand_step :: "(string \<Rightarrow> string) \<Rightarrow> string \<Rightarrow> string option" where
  "expand_step env s = (case split_at_str ''${'' s of
     None \<Rightarrow> None
   | Some (before, rest) \<Rightarrow> (case split_once CHR ''}'' rest of
       None \<Rightarrow> None
     | Some (var_name, after) \<Rightarrow> Some (before @ env var_name @ after)))"

partial_function (option) expand_env_vars :: "(string \<Rightarrow> string) \<Rightarrow> string \<Rightarrow> string option" where
  "expand_env_vars env s = (case expand_step env s of
     None \<Rightarrow> Some s
   | Some s' \<Rightarrow> expand_env_vars env s')"

text \<open>\<open>load_config\<close> on the text of the file; \<open>None\<close> when the expansion does not end.\<close>

definition load_config :: "(string \<Rightarrow> string + shroudb_config) \<Rightarrow> (string \<Rightarrow> string) \<Rightarrow> string + string \<Rightarrow>
    (string + shroudb_config) option" where
  "load_config from_toml env file = (case file of
     Inl e \<Rightarrow> Some (Inl e)
   | Inr raw \<Rightarrow> map_option from_toml (expand_env_vars env raw))"

section \<open>Engine settings\<close>

datatype fsync_mode = PerWrite | Batched u64 | Periodic u64 | DefaultFsync

definition to_fsync_mode :: "storage_config \<Rightarrow> fsync_mode" where
  "to_fsync_mode storage = (case so_fsync_mode storage of
     None \<Rightarrow> DefaultFsync
   | Some m \<Rightarrow>
       if m = ''per_write'' then PerWrite
       else if m = ''batched'' then Batched (case so_fsync_interval_ms storage of Some i \<Rightarrow> i | None \<Rightarrow> 10)
       else if m = ''periodic'' then Periodic (case so_fsync_interval_ms storage of Some i \<Rightarrow> i | None \<Rightarrow> 1000)
       else DefaultFsync)"

text \<open>The memory budget of the cache: \<open>parse_memory_budget\<close> with its three errors, \<open>to_cache_budget\<close>.\<close>

datatype cache_memory_budget = Unlimited | AutoBudget | Fractional f64 | Explicit usize

datatype budget_error = InvalidPercentage string | PercentageRange f64 | InvalidBudget string

definition budget_unit :: "string \<Rightarrow> string \<times> nat" where
  "budget_unit input = (case strip_suffix ''gb'' input of
     Some n \<Rightarrow> (n, 1024 * 1024 * 1024)
   | None \<Rightarrow> (case strip_suffix ''mb'' input of
       Some n \<Rightarrow> (n, 1024 * 1024)
     | None \<Rightarrow> (case strip_suffix ''kb'' input of Some n \<Rightarrow> (n, 1024) | None \<Rightarrow> (input, 1))))"

definition parse_memory_budget :: "string \<Rightarrow> budget_error + cache_memory_budget" where
  "parse_memory_budget raw =
     (let input = to_lowercase (trim raw) in
      if input = ''auto'' then Inr AutoBudget
      else case strip_suffix ''%'' input of
        Some pct \<Rightarrow> try_res (ok_or (parse_f64 (trim pct)) (InvalidPercentage input)) (\<lambda>frac.
          if \<not> f64_in_range 0 100 frac then Inl (PercentageRange frac)
          else Inr (Fractional (f64_div_fin frac 100)))
      | None \<Rightarrow> (case budget_unit input of (num_str, multiplier) \<Rightarrow>
          try_res (ok_or (parse_f64 (trim num_str)) (InvalidBudget input)) (\<lambda>num.
            Inr (Explicit (f64_as_usize (f64_mul num (F_fin (of_nat multiplier))))))))"

definition to_cache_budget :: "storage_config \<Rightarrow> cache_memory_budget" where
  "to_cache_budget storage = (case so_cache storage of
     None \<Rightarrow> Unlimited
   | Some cache \<Rightarrow> (case cc_memory_budget cache of
       None \<Rightarrow> AutoBudget
     | Some budget_str \<Rightarrow> (case parse_memory_budget budget_str of
         Inr budget \<Rightarrow> budget
       | Inl e \<Rightarrow> Unlimited)))"

record engine_config =
  ec_data_dir :: string
  ec_namespace :: string
  ec_fsync_mode :: fsync_mode
  ec_max_segment_bytes :: u64
  ec_max_segment_entries :: u64
  ec_snapshot_entry_threshold :: u64
  ec_snapshot_time_threshold_secs :: u64
  ec_cache_memory_budget :: cache_memory_budget

text \<open>\<open>to_engine_config\<close>; the multiplication wraps, as in a build without overflow checks.\<close>

definition to_engine_config :: "shroudb_config \<Rightarrow> engine_config" where
  "to_engine_config config = (let st = cf_storage config in
     \<lparr>ec_data_dir = so_data_dir st,
      ec_namespace = (case so_namespace st of Some n \<Rightarrow> n | None \<Rightarrow> ''default''),
      ec_fsync_mode = to_fsync_mode st,
      ec_max_segment_bytes = (case so_max_segment_bytes st of Some n \<Rightarrow> n | None \<Rightarrow> 64 * 1024 * 1024),
      ec_max_segment_entries = (case so_max_segment_entries st of Some n \<Rightarrow> n | None \<Rightarrow> 100000),
      ec_snapshot_entry_threshold = (case so_snapshot_interval_entries st of Some n \<Rightarrow> n | None \<Rightarrow> 100000),
      ec_snapshot_time_threshold_secs = (case so_snapshot_interval_minutes st of Some m \<Rightarrow> m * 60 | None \<Rightarrow> 3600),
      ec_cache_memory_budget = to_cache_budget st\<rparr>)"

section \<open>Tokens\<close>

record token_grant =
  tg_namespace :: string
  tg_scopes :: "scope list"

record token =
  tk_tenant :: string
  tk_actor :: string
  tk_is_platform :: bool
  tk_grants :: "token_grant list"
  tk_expires_at :: "u64 option"

record 'v validator_ops =
  vo_new :: 'v
  vo_register :: "string \<Rightarrow> token \<Rightarrow> 'v \<Rightarrow> 'v"
  vo_validate :: "'v \<Rightarrow> string \<Rightarrow> string + token"
  vo_len :: "'v \<Rightarrow> nat"

text \<open>
  The scope names. \<open>to_lowercase\<close> maps one character outside ASCII to an ASCII letter (the Kelvin
  sign), which occurs in neither name.
\<close>

definition parse_scope :: "string \<Rightarrow> scope option" where
  "parse_scope s =
     (let lower = to_ascii_lowercase s in
      if lower = ''read'' then Some Read else if lower = ''write'' then Some Write else None)"

definition token_of_config :: "token_config \<Rightarrow> token" where
  "token_of_config tc =
     \<lparr>tk_tenant = tc_tenant tc, tk_actor = tc_actor tc, tk_is_platform = tc_platform tc,
      tk_grants = map (\<lambda>g. \<lparr>tg_namespace = gc_namespace g, tg_scopes = List.map_filter parse_scope (gc_scopes g)\<rparr>) (tc_grants tc),
      tk_expires_at = None\<rparr>"

definition build_token_validator :: "'v validator_ops \<Rightarrow> shroudb_config \<Rightarrow> 'v" where
  "build_token_validator V config = (case cf_auth config of
     None \<Rightarrow> vo_new V
   | Some auth \<Rightarrow> fold (\<lambda>(raw_token, tc). vo_register V raw_token (token_of_config tc)) (ac_tokens auth) (vo_new V))"

definition auth_required :: "shroudb_config \<Rightarrow> bool" where
  "auth_required config = (case cf_auth config of
     None \<Rightarrow> False
   | Some auth \<Rightarrow> ac_method auth = Some ''token'' \<and> ac_tokens auth \<noteq> [])"

section \<open>The memory budget\<close>

text \<open>The units, with the power of two that each stands for.\<close>

definition budget_units :: "(string \<times> nat) list" where
  "budget_units = [([], 0), (''kb'', 10), (''mb'', 20), (''gb'', 30)]"

lemma not_digit_suffix:
  assumes "\<And>c. c \<in> set p \<Longrightarrow> \<not> is_digit c" and "p \<noteq> []"
  shows "strip_suffix p (dec_of_nat n) = None"
proof (rule ccontr)
  assume "strip_suffix p (dec_of_nat n) \<noteq> None"
  then obtain r where "dec_of_nat n = r @ p" by (auto simp: strip_suffix_eq_Some)
  then have "last p \<in> set (dec_of_nat n)" using assms(2) by simp
  then show False using is_digit_dec_of_nat assms by (metis last_in_set)
qed

lemma strip_suffix_other: "length p = length q \<Longrightarrow> p \<noteq> q \<Longrightarrow> strip_suffix p (s @ q) = None"
  by (rule ccontr) (auto simp: strip_suffix_eq_Some)

lemma budget_unit_dec:
  assumes "(u, k) \<in> set budget_units"
  shows "budget_unit (dec_of_nat n @ u) = (dec_of_nat n, 2 ^ k)"
proof -
  have none: "strip_suffix ''gb'' (dec_of_nat n) = None" "strip_suffix ''mb'' (dec_of_nat n) = None"
      "strip_suffix ''kb'' (dec_of_nat n) = None"
    by (rule not_digit_suffix; auto simp: is_digit_def)+
  consider "u = [] \<and> k = 0" | "u = ''kb'' \<and> k = 10" | "u = ''mb'' \<and> k = 20" | "u = ''gb'' \<and> k = 30"
    using assms by (auto simp: budget_units_def)
  then show ?thesis
    by cases (simp_all add: budget_unit_def none strip_suffix_other)
qed

lemma lower_dec_of_nat [simp]: "to_ascii_lowercase (dec_of_nat n) = dec_of_nat n"
proof -
  have "to_ascii_lower_char c = c" if "c \<in> set (dec_of_nat n)" for c
    using dec_of_nat_range [OF that] by (simp add: to_ascii_lower_char_def)
  then show ?thesis by (simp add: to_ascii_lowercase_def map_idI)
qed

lemma unit_chars:
  assumes "(to_ascii_lowercase u, k) \<in> set budget_units" and "c \<in> set u"
  shows "65 \<le> byte c \<and> byte c < 128"
proof -
  have "to_ascii_lower_char c \<in> set (to_ascii_lowercase u)" using assms(2) by (simp add: to_ascii_lowercase_def)
  then have "to_ascii_lower_char c \<in> set ''kmgb''" using assms(1) by (auto simp: budget_units_def)
  then show ?thesis by (auto simp: to_ascii_lower_char_def split: if_splits)
qed

lemma budget_input:
  assumes "(to_ascii_lowercase u, k) \<in> set budget_units"
  shows "to_lowercase (trim (dec_of_nat n @ u)) = dec_of_nat n @ to_ascii_lowercase u"
proof -
  have chars: "33 \<le> byte c \<and> byte c < 128" if "c \<in> set (dec_of_nat n @ u)" for c
    using that dec_of_nat_range [of c n] unit_chars [OF assms, of c] by auto
  have "hd (dec_of_nat n @ u) \<in> set (dec_of_nat n @ u)" "last (dec_of_nat n @ u) \<in> set (dec_of_nat n @ u)"
    by (rule hd_in_set, simp) (rule last_in_set, simp)
  from chars [OF this(1)] chars [OF this(2)]
  have "trim (dec_of_nat n @ u) = dec_of_nat n @ u" by (intro trim_id) auto
  moreover have "to_lowercase (dec_of_nat n @ u) = to_ascii_lowercase (dec_of_nat n @ u)"
    using chars by (intro to_lowercase_ascii) blast
  ultimately show ?thesis using lower_dec_of_nat [of n] by (simp add: to_ascii_lowercase_def)
qed

lemma budget_not_keyword:
  assumes "(u, k) \<in> set budget_units"
  shows "dec_of_nat n @ u \<noteq> ''auto''" "strip_suffix ''%'' (dec_of_nat n @ u) = None"
proof -
  show "dec_of_nat n @ u \<noteq> ''auto''"
    using dec_of_nat_hd [of n] by (cases "dec_of_nat n") auto
  show "strip_suffix ''%'' (dec_of_nat n @ u) = None"
  proof (rule ccontr)
    assume "strip_suffix ''%'' (dec_of_nat n @ u) \<noteq> None"
    then obtain r where r: "dec_of_nat n @ u = r @ ''%''" by (auto simp: strip_suffix_eq_Some)
    then have "CHR ''%'' \<in> set (dec_of_nat n) \<union> set u" by (metis list.set_intros(1) set_append UnCI)
    then show False using assms dec_of_nat_range [of "CHR ''%''" n] by (auto simp: budget_units_def)
  qed
qed

lemma trim_dec_of_nat [simp]: "trim (dec_of_nat n) = dec_of_nat n"
  using dec_of_nat_range [of "hd (dec_of_nat n)" n] dec_of_nat_range [of "last (dec_of_nat n)" n]
  by (intro trim_id) auto

lemma parse_budget_number:
  assumes "n < 2 ^ 53" and "(to_ascii_lowercase u, k) \<in> set budget_units"
  shows "parse_memory_budget (dec_of_nat n @ u) = Inr (Explicit (of_nat (min (n * 2 ^ k) (2 ^ 64 - 1))))"
proof -
  have "k \<le> 900" using assms(2) by (auto simp: budget_units_def)
  then have "f64_mul (F_fin (of_nat n)) (F_fin (of_nat (2 ^ k))) = F_fin (of_nat (n * 2 ^ k))"
    using f64_mul_nat [OF assms(1), of k] by simp
  then show ?thesis
    using budget_not_keyword [OF assms(2), of n] budget_unit_dec [OF assms(2), of n]
    by (simp add: parse_memory_budget_def budget_input [OF assms(2)] parse_f64_nat [OF assms(1)] ok_or_def f64_as_usize_nat
        del: of_nat_mult of_nat_power)
qed

text \<open>The text \<open>nan\<close> is accepted as a budget of no bytes.\<close>

lemma nan_budget: "parse_memory_budget ''nan'' = Inr (Explicit 0)"
  by code_simp

section \<open>Lemmas\<close>

text \<open>Expansion in a single pass, from left to right, values not looked at again.\<close>

function expand_once :: "(string \<Rightarrow> string) \<Rightarrow> string \<Rightarrow> string" where
  "expand_once env s = (case split_at_str ''${'' s of
     None \<Rightarrow> s
   | Some (before, rest) \<Rightarrow> (case split_once CHR ''}'' rest of
       None \<Rightarrow> s
     | Some (var_name, after) \<Rightarrow> before @ env var_name @ expand_once env after))"
  by pat_completeness auto
termination
  by (relation "measure (length \<circ> snd)") (auto dest!: split_at_str_Some split_once_Some)

declare expand_once.simps [simp del]

lemma split_at_str_append:
  assumes "split_at_str ''${'' a = None" and "a = [] \<or> last a \<noteq> CHR ''$''"
  shows "split_at_str ''${'' (a @ s) = map_option (\<lambda>(x, y). (a @ x, y)) (split_at_str ''${'' s)"
  using assms
proof (induction a)
  case (Cons c a)
  have np: "\<not> prefix ''${'' ((c # a) @ s)"
  proof (cases a)
    case Nil
    then show ?thesis using Cons.prems by simp
  next
    case (Cons d b)
    then show ?thesis using Cons.prems by (auto split: if_splits)
  qed
  have "split_at_str ''${'' (a @ s) = map_option (\<lambda>(x, y). (a @ x, y)) (split_at_str ''${'' s)"
    using Cons.prems by (intro Cons.IH) (auto split: if_splits)
  moreover have "split_at_str ''${'' ((c # a) @ s) = map_option (\<lambda>(x, y). (c # x, y)) (split_at_str ''${'' (a @ s))"
    using np by (simp only: append_Cons split_at_str.simps if_False)
  ultimately show ?case by (simp add: option.map_comp comp_def case_prod_beta)
qed (simp add: option.map_id)

lemma split_at_str_no_dollar: "CHR ''$'' \<notin> set s \<Longrightarrow> split_at_str ''${'' s = None"
  by (induction s) auto

lemma split_at_str_before:
  assumes "split_at_str ''${'' s = Some (a, b)"
  shows "split_at_str ''${'' a = None"
  using assms
proof (induction s arbitrary: a)
  case (Cons c s)
  show ?case
  proof (cases "prefix ''${'' (c # s)")
    case True
    then show ?thesis using Cons.prems by simp
  next
    case False
    then obtain a' where a': "a = c # a'" "split_at_str ''${'' s = Some (a', b)" using Cons.prems by auto
    have "\<not> prefix ''${'' (c # a')"
    proof
      assume "prefix ''${'' (c # a')"
      moreover have "s = a' @ ''${'' @ b" using a'(2) by (rule split_at_str_Some)
      ultimately have "prefix ''${'' (c # s)" by (auto simp: prefix_def)
      with False show False by simp
    qed
    then show ?thesis using a' Cons.IH by simp
  qed
qed simp

lemma expand_step_dollars:
  assumes "\<And>v. CHR ''$'' \<notin> set (env v)" and "expand_step env s = Some s'"
  shows "length (filter (\<lambda>c. c = CHR ''$'') s') < length (filter (\<lambda>c. c = CHR ''$'') s)"
proof -
  obtain a r v b where "split_at_str ''${'' s = Some (a, r)" "split_once CHR ''}'' r = Some (v, b)" and s': "s' = a @ env v @ b"
    using assms(2) by (auto simp: expand_step_def split: option.splits)
  then have s: "s = a @ ''${'' @ v @ CHR ''}'' # b" using split_at_str_Some split_once_Some by blast
  have "filter (\<lambda>c. c = CHR ''$'') (env v) = []" using assms(1) [of v] by (auto simp: filter_empty_conv)
  then show ?thesis by (simp add: s s')
qed

lemma expand_ends:
  assumes "\<And>v. CHR ''$'' \<notin> set (env v)"
  shows "\<exists>r. expand_env_vars env s = Some r"
proof (induction "length (filter (\<lambda>c. c = CHR ''$'') s)" arbitrary: s rule: less_induct)
  case less
  show ?case
  proof (cases "expand_step env s")
    case None
    then show ?thesis by (simp add: expand_env_vars.simps)
  next
    case (Some s')
    then show ?thesis using less [OF expand_step_dollars [OF assms Some]] by (simp add: expand_env_vars.simps [of env s])
  qed
qed

text \<open>
  In the middle of the expansion the text is \<open>d @ s\<close>: \<open>d\<close> is done and \<open>s\<close> is still as it was in the
  input.
\<close>

lemma expand_middle:
  assumes "\<And>v. CHR ''$'' \<notin> set (env v)" and "\<not> str_contains s ''$${''"
    and "split_at_str ''${'' d = None" and "d = [] \<or> last d \<noteq> CHR ''$''"
  shows "expand_env_vars env (d @ s) = Some (d @ expand_once env s)"
  using assms(2-4)
proof (induction "length s" arbitrary: s d rule: less_induct)
  case less
  note sp = split_at_str_append [OF less.prems(2,3), of s]
  show ?case
  proof (cases "split_at_str ''${'' s")
    case None
    then show ?thesis using sp
      by (simp add: expand_env_vars.simps [of env "d @ s"] expand_step_def expand_once.simps [of env s])
  next
    case (Some ar)
    obtain a r where a: "split_at_str ''${'' s = Some (a, r)" using Some by (cases ar) simp
    show ?thesis
    proof (cases "split_once CHR ''}'' r")
      case None
      then show ?thesis using sp a
        by (simp add: expand_env_vars.simps [of env "d @ s"] expand_step_def expand_once.simps [of env s])
    next
      case (Some vb)
      obtain v b where v: "split_once CHR ''}'' r = Some (v, b)" using Some by (cases vb) simp
      have s: "s = a @ ''${'' @ v @ CHR ''}'' # b" using split_at_str_Some [OF a] split_once_Some [OF v] by simp
      have la: "a = [] \<or> last a \<noteq> CHR ''$''"
      proof (rule ccontr)
        assume "\<not> (a = [] \<or> last a \<noteq> CHR ''$'')"
        then obtain a' where "a = a' @ ''$''" by (metis append_butlast_last_id)
        then have "s = a' @ ''$${'' @ v @ CHR ''}'' # b" using s by simp
        then show False using less.prems(1) unfolding str_contains_iff by blast
      qed
      have nb: "\<not> str_contains b ''$${''"
      proof
        assume "str_contains b ''$${''"
        then obtain x y where "b = x @ ''$${'' @ y" by (auto simp: str_contains_iff)
        then have "s = (a @ ''${'' @ v @ ''}'' @ x) @ ''$${'' @ y" using s by simp
        then show False using less.prems(1) unfolding str_contains_iff by blast
      qed
      have da: "split_at_str ''${'' (d @ a) = None"
        using split_at_str_append [OF less.prems(2,3), of a] split_at_str_before [OF a] by simp
      have lda: "d @ a = [] \<or> last (d @ a) \<noteq> CHR ''$''" using la less.prems(3) by (cases "a = []") auto
      have e: "split_at_str ''${'' (env v) = None" using assms(1) by (rule split_at_str_no_dollar)
      have "split_at_str ''${'' ((d @ a) @ env v) = None" using split_at_str_append [OF da lda, of "env v"] e by simp
      moreover have "(d @ a) @ env v = [] \<or> last ((d @ a) @ env v) \<noteq> CHR ''$''"
        using lda assms(1) [of v] by (cases "env v = []") (auto dest!: last_in_set [of "env v"])
      ultimately have "expand_env_vars env (((d @ a) @ env v) @ b) = Some (((d @ a) @ env v) @ expand_once env b)"
        using s nb by (intro less.hyps) simp_all
      then show ?thesis using sp a v
        by (simp add: expand_env_vars.simps [of env "d @ s"] expand_step_def expand_once.simps [of env s])
    qed
  qed
qed

lemma expand_self:
  assumes "CHR ''}'' \<notin> set x" and "env x = ''${'' @ x @ ''}''"
  shows "expand_step env (''${'' @ x @ ''}'') = Some (''${'' @ x @ ''}'')"
  using split_once_append [OF assms(1), of "[]"] assms(2) by (simp add: expand_step_def)

text \<open>The documented behaviour of the token validator: a map from token texts to tokens.\<close>

definition validator_laws :: "'v validator_ops \<Rightarrow> bool" where
  "validator_laws V \<longleftrightarrow>
     (\<forall>raw. \<not> is_ok (vo_validate V (vo_new V) raw)) \<and>
     (\<forall>raw t v. vo_validate V (vo_register V raw t v) raw = Inr t) \<and>
     (\<forall>raw raw' t v. raw' \<noteq> raw \<longrightarrow> vo_validate V (vo_register V raw t v) raw' = vo_validate V v raw')"

definition configured_tokens :: "shroudb_config \<Rightarrow> (string \<times> token_config) list" where
  "configured_tokens config = (case cf_auth config of None \<Rightarrow> [] | Some auth \<Rightarrow> ac_tokens auth)"

lemma validate_fold:
  assumes "validator_laws V" and "distinct (map fst toks)"
  shows "vo_validate V (fold (\<lambda>(r, tc). vo_register V r (token_of_config tc)) toks v) raw =
    (case map_of toks raw of Some tc \<Rightarrow> Inr (token_of_config tc) | None \<Rightarrow> vo_validate V v raw)"
  using assms(2)
proof (induction toks arbitrary: v)
  case (Cons rt toks)
  obtain r tc where rt: "rt = (r, tc)" by (cases rt)
  have l: "vo_validate V (vo_register V r t w) raw = (if raw = r then Inr t else vo_validate V w raw)" for t w
    using assms(1) by (simp add: validator_laws_def)
  have "raw = r \<Longrightarrow> map_of toks raw = None" using Cons.prems rt by (simp add: map_of_eq_None_iff)
  then show ?case using Cons rt l by (auto split: option.split)
qed simp

lemma validate_built:
  assumes "validator_laws V" and "distinct (map fst (configured_tokens config))"
  shows "vo_validate V (build_token_validator V config) raw = Inr t \<longleftrightarrow>
    (\<exists>tc. (raw, tc) \<in> set (configured_tokens config) \<and> t = token_of_config tc)"
proof -
  have "build_token_validator V config =
      fold (\<lambda>(r, tc). vo_register V r (token_of_config tc)) (configured_tokens config) (vo_new V)"
    by (simp add: build_token_validator_def configured_tokens_def split: option.split)
  then have "vo_validate V (build_token_validator V config) raw =
      (case map_of (configured_tokens config) raw of Some tc \<Rightarrow> Inr (token_of_config tc) | None \<Rightarrow> vo_validate V (vo_new V) raw)"
    using validate_fold [OF assms] by simp
  moreover have "vo_validate V (vo_new V) raw \<noteq> Inr t"
    using assms(1) is_ok_simps(2) [of t] unfolding validator_laws_def by metis
  moreover have "(raw, tc) \<in> set (configured_tokens config) \<longleftrightarrow> map_of (configured_tokens config) raw = Some tc" for tc
    using map_of_eq_Some_iff [OF assms(2)] by simp
  ultimately show ?thesis by (cases "map_of (configured_tokens config) raw") auto
qed

section \<open>Properties\<close>

text \<open>
  C29: expanding the environment variables of a configuration file ends whenever no variable's value
  contains a dollar sign. The repeated rescanning then agrees with a single pass from left to right, if
  the file has no dollar sign directly before a variable.
\<close>

theorem expand_env_vars_single_pass:
  assumes "\<And>v. CHR ''$'' \<notin> set (env v)"
  shows "(\<exists>r. expand_env_vars env s = Some r) \<and>
    (\<not> str_contains s ''$${'' \<longrightarrow> expand_env_vars env s = Some (expand_once env s))"
  using expand_ends [OF assms] expand_middle [OF assms, of s "[]"] by simp

theorem expand_env_vars_single_pass_witness:
  "expand_env_vars (\<lambda>v. if v = ''B'' then ''x'' else []) ''a${B}${C}'' =
     Some (expand_once (\<lambda>v. if v = ''B'' then ''x'' else []) ''a${B}${C}'')"
  using expand_env_vars_single_pass [of "\<lambda>v. if v = ''B'' then ''x'' else []" "''a${B}${C}''"]
  by simp

text \<open>
  The expansion does not end when a variable's value is a reference to that variable: the loop
  replaces the reference by itself forever, so loading the configuration hangs.
\<close>

lemma expand_env_vars_diverges:
  assumes "CHR ''}'' \<notin> set x" and "env x = ''${'' @ x @ ''}''"
  shows "expand_env_vars env (''${'' @ x @ ''}'') = None"
proof (rule ccontr)
  assume "expand_env_vars env (''${'' @ x @ ''}'') \<noteq> None"
  then obtain y where "expand_env_vars env (''${'' @ x @ ''}'') = Some y" by blast
  then have "\<not> (env = env \<and> ''${'' @ x @ ''}'' = ''${'' @ x @ ''}'')"
  proof (rule expand_env_vars.raw_induct [where P = "\<lambda>e s y. \<not> (e = env \<and> s = ''${'' @ x @ ''}'')", rotated])
    fix f e s y
    assume IH: "\<And>e s y. f e s = Some y \<Longrightarrow> \<not> (e = env \<and> s = ''${'' @ x @ ''}'')"
      and body: "(case expand_step e s of None \<Rightarrow> Some s | Some s' \<Rightarrow> f e s') = Some y"
    show "\<not> (e = env \<and> s = ''${'' @ x @ ''}'')"
    proof
      assume es: "e = env \<and> s = ''${'' @ x @ ''}''"
      then have "f env (''${'' @ x @ ''}'') = Some y" using body by (simp only: expand_self [of x env, OF assms] option.case)
      from IH [OF this] show False by blast
    qed
  qed
  then show False by blast
qed

text \<open>
  C30: the memory budget of the cache. A whole number below \<open>2\<close> to the \<open>53\<close> with no unit or with \<open>kb\<close>,
  \<open>mb\<close> or \<open>gb\<close> in any case gives exactly that many bytes, through the floating point parser and
  multiplication; a budget that does not fit \<open>usize\<close> becomes the largest value instead of wrapping.
\<close>

theorem memory_budget_exact:
  assumes "n < 2 ^ 53" and "(to_ascii_lowercase u, k) \<in> set budget_units"
  shows "parse_memory_budget (dec_of_nat n @ u) = Inr (Explicit (of_nat (min (n * 2 ^ k) (2 ^ 64 - 1))))"
  by (rule parse_budget_number [OF assms])

theorem memory_budget_exact_witness:
  "parse_memory_budget (dec_of_nat 256 @ ''MB'') = Inr (Explicit (of_nat (min (256 * 2 ^ 20) (2 ^ 64 - 1))))"
  by (rule memory_budget_exact) (simp, code_simp)

end
