(* ===== verification/Reload.thy ===== *)
theory Reload
  imports Config
begin

text \<open>
  The configuration reloader, \<open>shroudb-server/src/reload.rs\<close>, as a state machine with one step per
  iteration of its loop. The validator that connections use is the state's \<open>rs_validator\<close>: the lock
  around it makes a replacement atomic. A modification time is a number, absent when it cannot be read.
\<close>

section \<open>Definitions\<close>

record 'v reload_state =
  rs_running :: bool
  rs_last_mtime :: "nat option"
  rs_validator :: 'v
  rs_rate_limit :: "u32 option"

text \<open>\<open>Reload_tick m file\<close>: the interval elapses, the file has modification time \<open>m\<close> and content \<open>file\<close>.\<close>

datatype reload_event =
    Reload_signal bool
  | Reload_tick "nat option" "string + string"

definition replace_validator :: "'v \<Rightarrow> 'v reload_state \<Rightarrow> 'v reload_state" where
  "replace_validator v rs = rs\<lparr>rs_validator := v\<rparr>"

definition reloadable_validate :: "'v validator_ops \<Rightarrow> 'v reload_state \<Rightarrow> string \<Rightarrow> string + token" where
  "reloadable_validate V rs raw = vo_validate V (rs_validator rs) raw"

definition reloadable_len :: "'v validator_ops \<Rightarrow> 'v reload_state \<Rightarrow> nat" where
  "reloadable_len V rs = vo_len V (rs_validator rs)"

definition reload_step :: "'v validator_ops \<Rightarrow> (string \<Rightarrow> string + shroudb_config) \<Rightarrow> (string \<Rightarrow> string) \<Rightarrow>
    reload_event \<Rightarrow> 'v reload_state \<Rightarrow> 'v reload_state" where
  "reload_step V from_toml env ev rs =
     (if \<not> rs_running rs then rs
      else case ev of
        Reload_signal b \<Rightarrow> if b then rs\<lparr>rs_running := False\<rparr> else rs
      | Reload_tick mtime file \<Rightarrow>
          if mtime = rs_last_mtime rs then rs
          else
            let rs1 = rs\<lparr>rs_last_mtime := mtime\<rparr> in
            (case load_config from_toml env file of
               None \<Rightarrow> rs1\<lparr>rs_running := False\<rparr>
             | Some (Inl _) \<Rightarrow> rs1
             | Some (Inr new_cfg) \<Rightarrow>
                 (replace_validator (build_token_validator V new_cfg) rs1)
                   \<lparr>rs_rate_limit := sc_rate_limit_per_second (cf_server new_cfg)\<rparr>))"

section \<open>Properties\<close>

text \<open>A concrete validator, for evaluating the definitions: the list of registered tokens.\<close>

definition list_validator :: "(string \<times> token) list validator_ops" where
  "list_validator = \<lparr>vo_new = [], vo_register = (\<lambda>raw t v. (raw, t) # v),
     vo_validate = (\<lambda>v raw. case map_of v raw of Some t \<Rightarrow> Inr t | None \<Rightarrow> Inl ''invalid token''), vo_len = length\<rparr>"

lemma list_validator_laws: "validator_laws list_validator"
  by (simp add: validator_laws_def list_validator_def)

text \<open>
  C32: reloading tokens. When the configuration file has changed and loads, the validator accepts from
  then on exactly the tokens of the new file, each with the identity and the grants (unknown scopes
  left out) that the file gives it, and new connections get its rate limit. When the file has not
  changed or does not load, the tokens and the rate limit in force stay as they were.
\<close>

theorem reload_tokens_exact:
  assumes "validator_laws V" and "rs_running rs"
    and "\<And>cfg. load_config from_toml env file = Some (Inr cfg) \<Longrightarrow> distinct (map fst (configured_tokens cfg))"
  shows "let rs' = reload_step V from_toml env (Reload_tick mtime file) rs in
    (case (if mtime = rs_last_mtime rs then None else load_config from_toml env file) of
       Some (Inr cfg) \<Rightarrow>
         (\<forall>raw t. reloadable_validate V rs' raw = Inr t \<longleftrightarrow>
           (\<exists>tc. (raw, tc) \<in> set (configured_tokens cfg) \<and> t = token_of_config tc)) \<and>
         rs_rate_limit rs' = sc_rate_limit_per_second (cf_server cfg)
     | _ \<Rightarrow> rs_validator rs' = rs_validator rs \<and> rs_rate_limit rs' = rs_rate_limit rs)"
proof (cases "mtime = rs_last_mtime rs")
  case False
  show ?thesis
  proof (cases "load_config from_toml env file")
    case (Some res)
    show ?thesis
    proof (cases res)
      case (Inr cfg)
      then show ?thesis using False Some assms(2) validate_built [OF assms(1) assms(3), of cfg]
        by (simp add: reload_step_def Let_def reloadable_validate_def replace_validator_def)
    qed (use False Some assms(2) in \<open>simp add: reload_step_def Let_def\<close>)
  qed (use False assms(2) in \<open>simp add: reload_step_def Let_def\<close>)
qed (use assms(2) in \<open>simp add: reload_step_def Let_def\<close>)

definition demo_config :: shroudb_config where
  "demo_config = shroudb_config_default\<lparr>cf_auth := Some \<lparr>ac_method = Some ''token'', ac_tokens =
     [(''t1'', \<lparr>tc_tenant = ''a'', tc_actor = ''alice'', tc_platform = False,
        tc_grants = [\<lparr>gc_namespace = ''app.*'', gc_scopes = [''Read'', ''fly'']\<rparr>]\<rparr>)]\<rparr>\<rparr>"

definition demo_reload :: "(string \<times> token) list reload_state" where
  "demo_reload = \<lparr>rs_running = True, rs_last_mtime = Some 1, rs_validator = [], rs_rate_limit = None\<rparr>"

lemma load_demo: "load_config (\<lambda>_. Inr demo_config) (\<lambda>_. []) (Inr []) = Some (Inr demo_config)"
  by (simp add: load_config_def expand_env_vars.simps expand_step_def)

lemma demo_tokens: "distinct (map fst (configured_tokens demo_config))"
  by (simp add: configured_tokens_def demo_config_def)

theorem reload_tokens_exact_witness:
  "let rs' = reload_step list_validator (\<lambda>_. Inr demo_config) (\<lambda>_. []) (Reload_tick (Some 2) (Inr [])) demo_reload in
    (case (if Some 2 = rs_last_mtime demo_reload then None else load_config (\<lambda>_. Inr demo_config) (\<lambda>_. []) (Inr [])) of
       Some (Inr cfg) \<Rightarrow>
         (\<forall>raw t. reloadable_validate list_validator rs' raw = Inr t \<longleftrightarrow>
           (\<exists>tc. (raw, tc) \<in> set (configured_tokens cfg) \<and> t = token_of_config tc)) \<and>
         rs_rate_limit rs' = sc_rate_limit_per_second (cf_server cfg)
     | _ \<Rightarrow> rs_validator rs' = rs_validator demo_reload \<and> rs_rate_limit rs' = rs_rate_limit demo_reload)"
  by (rule reload_tokens_exact [OF list_validator_laws]) (auto simp: load_demo demo_tokens demo_reload_def)

end
