(* ===== verification/Handlers.thy ===== *)
theory Handlers
  imports Command
begin

text \<open>
  The command handlers, \<open>shroudb-protocol/src/handlers\<close>. The store and the storage engine are
  crates outside the repository: they appear as records of operations on a state \<open>'s\<close> that stands
  for everything beyond the dispatcher (store contents, engine, clocks). A handler takes that state
  and returns its result with the state the store left.
\<close>

section \<open>The operations the handlers call\<close>

record 'x put_options =
  po_metadata :: "'x option"
  po_ttl :: "u64 option"
  po_expected_version :: "u64 option"

record 'x entry =
  e_key :: bytes
  e_value :: bytes
  e_metadata :: 'x
  e_version :: u64

record page =
  p_keys :: "bytes list"
  p_cursor :: "string option"

record 'x namespace_config =
  nc_meta_schema :: "'x option"
  nc_max_versions :: "u64 option"
  nc_tombstone_retention_secs :: "u64 option"

record namespace_info =
  ni_name :: string
  ni_key_count :: u64
  ni_created_at :: u64

datatype entry_state = Active | Deleted

record version_info =
  vi_version :: u64
  vi_state :: entry_state
  vi_updated_at :: u64
  vi_actor :: string

record 'x validation_report =
  vr_key :: bytes
  vr_version :: u64
  vr_errors :: "'x list"

text \<open>The \<open>Store\<close> trait. A time to live is a \<open>Duration\<close> of whole milliseconds.\<close>

type_synonym ('s, 'x, 'r) op = "'s \<Rightarrow> ('x store_error + 'r) \<times> 's"

record ('s, 'x) store =
  st_put_with_options :: "string \<Rightarrow> bytes \<Rightarrow> bytes \<Rightarrow> 'x put_options \<Rightarrow> ('s, 'x, u64) op"
  st_get :: "string \<Rightarrow> bytes \<Rightarrow> u64 option \<Rightarrow> ('s, 'x, 'x entry) op"
  st_delete :: "string \<Rightarrow> bytes \<Rightarrow> ('s, 'x, u64) op"
  st_put_if_version :: "string \<Rightarrow> bytes \<Rightarrow> bytes \<Rightarrow> 'x option \<Rightarrow> u64 \<Rightarrow> ('s, 'x, u64) op"
  st_delete_if_version :: "string \<Rightarrow> bytes \<Rightarrow> u64 \<Rightarrow> ('s, 'x, u64) op"
  st_delete_prefix :: "string \<Rightarrow> bytes \<Rightarrow> ('s, 'x, u64) op"
  st_list :: "string \<Rightarrow> bytes option \<Rightarrow> string option \<Rightarrow> usize \<Rightarrow> ('s, 'x, page) op"
  st_versions :: "string \<Rightarrow> bytes \<Rightarrow> usize \<Rightarrow> u64 option \<Rightarrow> ('s, 'x, version_info list) op"
  st_namespace_create :: "string \<Rightarrow> 'x namespace_config \<Rightarrow> ('s, 'x, unit) op"
  st_namespace_drop :: "string \<Rightarrow> bool \<Rightarrow> ('s, 'x, unit) op"
  st_namespace_list :: "string option \<Rightarrow> usize \<Rightarrow> ('s, 'x, page) op"
  st_namespace_info :: "string \<Rightarrow> ('s, 'x, namespace_info) op"
  st_namespace_alter :: "string \<Rightarrow> 'x namespace_config \<Rightarrow> ('s, 'x, unit) op"
  st_namespace_validate :: "string \<Rightarrow> ('s, 'x, 'x validation_report list) op"

text \<open>\<open>RekeyProgress\<close>; \<open>rp_percent\<close> is its \<open>progress * 100.0\<close> printed with one decimal.\<close>

record rekey_progress =
  rp_in_progress :: bool
  rp_percent :: string
  rp_segments_completed :: u64
  rp_total_segments :: u64
  rp_started_at :: u64

text \<open>
  The operations of \<open>StorageEngine\<close> and its \<open>ConfigStore\<close>; an error is its display text.
  \<open>unix_secs\<close> is \<open>SystemTime::now()\<close> since the epoch, absent when the clock is before it.
\<close>

record 's engine =
  en_config_get :: "string \<Rightarrow> 's \<Rightarrow> (string \<times> string) option"
  en_config_validate :: "string \<Rightarrow> string \<Rightarrow> 's \<Rightarrow> string + unit"
  en_apply_config_changed :: "string \<Rightarrow> string \<Rightarrow> string \<Rightarrow> 's \<Rightarrow> (string + unit) \<times> 's"
  en_config_set :: "string \<Rightarrow> string \<Rightarrow> u64 \<Rightarrow> 's \<Rightarrow> (string + unit) \<times> 's"
  en_begin_rekey :: "bytes \<Rightarrow> 's \<Rightarrow> (string + unit) \<times> 's"
  en_rekey_status :: "'s \<Rightarrow> rekey_progress option"
  en_unix_secs :: "'s \<Rightarrow> u64 option"

type_synonym ('s, 'x) handler = "'s \<Rightarrow> ('x command_error + 'x response_map) \<times> 's"

text \<open>A store call whose result is turned into the handler's result.\<close>

definition call :: "('s, 'x, 'r) op \<Rightarrow> ('x store_error \<Rightarrow> 'x command_error) \<Rightarrow>
    ('r \<Rightarrow> 'x response_map) \<Rightarrow> ('s, 'x) handler" where
  "call oper on_err on_ok s = (case oper s of (r, s') \<Rightarrow>
     (case r of Inl e \<Rightarrow> Inl (on_err e) | Inr v \<Rightarrow> Inr (on_ok v), s'))"

definition version_ok :: "u64 \<Rightarrow> 'x response_map" where
  "version_ok v = rm_with rm_ok ''version'' (RvInteger v)"

text \<open>The text of an unexpected store error on a key.\<close>

definition key_error :: "'x ext \<Rightarrow> string \<Rightarrow> bytes \<Rightarrow> 'x store_error \<Rightarrow> 'x command_error" where
  "key_error X ns key e = Internal (ns @ ''/'' @ from_utf8_lossy key @ '': '' @ store_error_to_string X e)"

definition ns_error :: "'x ext \<Rightarrow> string \<Rightarrow> 'x store_error \<Rightarrow> 'x command_error" where
  "ns_error X ns e = Internal (ns @ '': '' @ store_error_to_string X e)"

section \<open>Data handlers\<close>

definition parse_metadata :: "'x ext \<Rightarrow> 'x option \<Rightarrow> 'x command_error + 'x option" where
  "parse_metadata X metadata_json = (case metadata_json of
     None \<Rightarrow> Inr None
   | Some json \<Rightarrow> try_res (map_err (\<lambda>e. BadArg (''invalid metadata: '' @ e)) (metadata_from_json X json))
       (\<lambda>m. Inr (Some m)))"

definition handle_put :: "'x ext \<Rightarrow> ('s, 'x) store \<Rightarrow> string \<Rightarrow> bytes \<Rightarrow> bytes \<Rightarrow> 'x option \<Rightarrow> u64 option \<Rightarrow>
    ('s, 'x) handler" where
  "handle_put X S ns key val metadata_json ttl_ms s =
     (case parse_metadata X metadata_json of
        Inl e \<Rightarrow> (Inl e, s)
      | Inr metadata \<Rightarrow>
          call (st_put_with_options S ns key val
              \<lparr>po_metadata = metadata, po_ttl = ttl_ms, po_expected_version = None\<rparr>) Store version_ok s)"

definition get_error :: "'x ext \<Rightarrow> string \<Rightarrow> bytes \<Rightarrow> 'x store_error \<Rightarrow> 'x command_error" where
  "get_error X ns key e = (case e of
     SE_NotFound \<Rightarrow> NotFound
   | SE_NamespaceNotFound _ \<Rightarrow> NamespaceNotFound ns
   | _ \<Rightarrow> key_error X ns key e)"

definition get_response :: "'x ext \<Rightarrow> bool \<Rightarrow> 'x entry \<Rightarrow> 'x response_map" where
  "get_response X include_meta entry =
     (let resp = rm_with (rm_with (rm_with rm_ok ''key'' (RvBytes (e_key entry)))
        ''value'' (RvBytes (e_value entry))) ''version'' (RvInteger (e_version entry)) in
      if include_meta then rm_with resp ''metadata'' (RvJson (metadata_to_json X (e_metadata entry)))
      else resp)"

definition handle_get :: "'x ext \<Rightarrow> ('s, 'x) store \<Rightarrow> string \<Rightarrow> bytes \<Rightarrow> u64 option \<Rightarrow> bool \<Rightarrow> ('s, 'x) handler" where
  "handle_get X S ns key version include_meta =
     call (st_get S ns key version) (get_error X ns key) (get_response X include_meta)"

definition handle_delete :: "'x ext \<Rightarrow> ('s, 'x) store \<Rightarrow> string \<Rightarrow> bytes \<Rightarrow> ('s, 'x) handler" where
  "handle_delete X S ns key = call (st_delete S ns key)
     (\<lambda>e. case e of
        SE_NotFound \<Rightarrow> NotFound
      | SE_NamespaceNotFound _ \<Rightarrow> NamespaceNotFound ns
      | _ \<Rightarrow> key_error X ns key e) version_ok"

definition handle_put_if :: "'x ext \<Rightarrow> ('s, 'x) store \<Rightarrow> string \<Rightarrow> bytes \<Rightarrow> bytes \<Rightarrow> 'x option \<Rightarrow> u64 \<Rightarrow>
    ('s, 'x) handler" where
  "handle_put_if X S ns key val metadata_json expected s =
     (case parse_metadata X metadata_json of
        Inl e \<Rightarrow> (Inl e, s)
      | Inr metadata \<Rightarrow> call (st_put_if_version S ns key val metadata expected)
          (\<lambda>e. case e of
             SE_VersionConflict current \<Rightarrow> VersionConflict current
           | SE_NamespaceNotFound _ \<Rightarrow> NamespaceNotFound ns
           | SE_ValidationFailed errors \<Rightarrow> ValidationFailed (validation_debug X errors)
           | _ \<Rightarrow> key_error X ns key e) version_ok s)"

definition handle_del_if :: "'x ext \<Rightarrow> ('s, 'x) store \<Rightarrow> string \<Rightarrow> bytes \<Rightarrow> u64 \<Rightarrow> ('s, 'x) handler" where
  "handle_del_if X S ns key expected = call (st_delete_if_version S ns key expected)
     (\<lambda>e. case e of
        SE_VersionConflict current \<Rightarrow> VersionConflict current
      | SE_NotFound \<Rightarrow> NotFound
      | SE_NamespaceNotFound _ \<Rightarrow> NamespaceNotFound ns
      | _ \<Rightarrow> key_error X ns key e) version_ok"

definition handle_del_prefix :: "'x ext \<Rightarrow> ('s, 'x) store \<Rightarrow> string \<Rightarrow> bytes \<Rightarrow> ('s, 'x) handler" where
  "handle_del_prefix X S ns pre = call (st_delete_prefix S ns pre)
     (\<lambda>e. case e of
        SE_PrefixTooLarge matched limit \<Rightarrow> PrefixTooLarge matched limit
      | SE_NamespaceNotFound _ \<Rightarrow> NamespaceNotFound ns
      | SE_Storage msg \<Rightarrow> if str_contains msg ''empty prefix'' then BadArg msg else ns_error X ns e
      | _ \<Rightarrow> ns_error X ns e)
     (\<lambda>deleted. rm_with rm_ok ''deleted'' (RvInteger deleted))"

definition with_cursor :: "'x response_map \<Rightarrow> string option \<Rightarrow> 'x response_map" where
  "with_cursor resp cursor = (case cursor of None \<Rightarrow> resp | Some c \<Rightarrow> rm_with resp ''cursor'' (RvString c))"

definition handle_list :: "'x ext \<Rightarrow> ('s, 'x) store \<Rightarrow> string \<Rightarrow> bytes option \<Rightarrow> string option \<Rightarrow> usize \<Rightarrow>
    ('s, 'x) handler" where
  "handle_list X S ns pre cursor limit = call (st_list S ns pre cursor limit)
     (\<lambda>e. case e of
        SE_NamespaceNotFound _ \<Rightarrow> NamespaceNotFound ns
      | SE_InvalidCursor msg \<Rightarrow> BadArg msg
      | _ \<Rightarrow> ns_error X ns e)
     (\<lambda>page. with_cursor (rm_with rm_ok ''keys'' (RvArray (map RvBytes (p_keys page)))) (p_cursor page))"

definition entry_state_str :: "entry_state \<Rightarrow> string" where
  "entry_state_str st = (case st of Active \<Rightarrow> ''active'' | Deleted \<Rightarrow> ''deleted'')"

definition version_entry :: "version_info \<Rightarrow> 'x response_value" where
  "version_entry v = RvMap (rm_with (rm_with (rm_with (rm_with rm_ok
      ''version'' (RvInteger (vi_version v)))
      ''state'' (RvString (entry_state_str (vi_state v))))
      ''updated_at'' (RvInteger (vi_updated_at v)))
      ''actor'' (RvString (vi_actor v)))"

definition handle_versions :: "'x ext \<Rightarrow> ('s, 'x) store \<Rightarrow> string \<Rightarrow> bytes \<Rightarrow> usize \<Rightarrow> u64 option \<Rightarrow>
    ('s, 'x) handler" where
  "handle_versions X S ns key limit frm = call (st_versions S ns key limit frm) (key_error X ns key)
     (\<lambda>versions. rm_with rm_ok ''versions'' (RvArray (map version_entry versions)))"

section \<open>Namespace handlers\<close>

definition namespace_parse_config :: "'x ext \<Rightarrow> 'x option \<Rightarrow> u64 option \<Rightarrow> u64 option \<Rightarrow>
    'x command_error + 'x namespace_config" where
  "namespace_parse_config X schema_json max_versions tombstone_retention_secs =
     try_res
       (case schema_json of
          None \<Rightarrow> Inr None
        | Some json \<Rightarrow> try_res (map_err (\<lambda>e. BadArg (''invalid schema: '' @ e)) (schema_from_json X json))
            (\<lambda>schema. Inr (Some schema)))
       (\<lambda>meta_schema. Inr \<lparr>nc_meta_schema = meta_schema, nc_max_versions = max_versions,
          nc_tombstone_retention_secs = tombstone_retention_secs\<rparr>)"

definition handle_create :: "'x ext \<Rightarrow> ('s, 'x) store \<Rightarrow> string \<Rightarrow> 'x option \<Rightarrow> u64 option \<Rightarrow> u64 option \<Rightarrow>
    ('s, 'x) handler" where
  "handle_create X S name schema_json mv tr s =
     (case namespace_parse_config X schema_json mv tr of
        Inl e \<Rightarrow> (Inl e, s)
      | Inr config \<Rightarrow> call (st_namespace_create S name config) Store (\<lambda>_. rm_ok) s)"

definition handle_drop :: "('s, 'x) store \<Rightarrow> string \<Rightarrow> bool \<Rightarrow> ('s, 'x) handler" where
  "handle_drop S name force = call (st_namespace_drop S name force) Store (\<lambda>_. rm_ok)"

definition handle_namespace_list :: "('s, 'x) store \<Rightarrow> string option \<Rightarrow> usize \<Rightarrow> ('s, 'x) handler" where
  "handle_namespace_list S cursor limit = call (st_namespace_list S cursor limit) Store
     (\<lambda>page. with_cursor (rm_with rm_ok ''namespaces''
        (RvArray (map (\<lambda>k. RvString (from_utf8_lossy k)) (p_keys page)))) (p_cursor page))"

definition handle_info :: "('s, 'x) store \<Rightarrow> string \<Rightarrow> ('s, 'x) handler" where
  "handle_info S name = call (st_namespace_info S name) Store
     (\<lambda>info. rm_with (rm_with (rm_with rm_ok ''name'' (RvString (ni_name info)))
        ''key_count'' (RvInteger (ni_key_count info)))
        ''created_at'' (RvInteger (ni_created_at info)))"

definition handle_alter :: "'x ext \<Rightarrow> ('s, 'x) store \<Rightarrow> string \<Rightarrow> 'x option \<Rightarrow> u64 option \<Rightarrow> u64 option \<Rightarrow>
    ('s, 'x) handler" where
  "handle_alter X S name schema_json mv tr s =
     (case namespace_parse_config X schema_json mv tr of
        Inl e \<Rightarrow> (Inl e, s)
      | Inr config \<Rightarrow> call (st_namespace_alter S name config) Store (\<lambda>_. rm_ok) s)"

definition report_entry :: "'x ext \<Rightarrow> 'x validation_report \<Rightarrow> 'x response_value" where
  "report_entry X r = RvMap (rm_with (rm_with (rm_with rm_ok
      ''key'' (RvBytes (vr_key r)))
      ''version'' (RvInteger (vr_version r)))
      ''errors'' (RvArray (map (\<lambda>e. RvString (verror_to_string X e)) (vr_errors r))))"

definition handle_validate :: "'x ext \<Rightarrow> ('s, 'x) store \<Rightarrow> string \<Rightarrow> ('s, 'x) handler" where
  "handle_validate X S name = call (st_namespace_validate S name) Store
     (\<lambda>reports. rm_with (rm_with rm_ok ''count'' (RvInteger (of_nat (length reports))))
        ''reports'' (RvArray (map (report_entry X) reports)))"

section \<open>Operational handlers\<close>

definition handle_health :: "'x command_error + 'x response_map" where
  "handle_health = Inr (rm_with rm_ok ''message'' (RvString ''healthy''))"

definition command_names :: "string list" where
  "command_names = [''AUTH'', ''PING'', ''PUT'', ''GET'', ''DELETE'', ''LIST'', ''VERSIONS'',
     ''NAMESPACE CREATE'', ''NAMESPACE DROP'', ''NAMESPACE LIST'', ''NAMESPACE INFO'', ''NAMESPACE ALTER'',
     ''NAMESPACE VALIDATE'', ''PIPELINE'', ''SUBSCRIBE'', ''UNSUBSCRIBE'', ''HEALTH'', ''CONFIG GET'',
     ''CONFIG SET'', ''COMMAND LIST'']"

definition handle_command_list :: "'x command_error + 'x response_map" where
  "handle_command_list = Inr (rm_with (rm_with rm_ok ''count'' (RvInteger (of_nat (length command_names))))
     ''commands'' (RvArray (map RvString command_names)))"

definition handle_config_get :: "'s engine \<Rightarrow> string \<Rightarrow> ('s, 'x) handler" where
  "handle_config_get E key s =
     (Inr (case en_config_get E key s of
        Some (val, source) \<Rightarrow> rm_with (rm_with (rm_with rm_ok ''key'' (RvString key))
          ''value'' (RvString val)) ''source'' (RvString source)
      | None \<Rightarrow> rm_with (rm_with rm_ok ''key'' (RvString key)) ''value'' RvNull), s)"

definition handle_config_set :: "'s engine \<Rightarrow> string \<Rightarrow> string \<Rightarrow> ('s, 'x) handler" where
  "handle_config_set E key val s =
     (case en_unix_secs E s of
        None \<Rightarrow> (Inl (Internal ''system clock error''), s)
      | Some timestamp \<Rightarrow>
          (case en_config_validate E key val s of
             Inl e \<Rightarrow> (Inl (BadArg e), s)
           | Inr _ \<Rightarrow>
               (case en_apply_config_changed E ''__system__'' key val s of
                  (Inl e, s1) \<Rightarrow> (Inl (Internal e), s1)
                | (Inr _, s1) \<Rightarrow>
                    (case en_config_set E key val timestamp s1 of
                       (Inl e, s2) \<Rightarrow> (Inl (BadArg e), s2)
                     | (Inr _, s2) \<Rightarrow> (Inr rm_ok, s2)))))"

text \<open>
  \<open>decode_hex\<close>. \<open>hex[i..i + 2]\<close> panics when an end is inside a UTF-8 character: \<open>None\<close>.
\<close>

fun hex_digit_val :: "char \<Rightarrow> nat option" where
  "hex_digit_val c =
     (let n = of_char c :: nat in
      if 48 \<le> n \<and> n \<le> 57 then Some (n - 48)
      else if 97 \<le> n \<and> n \<le> 102 then Some (n - 87)
      else if 65 \<le> n \<and> n \<le> 70 then Some (n - 55)
      else None)"

fun hex_digits :: "nat \<Rightarrow> string \<Rightarrow> parse_int_error + nat" where
  "hex_digits acc [] = Inr acc"
| "hex_digits acc (c # cs) = (case hex_digit_val c of
     None \<Rightarrow> Inl PI_InvalidDigit
   | Some d \<Rightarrow> if acc * 16 + d < 256 then hex_digits (acc * 16 + d) cs else Inl PI_PosOverflow)"

definition u8_from_str_radix_16 :: "string \<Rightarrow> parse_int_error + nat" where
  "u8_from_str_radix_16 s = (case s of
     [] \<Rightarrow> Inl PI_Empty
   | c # cs \<Rightarrow>
       if cs = [] \<and> (c = CHR ''+'' \<or> c = CHR ''-'') then Inl PI_InvalidDigit
       else if c = CHR ''+'' then hex_digits 0 cs else hex_digits 0 s)"

fun decode_pairs :: "string \<Rightarrow> (string + bytes) option" where
  "decode_pairs (a # b # rest) =
     (if is_cont a \<or> (case rest of [] \<Rightarrow> False | c # _ \<Rightarrow> is_cont c) then None
      else case u8_from_str_radix_16 [a, b] of
        Inl e \<Rightarrow> Some (Inl (parse_int_error_to_string e))
      | Inr n \<Rightarrow> map_option (\<lambda>r. try_res r (\<lambda>bs. Inr (char_of n # bs))) (decode_pairs rest))"
| "decode_pairs _ = Some (Inr [])"

definition decode_hex :: "string \<Rightarrow> (string + bytes) option" where
  "decode_hex hex = (if odd (length hex) then Some (Inl ''odd number of hex characters'') else decode_pairs hex)"

definition handle_rekey :: "'s engine \<Rightarrow> string \<Rightarrow> 's \<Rightarrow> ('x command_error + 'x response_map) option \<times> 's" where
  "handle_rekey E new_key_hex s =
     (case decode_hex new_key_hex of
        None \<Rightarrow> (None, s)
      | Some (Inl e) \<Rightarrow> (Some (Inl (BadArg (''invalid hex key: '' @ e))), s)
      | Some (Inr key_bytes) \<Rightarrow>
          if length key_bytes \<noteq> 32 then
            (Some (Inl (BadArg (''key must be 32 bytes (64 hex chars), got '' @ dec_of_nat (length key_bytes)))), s)
          else (case en_begin_rekey E key_bytes s of
             (Inl e, s') \<Rightarrow> (Some (Inl (Internal e)), s')
           | (Inr _, s') \<Rightarrow> (Some (Inr (rm_with rm_ok ''message'' (RvString ''rekey started''))), s')))"

definition handle_rekey_status :: "'s engine \<Rightarrow> ('s, 'x) handler" where
  "handle_rekey_status E s =
     (Inr (case en_rekey_status E s of
        Some p \<Rightarrow> rm_with (rm_with (rm_with (rm_with (rm_with rm_ok
            ''in_progress'' (RvBoolean (rp_in_progress p)))
            ''progress'' (RvString (rp_percent p @ ''%'')))
            ''segments_completed'' (RvInteger (rp_segments_completed p)))
            ''total_segments'' (RvInteger (rp_total_segments p)))
            ''started_at'' (RvInteger (rp_started_at p))
      | None \<Rightarrow> rm_with (rm_with rm_ok ''in_progress'' (RvBoolean False))
            ''message'' (RvString ''no rekey in progress'')), s)"

section \<open>Hexadecimal keys\<close>

declare hex_digit_val.simps [simp del]

lemma hex_digit_val_digit: "is_ascii_hexdigit c \<Longrightarrow> \<exists>d < 16. hex_digit_val c = Some d"
  by (auto simp: is_ascii_hexdigit_def hex_digit_val.simps Let_def)

lemma hexdigit_not_special:
  assumes "is_ascii_hexdigit c"
  shows "\<not> is_cont c" and "c \<noteq> CHR ''+''" and "c \<noteq> CHR ''-''"
  using assms by (auto simp: is_ascii_hexdigit_def is_cont_def Let_def)

lemma u8_from_hex_pair:
  assumes "hex_digit_val a = Some x" and "x < 16" and "hex_digit_val b = Some y" and "y < 16"
    and "a \<noteq> CHR ''+''"
  shows "u8_from_str_radix_16 [a, b] = Inr (16 * x + y)"
  using assms by (simp add: u8_from_str_radix_16_def mult.commute)

text \<open>The bytes that a string of hexadecimal digits denotes.\<close>

definition hex_byte :: "string \<Rightarrow> nat \<Rightarrow> char" where
  "hex_byte hex i = char_of (16 * the (hex_digit_val (hex ! (2 * i))) + the (hex_digit_val (hex ! (2 * i + 1))))"

lemma decode_pairs_hex:
  "list_all is_ascii_hexdigit hex \<Longrightarrow> even (length hex) \<Longrightarrow>
     decode_pairs hex = Some (Inr (map (hex_byte hex) [0..<length hex div 2]))"
proof (induction hex rule: decode_pairs.induct)
  case (1 a b rest)
  obtain x y where xy: "hex_digit_val a = Some x" "x < 16" "hex_digit_val b = Some y" "y < 16"
    using hex_digit_val_digit [of a] hex_digit_val_digit [of b] 1 by auto
  have rest: "\<not> (case rest of [] \<Rightarrow> False | c # _ \<Rightarrow> is_cont c)"
    using 1 by (auto simp: hexdigit_not_special split: list.splits)
  have shift: "map (hex_byte (a # b # rest)) [0..<Suc n] = char_of (16 * x + y) # map (hex_byte rest) [0..<n]"
    for n
    by (simp add: map_upt_Suc hex_byte_def xy del: upt_Suc)
  show ?case
    using 1 rest xy hexdigit_not_special [of a] shift [of "length rest div 2"]
    by (simp add: u8_from_hex_pair del: upt_Suc)
qed auto

lemma decode_hex_key:
  assumes "list_all is_ascii_hexdigit hex" and "length hex = 64"
  shows "decode_hex hex = Some (Inr (map (hex_byte hex) [0..<32]))"
  using decode_pairs_hex [OF assms(1)] assms(2) by (simp add: decode_hex_def)

lemma handle_rekey_hex:
  assumes "list_all is_ascii_hexdigit hex" and "length hex = 64"
  shows "handle_rekey E hex s =
    (case en_begin_rekey E (map (hex_byte hex) [0..<32]) s of
       (Inl e, s') \<Rightarrow> (Some (Inl (Internal e)), s')
     | (Inr _, s') \<Rightarrow> (Some (Inr (rm_with rm_ok ''message'' (RvString ''rekey started''))), s'))"
  by (simp add: handle_rekey_def decode_hex_key [OF assms])

end
