(* ===== verification/Backup.thy ===== *)
theory Backup
  imports Handlers
begin

text \<open>
  The offline subcommands of \<open>shroudb-server/src/main.rs\<close> that move data: \<open>export\<close>, \<open>import\<close> and
  \<open>rekey\<close>. The serialisers, the cipher and the storage engine are outside the repository: they are the
  fields of \<open>'x backup_ext\<close> and \<open>('s, 'x) replay_engine\<close>. An error is the text that is printed for it,
  the outermost context when it has one. The result \<open>None\<close> is a panic (a value that is not in memory).
\<close>

section \<open>The data\<close>

text \<open>
  The engine's index, as far as the subcommands copy it: a value is absent when it has been evicted
  from memory. The versions of a key are in ascending order of their numbers.
\<close>

record 'x version_record =
  rec_state :: entry_state
  rec_value :: "bytes option"
  rec_metadata :: 'x
  rec_updated_at :: u64
  rec_actor :: string
  rec_expires_at_ms :: "u64 option"

record 'x ns_state =
  ns_config :: "'x namespace_config"
  ns_created_at :: u64
  ns_keys :: "(bytes \<times> (u64 \<times> 'x version_record) list) list"

record 'x export_version =
  xv_state :: "8 word"
  xv_value :: bytes
  xv_metadata :: 'x
  xv_updated_at :: u64
  xv_actor :: string

record 'x export_entry =
  xe_key :: bytes
  xe_versions :: "'x export_version list"

record export_header =
  xh_namespace :: string
  xh_version :: u32
  xh_created_at :: u64
  xh_key_count :: u64

record 'x backup_ext =
  bx_ser_entries :: "'x export_entry list \<Rightarrow> string + bytes"
  bx_de_entries :: "bytes \<Rightarrow> string + 'x export_entry list"
  bx_ser_header :: "export_header \<Rightarrow> string + bytes"
  bx_de_header :: "bytes \<Rightarrow> string + export_header"
  bx_ser_config :: "'x namespace_config \<Rightarrow> string + bytes"
  bx_de_config :: "bytes \<Rightarrow> string + 'x namespace_config"
  bx_encrypt :: "bytes \<Rightarrow> bytes \<Rightarrow> bytes \<Rightarrow> string + bytes"
  bx_decrypt :: "bytes \<Rightarrow> bytes \<Rightarrow> bytes \<Rightarrow> string + bytes"

datatype 'x wal_op =
    NamespaceCreated string "'x namespace_config" u64
  | EntryPut string bytes bytes 'x u64 string
  | EntryDeleted string bytes u64 string

record ('s, 'x) replay_engine =
  re_exists :: "string \<Rightarrow> 's \<Rightarrow> bool"
  re_current :: "string \<Rightarrow> bytes \<Rightarrow> 's \<Rightarrow> u64 option"
  re_apply :: "'x wal_op \<Rightarrow> 's \<Rightarrow> (string + unit) \<times> 's"
  re_snapshot :: "'s \<Rightarrow> (string + unit) \<times> 's"
  re_shutdown :: "'s \<Rightarrow> (string + unit) \<times> 's"

section \<open>Export\<close>

text \<open>The bytes of the dash in the messages.\<close>

definition em_dash :: string where
  "em_dash = [CHR 0xE2, CHR 0x80, CHR 0x94]"

definition EXPORT_MAGIC :: bytes where
  "EXPORT_MAGIC = ''SDB'' @ [CHR 0x01]"

definition to_le_bytes :: "u32 \<Rightarrow> bytes" where
  "to_le_bytes w = (let n = unat w in
     [char_of (n mod 256), char_of (n div 256 mod 256), char_of (n div 65536 mod 256), char_of (n div 16777216)])"

definition to_export_version :: "'x version_record \<Rightarrow> 'x export_version option" where
  "to_export_version r = map_option (\<lambda>val.
     \<lparr>xv_state = (case rec_state r of Active \<Rightarrow> 0 | Deleted \<Rightarrow> 1), xv_value = val, xv_metadata = rec_metadata r,
      xv_updated_at = rec_updated_at r, xv_actor = rec_actor r\<rparr>) (rec_value r)"

definition to_export_entry :: "bytes \<times> (u64 \<times> 'x version_record) list \<Rightarrow> 'x export_entry option" where
  "to_export_entry kv = (case kv of (key, versions) \<Rightarrow>
     map_option (\<lambda>vs. \<lparr>xe_key = key, xe_versions = vs\<rparr>) (those (map (to_export_version \<circ> snd) versions)))"

definition export_bundle :: "bytes \<Rightarrow> bytes \<Rightarrow> bytes \<Rightarrow> bytes" where
  "export_bundle header_json encrypted config_json =
     EXPORT_MAGIC @ to_le_bytes (of_nat (length header_json)) @ header_json @ encrypted @
     to_le_bytes (of_nat (length config_json)) @ config_json"

text \<open>\<open>run_export\<close> on the opened engine: its index and the key derived for exports.\<close>

definition run_export :: "'x backup_ext \<Rightarrow> (string \<Rightarrow> 'x ns_state option) \<Rightarrow> string + bytes \<Rightarrow> string \<Rightarrow>
    (string + bytes) option" where
  "run_export X index export_key namespace = (case index namespace of
     None \<Rightarrow> Some (Inl (''namespace not found: '' @ namespace))
   | Some ns \<Rightarrow> map_option (\<lambda>entries.
       try_res (map_err (\<lambda>_. ''failed to serialize export payload'') (bx_ser_entries X entries)) (\<lambda>payload.
       try_res (map_err (\<lambda>e. ''failed to derive export key: '' @ e) export_key) (\<lambda>k.
       try_res (bx_ser_header X \<lparr>xh_namespace = namespace, xh_version = 1, xh_created_at = ns_created_at ns,
           xh_key_count = of_nat (length entries)\<rparr>) (\<lambda>header_json.
       try_res (map_err (\<lambda>_. ''failed to encrypt export payload'') (bx_encrypt X k payload header_json)) (\<lambda>encrypted.
       try_res (bx_ser_config X (ns_config ns)) (\<lambda>config_json.
         Inr (export_bundle header_json encrypted config_json)))))))
     (those (map to_export_entry (ns_keys ns))))"

section \<open>Import\<close>

definition from_le_bytes :: "bytes \<Rightarrow> nat" where
  "from_le_bytes bs = byte (bs ! 0) + 256 * byte (bs ! 1) + 65536 * byte (bs ! 2) + 16777216 * byte (bs ! 3)"

text \<open>The configuration section, if it starts at the given offset.\<close>

definition try_config :: "'x backup_ext \<Rightarrow> bytes \<Rightarrow> nat \<Rightarrow> ('x namespace_config \<times> nat) option" where
  "try_config X bundle off =
     (let candidate_len = from_le_bytes (take 4 (drop off bundle)) in
      if off + 4 + candidate_len = length bundle \<and> candidate_len < 1000000
      then map_option (\<lambda>config. (config, off)) (res_ok (bx_de_config X (drop (off + 4) bundle)))
      else None)"

fun first_some :: "('a \<Rightarrow> 'b option) \<Rightarrow> 'a list \<Rightarrow> 'b option" where
  "first_some f [] = None"
| "first_some f (x # xs) = (case f x of Some y \<Rightarrow> Some y | None \<Rightarrow> first_some f xs)"

definition find_config :: "'x backup_ext \<Rightarrow> bytes \<Rightarrow> nat \<Rightarrow> ('x namespace_config \<times> nat) option" where
  "find_config X bundle encrypted_start =
     first_some (try_config X bundle) (rev [encrypted_start..<length bundle - 4])"

definition parse_header :: "'x backup_ext \<Rightarrow> bytes \<Rightarrow> string + export_header \<times> bytes" where
  "parse_header X bundle =
     (if length bundle < 8 \<or> take 4 bundle \<noteq> EXPORT_MAGIC then Inl ''invalid export file: bad magic bytes''
      else let header_len = from_le_bytes (take 4 (drop 4 bundle)) in
        if length bundle < 8 + header_len then Inl ''invalid export file: truncated header''
        else let header_json = take header_len (drop 8 bundle) in
          try_res (map_err (\<lambda>_. ''invalid export file: bad header JSON'') (bx_de_header X header_json)) (\<lambda>header.
            Inr (header, header_json)))"

definition decrypt_entries :: "'x backup_ext \<Rightarrow> bytes \<Rightarrow> bytes \<Rightarrow> bytes \<Rightarrow>
    string + 'x namespace_config \<times> 'x export_entry list" where
  "decrypt_entries X k header_json bundle =
     (let encrypted_start = 8 + length header_json in
      if length bundle < encrypted_start + 4 then Inl ''invalid export file: truncated''
      else
        let (ns_config, config_end) = (case find_config X bundle encrypted_start of
              Some (config, off) \<Rightarrow> (config, off)
            | None \<Rightarrow> (\<lparr>nc_meta_schema = None, nc_max_versions = None, nc_tombstone_retention_secs = None\<rparr>, length bundle));
            encrypted = take (config_end - encrypted_start) (drop encrypted_start bundle) in
        try_res (map_err (\<lambda>_. ''failed to decrypt export '' @ em_dash @ '' wrong master key or corrupted file'')
          (bx_decrypt X k encrypted header_json)) (\<lambda>payload.
        try_res (map_err (\<lambda>_. ''failed to deserialize export payload'') (bx_de_entries X payload)) (\<lambda>entries.
          Inr (ns_config, entries))))"

text \<open>A loop over fallible steps that stops at the first error.\<close>

fun each :: "('a \<Rightarrow> 's \<Rightarrow> ('e + unit) \<times> 's) \<Rightarrow> 'a list \<Rightarrow> 's \<Rightarrow> ('e + unit) \<times> 's" where
  "each f [] s = (Inr (), s)"
| "each f (x # xs) s = (case f x s of (Inl e, s1) \<Rightarrow> (Inl e, s1) | (Inr _, s1) \<Rightarrow> each f xs s1)"

definition next_version :: "('s, 'x) replay_engine \<Rightarrow> string \<Rightarrow> bytes \<Rightarrow> 's \<Rightarrow> u64" where
  "next_version E ns key s = (case re_current E ns key s of Some v \<Rightarrow> v + 1 | None \<Rightarrow> 1)"

definition apply_or :: "('s, 'x) replay_engine \<Rightarrow> string \<Rightarrow> 'x wal_op \<Rightarrow> 's \<Rightarrow> (string + unit) \<times> 's" where
  "apply_or E what oper s = (case re_apply E oper s of (r, s1) \<Rightarrow> (map_err (\<lambda>e. what @ '': '' @ e) r, s1))"

definition import_version :: "('s, 'x) replay_engine \<Rightarrow> string \<Rightarrow> bytes \<Rightarrow> 'x export_version \<Rightarrow> 's \<Rightarrow>
    (string + unit) \<times> 's" where
  "import_version E ns key v s =
     (let version = next_version E ns key s in
      if xv_state v = 0 then
        apply_or E ''failed to write key'' (EntryPut ns key (xv_value v) (xv_metadata v) version (xv_actor v)) s
      else if xv_state v = 1 then
        apply_or E ''failed to write tombstone'' (EntryDeleted ns key version (xv_actor v)) s
      else (Inr (), s))"

definition import_entries :: "('s, 'x) replay_engine \<Rightarrow> string \<Rightarrow> 'x export_entry list \<Rightarrow> 's \<Rightarrow> (string + unit) \<times> 's" where
  "import_entries E ns entries = each (\<lambda>e. each (import_version E ns (xe_key e)) (xe_versions e)) entries"

text \<open>\<open>run_import\<close>; the result is the number of imported keys.\<close>

definition run_import :: "'x backup_ext \<Rightarrow> ('s, 'x) replay_engine \<Rightarrow> string + bytes \<Rightarrow> bytes \<Rightarrow> string option \<Rightarrow> 's \<Rightarrow>
    (string + nat) \<times> 's" where
  "run_import X E export_key bundle rename s = (case parse_header X bundle of
     Inl e \<Rightarrow> (Inl e, s)
   | Inr (header, header_json) \<Rightarrow>
       (let ns = (case rename of Some n \<Rightarrow> n | None \<Rightarrow> xh_namespace header) in
        if re_exists E ns s then
          (case re_shutdown E s of (Inl e, s1) \<Rightarrow> (Inl e, s1) | (Inr _, s1) \<Rightarrow> (Inl (''namespace already exists: '' @ ns), s1))
        else (case try_res (map_err (\<lambda>e. ''failed to derive export key: '' @ e) export_key)
              (\<lambda>k. decrypt_entries X k header_json bundle) of
            Inl e \<Rightarrow> (Inl e, s)
          | Inr (config, entries) \<Rightarrow>
              (case apply_or E ''failed to create namespace'' (NamespaceCreated ns config (xh_created_at header)) s of
                 (Inl e, s1) \<Rightarrow> (Inl e, s1)
               | (Inr _, s1) \<Rightarrow> (case import_entries E ns entries s1 of
                   (Inl e, s2) \<Rightarrow> (Inl e, s2)
                 | (Inr _, s2) \<Rightarrow> (case re_snapshot E s2 of
                     (Inl e, s3) \<Rightarrow> (Inl e, s3)
                   | (Inr _, s3) \<Rightarrow> (case re_shutdown E s3 of
                       (Inl e, s4) \<Rightarrow> (Inl e, s4)
                     | (Inr _, s4) \<Rightarrow> (Inr (length entries), s4))))))))"

section \<open>Rekey\<close>

text \<open>
  The replay of \<open>run_rekey\<close>: the captured namespaces are written again, on an engine that was opened
  with the new key in the emptied data directory. A value that is not in memory is a panic.
\<close>

definition rekey_version :: "('s, 'x) replay_engine \<Rightarrow> string \<Rightarrow> bytes \<Rightarrow> 'x version_record \<Rightarrow> 's \<Rightarrow>
    (string option + unit) \<times> 's" where
  "rekey_version E ns key r s =
     (let version = next_version E ns key s in
      case rec_state r of
        Active \<Rightarrow> (case rec_value r of
            None \<Rightarrow> (Inl None, s)
          | Some val \<Rightarrow> (case apply_or E ''failed to write key'' (EntryPut ns key val (rec_metadata r) version (rec_actor r)) s of
              (res, s1) \<Rightarrow> (map_err Some res, s1)))
      | Deleted \<Rightarrow> (case apply_or E ''failed to write tombstone'' (EntryDeleted ns key version (rec_actor r)) s of
          (res, s1) \<Rightarrow> (map_err Some res, s1)))"

definition rekey_namespace :: "('s, 'x) replay_engine \<Rightarrow> string \<times> 'x ns_state \<Rightarrow> 's \<Rightarrow> (string option + unit) \<times> 's" where
  "rekey_namespace E named s = (case named of (ns, st) \<Rightarrow>
     (case apply_or E (''failed to create namespace '' @ ns) (NamespaceCreated ns (ns_config st) (ns_created_at st)) s of
        (Inl e, s1) \<Rightarrow> (Inl (Some e), s1)
      | (Inr _, s1) \<Rightarrow> each (\<lambda>(key, versions). each (\<lambda>(_, r). rekey_version E ns key r) versions) (ns_keys st) s1))"

definition rekey_replay :: "('s, 'x) replay_engine \<Rightarrow> (string \<times> 'x ns_state) list \<Rightarrow> 's \<Rightarrow> (string option + unit) \<times> 's" where
  "rekey_replay E snapshot_data = each (rekey_namespace E) snapshot_data"

text \<open>The keys of \<open>run_rekey\<close>; \<open>decode\<close> is the hexadecimal decoder.\<close>

definition rekey_keys :: "(string \<Rightarrow> string + bytes) \<Rightarrow> string \<Rightarrow> string \<Rightarrow> string + bytes \<times> bytes" where
  "rekey_keys decode old_key_hex new_key_hex =
     try_res (map_err (\<lambda>_. ''invalid old key hex'') (decode old_key_hex)) (\<lambda>old_bytes.
     try_res (map_err (\<lambda>_. ''invalid new key hex'') (decode new_key_hex)) (\<lambda>new_bytes.
       if length old_bytes \<noteq> 32 then
         Inl (''old key must be 32 bytes (64 hex chars), got '' @ dec_of_nat (length old_bytes))
       else if length new_bytes \<noteq> 32 then
         Inl (''new key must be 32 bytes (64 hex chars), got '' @ dec_of_nat (length new_bytes))
       else Inr (old_bytes, new_bytes)))"

text \<open>
  \<open>run_rekey\<close> with what it does to the disk: the test that the port is free, opening the engine (which
  loads the index), the shutdown of the old engine and the removal of the data directory. The state is
  what is on the disk; the engine that replays is the one opened with the new key.
\<close>

record ('s, 'x) rekey_env =
  rk_bind :: string
  rk_port_free :: bool
  rk_decode :: "string \<Rightarrow> string + bytes"
  rk_open :: "bytes \<Rightarrow> 's \<Rightarrow> (string + (string \<times> 'x ns_state) list) \<times> 's"
  rk_close :: "'s \<Rightarrow> (string + unit) \<times> 's"
  rk_wipe :: "'s \<Rightarrow> (string + unit) \<times> 's"
  rk_engine :: "bytes \<Rightarrow> ('s, 'x) replay_engine"

text \<open>Sequencing of fallible steps; \<open>Inl None\<close> is a panic.\<close>

definition and_then :: "('e + 'a) \<times> 's \<Rightarrow> ('a \<Rightarrow> 's \<Rightarrow> ('e + 'b) \<times> 's) \<Rightarrow> ('e + 'b) \<times> 's" where
  "and_then r f = (case r of (Inl e, s) \<Rightarrow> (Inl e, s) | (Inr a, s) \<Rightarrow> f a s)"

definition with_context :: "(string \<Rightarrow> string) \<Rightarrow> (string + 'a) \<times> 's \<Rightarrow> (string option + 'a) \<times> 's" where
  "with_context msg r = (map_err (Some \<circ> msg) (fst r), snd r)"

definition run_rekey :: "('s, 'x) rekey_env \<Rightarrow> string \<Rightarrow> string \<Rightarrow> 's \<Rightarrow> (string option + nat) \<times> 's" where
  "run_rekey K old_key_hex new_key_hex s =
     (if \<not> rk_port_free K then
        (Inl (Some (''port '' @ rk_bind K @ '' is in use '' @ em_dash @ '' stop the running server before rekey'')), s)
      else
        and_then (with_context id (rekey_keys (rk_decode K) old_key_hex new_key_hex, s)) (\<lambda>(old_bytes, new_bytes) s.
        and_then (with_context (\<lambda>_. ''failed to open storage with old key '' @ em_dash @ '' is the old key correct?'')
            (rk_open K old_bytes s)) (\<lambda>snapshot_data s.
        and_then (with_context id (rk_close K s)) (\<lambda>_ s.
        and_then (with_context id (rk_wipe K s)) (\<lambda>_ s.
        and_then (with_context (\<lambda>_. ''failed to open fresh storage with new key'') (rk_open K new_bytes s)) (\<lambda>_ s.
        and_then (rekey_replay (rk_engine K new_bytes) snapshot_data s) (\<lambda>_ s.
        and_then (with_context (\<lambda>e. ''failed to snapshot new state: '' @ e) (re_snapshot (rk_engine K new_bytes) s)) (\<lambda>_ s.
        and_then (with_context id (re_shutdown (rk_engine K new_bytes) s)) (\<lambda>_ s.
          (Inr (sum_list (map (\<lambda>(_, st). length (ns_keys st)) snapshot_data)), s))))))))))"

section \<open>The bundle\<close>

lemma length_to_le_bytes [simp]: "length (to_le_bytes w) = 4"
  by (simp add: to_le_bytes_def Let_def)

lemma base_256_digits:
  fixes a b c d :: nat
  assumes "r0 + 256 * b = a" and "r1 + 256 * c = b" and "r2 + 256 * d = c"
  shows "r0 + 256 * r1 + 65536 * r2 + 16777216 * d = a"
  using assms by simp

lemma from_to_le_bytes: "from_le_bytes (to_le_bytes w) = unat w"
proof -
  have lt: "unat w < 2 ^ 32" using unsigned_less [of w, where 'a = nat] by simp
  have d: "unat w div 16777216 < 256" using lt by simp
  have b: "byte (char_of n :: char) = n" if "n < 256" for n using that by (simp add: of_char_char_of_less)
  have quot: "unat w div 65536 = unat w div 256 div 256" "unat w div 16777216 = unat w div 256 div 256 div 256"
    by (simp_all add: div_mult2_eq [symmetric])
  have "unat w mod 256 + 256 * (unat w div 256 mod 256) + 65536 * (unat w div 65536 mod 256)
      + 16777216 * (unat w div 16777216) = unat w"
    unfolding quot by (rule base_256_digits; rule mod_mult_div_eq)
  then show ?thesis using d by (simp add: from_le_bytes_def to_le_bytes_def Let_def b del: One_nat_def)
qed

lemma from_le_bytes_large:
  assumes "32 \<le> byte (bs ! 3)"
  shows "\<not> from_le_bytes bs < 1000000"
  using assms by (simp add: from_le_bytes_def)

lemma first_some_rev_upt:
  assumes "a \<le> t" and "t < n" and "f t = Some y" and "\<And>j. t < j \<Longrightarrow> j < n \<Longrightarrow> f j = None"
  shows "first_some f (rev [a..<n]) = Some y"
  using assms
proof (induction n)
  case (Suc n)
  then show ?case
  proof (cases "t = n")
    case False
    then have "first_some f (rev [a..<n]) = Some y" and "f n = None" using Suc by auto
    then show ?thesis using Suc.prems by simp
  qed simp
qed simp

lemma find_config_bundle:
  assumes "bx_de_config X cj = Inr config" and "cj \<noteq> []" and "length cj < 1000000"
    and "\<And>c. c \<in> set cj \<Longrightarrow> 32 \<le> byte c" and "bundle = pre @ to_le_bytes (of_nat (length cj)) @ cj"
    and "es \<le> length pre"
  shows "find_config X bundle es = Some (config, length pre)"
  unfolding find_config_def
proof (rule first_some_rev_upt)
  have "unat (of_nat (length cj) :: u32) = length cj"
    using assms(3) by (simp add: unat_of_nat take_bit_nat_eq_self)
  then show "try_config X bundle (length pre) = Some (config, length pre)"
    using assms(1,3,5) from_to_le_bytes [of "of_nat (length cj)"] by (simp add: try_config_def Let_def)
  show "length pre < length bundle - 4" using assms(2,5) by simp
next
  fix j
  assume j: "length pre < j" "j < length bundle - 4"
  have whole: "bundle = (pre @ to_le_bytes (of_nat (length cj))) @ cj" using assms(5) by simp
  have "take 4 (drop j bundle) ! 3 = bundle ! (j + 3)" using j by simp
  also have "\<dots> = cj ! (j + 3 - (length pre + 4))" using j unfolding whole nth_append by simp
  finally have "take 4 (drop j bundle) ! 3 = cj ! (j + 3 - (length pre + 4))" .
  moreover have "j + 3 - (length pre + 4) < length cj" using j assms(5) by simp
  ultimately have "take 4 (drop j bundle) ! 3 \<in> set cj" by (metis nth_mem)
  then have "\<not> from_le_bytes (take 4 (drop j bundle)) < 1000000"
    using assms(4) by (intro from_le_bytes_large) blast
  then show "try_config X bundle j = None" by (simp add: try_config_def Let_def)
qed (use assms(6) in simp)

text \<open>
  What the subcommands rely on: the serialisers and the cipher are inverse to each other, and the JSON
  text of a configuration is not empty and has no control characters.
\<close>

definition backup_laws :: "'x backup_ext \<Rightarrow> bool" where
  "backup_laws X \<longleftrightarrow>
     (\<forall>es b. bx_ser_entries X es = Inr b \<longrightarrow> bx_de_entries X b = Inr es) \<and>
     (\<forall>h b. bx_ser_header X h = Inr b \<longrightarrow> bx_de_header X b = Inr h) \<and>
     (\<forall>c b. bx_ser_config X c = Inr b \<longrightarrow> bx_de_config X b = Inr c \<and> b \<noteq> [] \<and> (\<forall>ch\<in>set b. 32 \<le> byte ch)) \<and>
     (\<forall>k p a b. bx_encrypt X k p a = Inr b \<longrightarrow> bx_decrypt X k b a = Inr p)"

lemma parse_header_bundle:
  assumes "bx_de_header X hj = Inr header" and "length hj < 2 ^ 32"
  shows "parse_header X (export_bundle hj enc cj) = Inr (header, hj)"
proof -
  have "unat (of_nat (length hj) :: u32) = length hj"
    using assms(2) by (simp add: unat_of_nat take_bit_nat_eq_self)
  then show ?thesis
    using assms(1) from_to_le_bytes [of "of_nat (length hj)"]
    by (simp add: parse_header_def export_bundle_def EXPORT_MAGIC_def Let_def)
qed

lemma decrypt_entries_bundle:
  assumes "backup_laws X" and "bx_ser_config X config = Inr cj" and "length cj < 1000000"
    and "bx_encrypt X k payload hj = Inr enc" and "bx_ser_entries X entries = Inr payload"
  shows "decrypt_entries X k hj (export_bundle hj enc cj) = Inr (config, entries)"
proof -
  let ?pre = "EXPORT_MAGIC @ to_le_bytes (of_nat (length hj)) @ hj @ enc"
  have len: "length ?pre = 8 + length hj + length enc" by (simp add: EXPORT_MAGIC_def)
  have config: "bx_de_config X cj = Inr config" "cj \<noteq> []" "\<And>c. c \<in> set cj \<Longrightarrow> 32 \<le> byte c"
    using assms(1,2) unfolding backup_laws_def by blast+
  have found: "find_config X (export_bundle hj enc cj) (8 + length hj) = Some (config, 8 + length hj + length enc)"
    using find_config_bundle [OF config(1,2) assms(3) config(3), of "export_bundle hj enc cj" ?pre "8 + length hj"]
    unfolding len by (simp add: export_bundle_def)
  have middle: "take (length enc) (drop (8 + length hj) (export_bundle hj enc cj)) = enc"
  proof -
    have "export_bundle hj enc cj = (EXPORT_MAGIC @ to_le_bytes (of_nat (length hj)) @ hj) @ enc @
        to_le_bytes (of_nat (length cj)) @ cj" by (simp add: export_bundle_def)
    moreover have "length (EXPORT_MAGIC @ to_le_bytes (of_nat (length hj)) @ hj) = 8 + length hj"
      by (simp add: EXPORT_MAGIC_def)
    ultimately show ?thesis by (simp del: append_assoc add: drop_append)
  qed
  have "bx_decrypt X k enc hj = Inr payload" and "bx_de_entries X payload = Inr entries"
    using assms(1,4,5) unfolding backup_laws_def by blast+
  moreover have "\<not> length (export_bundle hj enc cj) < 8 + length hj + 4"
    by (simp add: export_bundle_def EXPORT_MAGIC_def)
  ultimately show ?thesis
    unfolding decrypt_entries_def Let_def found by (simp add: middle)
qed

section \<open>Replaying versions\<close>

text \<open>
  What the replay relies on: an operation that is applied is appended to the log and sets the current
  version of its key, and a new namespace has no keys. \<open>lg\<close> reads the log of the engine.
\<close>

definition replay_laws :: "('s, 'x) replay_engine \<Rightarrow> ('s \<Rightarrow> 'x wal_op list) \<Rightarrow> bool" where
  "replay_laws E lg \<longleftrightarrow>
     (\<forall>oper s. fst (re_apply E oper s) = Inr () \<and> lg (snd (re_apply E oper s)) = lg s @ [oper]) \<and>
     (\<forall>ns c t n k s. re_current E n k (snd (re_apply E (NamespaceCreated ns c t) s)) =
        (if n = ns then None else re_current E n k s)) \<and>
     (\<forall>ns key val m v a n k s. re_current E n k (snd (re_apply E (EntryPut ns key val m v a) s)) =
        (if n = ns \<and> k = key then Some v else re_current E n k s)) \<and>
     (\<forall>ns key v a n k s. re_current E n k (snd (re_apply E (EntryDeleted ns key v a) s)) =
        (if n = ns \<and> k = key then Some v else re_current E n k s)) \<and>
     (\<forall>s. fst (re_snapshot E s) = Inr () \<and> lg (snd (re_snapshot E s)) = lg s) \<and>
     (\<forall>s. fst (re_shutdown E s) = Inr () \<and> lg (snd (re_shutdown E s)) = lg s)"

text \<open>The operation that writes a version again under a new number.\<close>

definition rewritten :: "string \<Rightarrow> bytes \<Rightarrow> u64 \<Rightarrow> 'x version_record \<Rightarrow> 'x wal_op" where
  "rewritten ns key v r = (case rec_state r of
     Active \<Rightarrow> EntryPut ns key (the (rec_value r)) (rec_metadata r) v (rec_actor r)
   | Deleted \<Rightarrow> EntryDeleted ns key v (rec_actor r))"

text \<open>The versions of a key, numbered again without gaps.\<close>

fun renumbered :: "string \<Rightarrow> bytes \<Rightarrow> u64 \<Rightarrow> (u64 \<times> 'x version_record) list \<Rightarrow> 'x wal_op list" where
  "renumbered ns key v [] = []"
| "renumbered ns key v ((_, r) # rs) = rewritten ns key v r # renumbered ns key (v + 1) rs"

definition renumbered_keys :: "string \<Rightarrow> (bytes \<times> (u64 \<times> 'x version_record) list) list \<Rightarrow> 'x wal_op list" where
  "renumbered_keys ns keys = concat (map (\<lambda>(key, versions). renumbered ns key 1 versions) keys)"

definition resident :: "(bytes \<times> (u64 \<times> 'x version_record) list) list \<Rightarrow> bool" where
  "resident keys = list_all (\<lambda>(_, versions). list_all (\<lambda>(_, r). rec_value r \<noteq> None) versions) keys"

text \<open>
  A step that writes one version under the next number: the import step and the rekey step are two.
\<close>

locale version_writer =
  fixes E :: "('s, 'x) replay_engine" and lg :: "'s \<Rightarrow> 'x wal_op list"
    and store_version :: "string \<Rightarrow> bytes \<Rightarrow> 'v \<Rightarrow> 's \<Rightarrow> ('e + unit) \<times> 's"
    and origin :: "'v \<Rightarrow> 'x version_record \<Rightarrow> bool"
  assumes writes: "origin v r \<Longrightarrow> replay_laws E lg \<Longrightarrow>
    \<exists>s'. store_version ns key v s = (Inr (), s') \<and> lg s' = lg s @ [rewritten ns key (next_version E ns key s) r] \<and>
      re_current E ns key s' = Some (next_version E ns key s) \<and>
      (\<forall>n k. (n, k) \<noteq> (ns, key) \<longrightarrow> re_current E n k s' = re_current E n k s)"
begin

lemma write_versions:
  assumes "replay_laws E lg" and "list_all2 (\<lambda>v (_, r). origin v r) vs rs"
  shows "\<exists>s'. each (store_version ns key) vs s = (Inr (), s') \<and> lg s' = lg s @ renumbered ns key (next_version E ns key s) rs \<and>
    (\<forall>n k. (n, k) \<noteq> (ns, key) \<longrightarrow> re_current E n k s' = re_current E n k s)"
  using assms(2)
proof (induction vs arbitrary: rs s)
  case (Cons v vs)
  then obtain w r rs' where rs: "rs = (w, r) # rs'" and v: "origin v r" and vs: "list_all2 (\<lambda>v (_, r). origin v r) vs rs'"
    by (auto simp: list_all2_Cons1)
  obtain s1 where s1: "store_version ns key v s = (Inr (), s1)" "lg s1 = lg s @ [rewritten ns key (next_version E ns key s) r]"
      "re_current E ns key s1 = Some (next_version E ns key s)"
      "\<forall>n k. (n, k) \<noteq> (ns, key) \<longrightarrow> re_current E n k s1 = re_current E n k s"
    using writes [OF v assms(1)] by blast
  have "next_version E ns key s1 = next_version E ns key s + 1" using s1(3) by (simp add: next_version_def)
  then obtain s' where "each (store_version ns key) vs s1 = (Inr (), s')"
      "lg s' = lg s1 @ renumbered ns key (next_version E ns key s + 1) rs'"
      "\<forall>n k. (n, k) \<noteq> (ns, key) \<longrightarrow> re_current E n k s' = re_current E n k s1"
    using Cons.IH [OF vs, of s1] by auto
  then show ?case using s1 rs by simp
qed simp

lemma write_keys:
  assumes "replay_laws E lg" and "list_all2 (\<lambda>(key, vs) (key', rs). key = key' \<and> list_all2 (\<lambda>v (_, r). origin v r) vs rs) es keys"
    and "distinct (map fst keys)" and "\<And>k. k \<in> fst ` set keys \<Longrightarrow> re_current E ns k s = None"
  shows "\<exists>s'. each (\<lambda>(key, vs). each (store_version ns key) vs) es s = (Inr (), s') \<and> lg s' = lg s @ renumbered_keys ns keys \<and>
    (\<forall>n k. n \<noteq> ns \<longrightarrow> re_current E n k s' = re_current E n k s)"
  using assms(2-)
proof (induction es arbitrary: keys s)
  case (Cons e es)
  obtain key vs where e: "e = (key, vs)" by fastforce
  then obtain rs keys' where keys: "keys = (key, rs) # keys'" and vs: "list_all2 (\<lambda>v (_, r). origin v r) vs rs"
      and es: "list_all2 (\<lambda>(key, vs) (key', rs). key = key' \<and> list_all2 (\<lambda>v (_, r). origin v r) vs rs) es keys'"
    using Cons.prems(1) by (auto simp: list_all2_Cons1)
  have "next_version E ns key s = 1" using Cons.prems(3) keys by (simp add: next_version_def)
  then obtain s1 where s1: "each (store_version ns key) vs s = (Inr (), s1)" "lg s1 = lg s @ renumbered ns key 1 rs"
      "\<forall>n k. (n, k) \<noteq> (ns, key) \<longrightarrow> re_current E n k s1 = re_current E n k s"
    using write_versions [OF assms(1) vs, of ns key s] by auto
  have "re_current E ns k s1 = None" if "k \<in> fst ` set keys'" for k
  proof -
    have "k \<noteq> key" using that Cons.prems(2) keys by auto
    then have "re_current E ns k s1 = re_current E ns k s" using s1(3) by simp
    also have "\<dots> = None" using that Cons.prems(3) keys by simp
    finally show ?thesis .
  qed
  then obtain s' where "each (\<lambda>(key, vs). each (store_version ns key) vs) es s1 = (Inr (), s')"
      "lg s' = lg s1 @ renumbered_keys ns keys'" "\<forall>n k. n \<noteq> ns \<longrightarrow> re_current E n k s' = re_current E n k s1"
    using Cons.IH [OF es, of s1] Cons.prems(2) keys by auto
  then show ?case using s1 e keys by (simp add: renumbered_keys_def)
qed (simp add: renumbered_keys_def)

end

text \<open>A law of the engine, one operation at a time.\<close>

lemma apply_or_laws:
  assumes "replay_laws E lg"
  obtains s' where "apply_or E what oper s = (Inr (), s')" and "s' = snd (re_apply E oper s)" and "lg s' = lg s @ [oper]"
proof -
  obtain s' where s': "re_apply E oper s = (Inr (), s')"
    using assms unfolding replay_laws_def by (metis prod.collapse)
  moreover have "lg s' = lg s @ [oper]" using assms s' unfolding replay_laws_def by (metis snd_conv)
  ultimately show thesis by (intro that [of s']) (simp_all add: apply_or_def)
qed

lemma rewritten_current:
  assumes "replay_laws E lg"
  shows "re_current E n k (snd (re_apply E (rewritten ns key v r) s)) =
    (if n = ns \<and> k = key then Some v else re_current E n k s)"
  using assms unfolding replay_laws_def rewritten_def by (cases "rec_state r") simp_all

lemma created_current:
  assumes "replay_laws E lg"
  shows "re_current E n k (snd (re_apply E (NamespaceCreated ns c t) s)) = (if n = ns then None else re_current E n k s)"
  using assms unfolding replay_laws_def by simp

lemma import_version_rewritten:
  assumes "to_export_version r = Some v"
  shows "\<exists>what. import_version E ns key v s = apply_or E what (rewritten ns key (next_version E ns key s) r) s"
  using assms by (auto simp: import_version_def to_export_version_def rewritten_def Let_def split: entry_state.splits)

lemma rekey_version_rewritten:
  assumes "rec_value r \<noteq> None"
  shows "\<exists>what. rekey_version E ns key r s =
    (case apply_or E what (rewritten ns key (next_version E ns key s) r) s of (res, s1) \<Rightarrow> (map_err Some res, s1))"
  using assms by (auto simp: rekey_version_def rewritten_def Let_def split: entry_state.splits)

interpretation importer: version_writer E lg "import_version E" "\<lambda>v r. to_export_version r = Some v" for E lg
proof unfold_locales
  fix v :: "'b export_version" and r ns key s
  assume v: "to_export_version r = Some v" and laws: "replay_laws E lg"
  let ?op = "rewritten ns key (next_version E ns key s) r"
  obtain what where "import_version E ns key v s = apply_or E what ?op s"
    using import_version_rewritten [OF v, of E ns key s] by (elim exE)
  moreover obtain s' where "apply_or E what ?op s = (Inr (), s')" "s' = snd (re_apply E ?op s)" "lg s' = lg s @ [?op]"
    by (rule apply_or_laws [OF laws])
  ultimately show "\<exists>s'. import_version E ns key v s = (Inr (), s') \<and> lg s' = lg s @ [?op] \<and>
      re_current E ns key s' = Some (next_version E ns key s) \<and>
      (\<forall>n k. (n, k) \<noteq> (ns, key) \<longrightarrow> re_current E n k s' = re_current E n k s)"
    using rewritten_current [OF laws] by (intro exI [of _ s']) auto
qed

interpretation rekeyer: version_writer E lg "\<lambda>ns key v. rekey_version E ns key (snd v)" "\<lambda>v r. snd v = r \<and> rec_value r \<noteq> None" for E lg
proof unfold_locales
  fix v :: "'c \<times> 'b version_record" and r ns key s
  assume v: "snd v = r \<and> rec_value r \<noteq> None" and laws: "replay_laws E lg"
  let ?op = "rewritten ns key (next_version E ns key s) r"
  have vw: "snd v = r" and val: "rec_value r \<noteq> None" using v by simp_all
  obtain what where "rekey_version E ns key r s = (case apply_or E what ?op s of (res, s1) \<Rightarrow> (map_err Some res, s1))"
    using rekey_version_rewritten [OF val, of E ns key s] by (elim exE)
  moreover obtain s' where "apply_or E what ?op s = (Inr (), s')" "s' = snd (re_apply E ?op s)" "lg s' = lg s @ [?op]"
    by (rule apply_or_laws [OF laws])
  ultimately show "\<exists>s'. rekey_version E ns key (snd v) s = (Inr (), s') \<and> lg s' = lg s @ [?op] \<and>
      re_current E ns key s' = Some (next_version E ns key s) \<and>
      (\<forall>n k. (n, k) \<noteq> (ns, key) \<longrightarrow> re_current E n k s' = re_current E n k s)"
    using rewritten_current [OF laws] vw by (intro exI [of _ s']) auto
qed

section \<open>Export, import and rekey\<close>

lemma those_map_all:
  assumes "\<And>x. x \<in> set xs \<Longrightarrow> \<exists>y. f x = Some y"
  shows "\<exists>ys. those (map f xs) = Some ys \<and> list_all2 (\<lambda>y x. f x = Some y) ys xs"
  using assms
proof (induction xs)
  case (Cons x xs)
  obtain y where "f x = Some y" using Cons.prems by auto
  moreover obtain ys where "those (map f xs) = Some ys" "list_all2 (\<lambda>y x. f x = Some y) ys xs" using Cons by auto
  ultimately show ?case by (intro exI [of _ "y # ys"]) simp
qed simp

lemma export_entry_resident:
  assumes "list_all (\<lambda>(_, r). rec_value r \<noteq> None) versions"
  shows "\<exists>e. to_export_entry (key, versions) = Some e \<and> xe_key e = key \<and>
    list_all2 (\<lambda>v (_, r). to_export_version r = Some v) (xe_versions e) versions"
proof -
  have "\<exists>y. (to_export_version \<circ> snd) x = Some y" if "x \<in> set versions" for x
    using that assms by (auto simp: list_all_iff to_export_version_def)
  then obtain vs where "those (map (to_export_version \<circ> snd) versions) = Some vs"
      "list_all2 (\<lambda>y x. (to_export_version \<circ> snd) x = Some y) vs versions"
    using those_map_all [of versions "to_export_version \<circ> snd"] by blast
  then show ?thesis by (auto simp: to_export_entry_def case_prod_beta elim!: list_all2_mono)
qed

lemma export_entries_resident:
  assumes "resident keys"
  shows "\<exists>es. those (map to_export_entry keys) = Some es \<and> length es = length keys \<and>
    list_all2 (\<lambda>(key, vs) (key', rs). key = key' \<and> list_all2 (\<lambda>v (_, r). to_export_version r = Some v) vs rs)
      (map (\<lambda>e. (xe_key e, xe_versions e)) es) keys"
  using assms
proof (induction keys)
  case (Cons kv keys)
  obtain key versions where kv: "kv = (key, versions)" by fastforce
  obtain e where e: "to_export_entry kv = Some e" "xe_key e = key"
      "list_all2 (\<lambda>v (_, r). to_export_version r = Some v) (xe_versions e) versions"
    using export_entry_resident [of versions key] Cons.prems kv by (auto simp: resident_def)
  obtain es where "those (map to_export_entry keys) = Some es" "length es = length keys"
      "list_all2 (\<lambda>(key, vs) (key', rs). key = key' \<and> list_all2 (\<lambda>v (_, r). to_export_version r = Some v) vs rs)
        (map (\<lambda>e. (xe_key e, xe_versions e)) es) keys"
    using Cons by (auto simp: resident_def)
  then show ?case using e kv by (intro exI [of _ "e # es"]) simp
qed simp

lemma each_map: "each f (map g xs) s = each (f \<circ> g) xs s"
  by (induction xs arbitrary: s) (simp_all split: prod.split sum.split)

lemma import_entries_renumbered:
  assumes "replay_laws E lg" and "those (map to_export_entry keys) = Some es" and "resident keys"
    and "distinct (map fst keys)" and "\<And>k. re_current E ns k s = None"
  shows "\<exists>s'. import_entries E ns es s = (Inr (), s') \<and> lg s' = lg s @ renumbered_keys ns keys"
proof -
  have related: "list_all2 (\<lambda>(key, vs) (key', rs). key = key' \<and> list_all2 (\<lambda>v (_, r). to_export_version r = Some v) vs rs)
      (map (\<lambda>e. (xe_key e, xe_versions e)) es) keys"
    using export_entries_resident [OF assms(3)] assms(2) by auto
  have "import_entries E ns es s =
      each (\<lambda>(key, vs). each (import_version E ns key) vs) (map (\<lambda>e. (xe_key e, xe_versions e)) es) s"
    by (simp add: import_entries_def each_map comp_def)
  then show ?thesis
    using importer.write_keys [OF assms(1) related assms(4), of ns s] assms(5) by auto
qed

text \<open>An engine whose state is its log, and a serialiser that knows one namespace.\<close>

definition current_after :: "string \<Rightarrow> bytes \<Rightarrow> u64 option \<Rightarrow> 'x wal_op \<Rightarrow> u64 option" where
  "current_after n k cur oper = (case oper of
     NamespaceCreated ns _ _ \<Rightarrow> if n = ns then None else cur
   | EntryPut ns key _ _ v _ \<Rightarrow> if n = ns \<and> k = key then Some v else cur
   | EntryDeleted ns key v _ \<Rightarrow> if n = ns \<and> k = key then Some v else cur)"

definition log_engine :: "('x wal_op list, 'x) replay_engine" where
  "log_engine = \<lparr>
     re_exists = \<lambda>n s. list_ex (\<lambda>oper. case oper of NamespaceCreated ns _ _ \<Rightarrow> n = ns | _ \<Rightarrow> False) s,
     re_current = \<lambda>n k s. foldl (current_after n k) None s,
     re_apply = \<lambda>oper s. (Inr (), s @ [oper]), re_snapshot = \<lambda>s. (Inr (), s), re_shutdown = \<lambda>s. (Inr (), s)\<rparr>"

lemma log_engine_laws: "replay_laws log_engine id"
  by (simp add: replay_laws_def log_engine_def current_after_def)

definition demo_namespace :: "string ns_state" where
  "demo_namespace = \<lparr>
     ns_config = \<lparr>nc_meta_schema = None, nc_max_versions = Some 3, nc_tombstone_retention_secs = None\<rparr>, ns_created_at = 9,
     ns_keys = [(''k'', [
       (5, \<lparr>rec_state = Active, rec_value = Some ''a'', rec_metadata = ''m'', rec_updated_at = 1, rec_actor = ''al'', rec_expires_at_ms = Some 8\<rparr>),
       (7, \<lparr>rec_state = Deleted, rec_value = Some [], rec_metadata = ''m'', rec_updated_at = 2, rec_actor = ''bo'', rec_expires_at_ms = None\<rparr>)])]\<rparr>"

definition demo_entries :: "string export_entry list" where
  "demo_entries = [\<lparr>xe_key = ''k'', xe_versions = [
     \<lparr>xv_state = 0, xv_value = ''a'', xv_metadata = ''m'', xv_updated_at = 1, xv_actor = ''al''\<rparr>,
     \<lparr>xv_state = 1, xv_value = [], xv_metadata = ''m'', xv_updated_at = 2, xv_actor = ''bo''\<rparr>]\<rparr>]"

definition demo_header :: export_header where
  "demo_header = \<lparr>xh_namespace = ''ns'', xh_version = 1, xh_created_at = 9, xh_key_count = 1\<rparr>"

definition only :: "'a \<Rightarrow> 'b \<Rightarrow> 'a \<Rightarrow> string + 'b" where
  "only a b x = (if x = a then Inr b else Inl ''unsupported'')"

definition demo_backup :: "string backup_ext" where
  "demo_backup = \<lparr>
     bx_ser_entries = only demo_entries ''p'', bx_de_entries = only ''p'' demo_entries,
     bx_ser_header = only demo_header ''h'', bx_de_header = only ''h'' demo_header,
     bx_ser_config = only (ns_config demo_namespace) ''{}'', bx_de_config = only ''{}'' (ns_config demo_namespace),
     bx_encrypt = \<lambda>k p a. Inr (k @ p), bx_decrypt = \<lambda>k c a. Inr (drop (length k) c)\<rparr>"

lemma demo_backup_laws: "backup_laws demo_backup"
  by (simp add: backup_laws_def demo_backup_def only_def split: if_splits)

lemma demo_exported: "those (map to_export_entry (ns_keys demo_namespace)) = Some demo_entries"
  by (simp add: to_export_entry_def to_export_version_def demo_namespace_def demo_entries_def)

text \<open>
  C17: A namespace that is exported can be imported. On resident values \<open>run_export\<close> writes a bundle
  (it does not panic and meets no error), the backward scan of \<open>run_import\<close> finds the configuration section
  that the export appended, and the import logs exactly: the namespace under its new name with the exported
  configuration and creation time, then for every key its versions in order, with their values,
  metadata and actors, numbered again from 1.
\<close>

theorem export_import:
  assumes "backup_laws X" and "replay_laws E lg" and "index namespace = Some ns" and "resident (ns_keys ns)"
    and "distinct (map fst (ns_keys ns))"
    and "\<forall>es. those (map to_export_entry (ns_keys ns)) = Some es \<longrightarrow> (\<exists>p. bx_ser_entries X es = Inr p)"
    and "bx_ser_header X \<lparr>xh_namespace = namespace, xh_version = 1, xh_created_at = ns_created_at ns,
           xh_key_count = of_nat (length (ns_keys ns))\<rparr> = Inr hj" and "length hj < 2 ^ 32"
    and "\<forall>p. \<exists>c. bx_encrypt X k p hj = Inr c"
    and "bx_ser_config X (ns_config ns) = Inr cj" and "length cj < 1000000"
    and "target = (case rename of Some n \<Rightarrow> n | None \<Rightarrow> namespace)" and "\<not> re_exists E target s"
  shows "\<exists>bundle s'. run_export X index (Inr k) namespace = Some (Inr bundle) \<and>
    run_import X E (Inr k) bundle rename s = (Inr (length (ns_keys ns)), s') \<and>
    lg s' = lg s @ NamespaceCreated target (ns_config ns) (ns_created_at ns) # renumbered_keys target (ns_keys ns)"
proof -
  let ?h = "\<lparr>xh_namespace = namespace, xh_version = 1, xh_created_at = ns_created_at ns,
    xh_key_count = of_nat (length (ns_keys ns))\<rparr>"
  obtain es where es: "those (map to_export_entry (ns_keys ns)) = Some es" "length es = length (ns_keys ns)"
    using export_entries_resident [OF assms(4)] by blast
  obtain payload where payload: "bx_ser_entries X es = Inr payload" using assms(6) es(1) by blast
  obtain enc where enc: "bx_encrypt X k payload hj = Inr enc" using assms(9) by blast
  let ?b = "export_bundle hj enc cj"
  have exported: "run_export X index (Inr k) namespace = Some (Inr ?b)"
    using assms(3,7,10) es payload enc by (simp add: run_export_def)
  have "bx_de_header X hj = Inr ?h" using assms(1,7) unfolding backup_laws_def by blast
  then have header: "parse_header X ?b = Inr (?h, hj)" using assms(8) by (rule parse_header_bundle)
  have entries: "decrypt_entries X k hj ?b = Inr (ns_config ns, es)"
    by (rule decrypt_entries_bundle [OF assms(1,10,11) enc payload])
  obtain s1 where s1: "apply_or E ''failed to create namespace'' (NamespaceCreated target (ns_config ns) (ns_created_at ns)) s = (Inr (), s1)"
      "s1 = snd (re_apply E (NamespaceCreated target (ns_config ns) (ns_created_at ns)) s)"
      "lg s1 = lg s @ [NamespaceCreated target (ns_config ns) (ns_created_at ns)]"
    by (rule apply_or_laws [OF assms(2)])
  have "re_current E target key s1 = None" for key using created_current [OF assms(2)] s1(2) by simp
  then obtain s2 where s2: "import_entries E target es s1 = (Inr (), s2)" "lg s2 = lg s1 @ renumbered_keys target (ns_keys ns)"
    using import_entries_renumbered [OF assms(2) es(1) assms(4,5)] by blast
  obtain s3 where s3: "re_snapshot E s2 = (Inr (), s3)" "lg s3 = lg s2"
    using assms(2) unfolding replay_laws_def by (metis prod.collapse)
  obtain s4 where s4: "re_shutdown E s3 = (Inr (), s4)" "lg s4 = lg s3"
    using assms(2) unfolding replay_laws_def by (metis prod.collapse)
  have "run_import X E (Inr k) ?b rename s = (Inr (length (ns_keys ns)), s4)"
    using header entries s1(1) s2(1) s3(1) s4(1) es(2) assms(12,13)
    by (simp add: run_import_def Let_def cong: option.case_cong)
  then show ?thesis using exported s1(3) s2(2) s3(2) s4(2) by (intro exI [of _ ?b] exI [of _ s4]) simp
qed

theorem export_import_witness:
  "\<exists>bundle. run_export demo_backup [''ns'' \<mapsto> demo_namespace] (Inr ''key'') ''ns'' = Some (Inr bundle) \<and>
     run_import demo_backup log_engine (Inr ''key'') bundle (Some ''copy'') [] =
       (Inr 1, [NamespaceCreated ''copy'' (ns_config demo_namespace) 9, EntryPut ''copy'' ''k'' ''a'' ''m'' 1 ''al'',
          EntryDeleted ''copy'' ''k'' 2 ''bo''])"
  using export_import [OF demo_backup_laws log_engine_laws, of "[''ns'' \<mapsto> demo_namespace]" "''ns''" demo_namespace "''h''" "''key''" "''{}''"
      "''copy''" "Some ''copy''" "[]"] demo_exported
  by (simp add: demo_backup_def only_def demo_header_def resident_def demo_namespace_def log_engine_def
      renumbered_keys_def rewritten_def)

text \<open>What a replayed namespace leaves in the log.\<close>

definition rewritten_namespace :: "string \<times> 'x ns_state \<Rightarrow> 'x wal_op list" where
  "rewritten_namespace named = (case named of (ns, st) \<Rightarrow>
     NamespaceCreated ns (ns_config st) (ns_created_at st) # renumbered_keys ns (ns_keys st))"

lemma rekey_namespace_renumbered:
  assumes "replay_laws E lg" and "resident (ns_keys st)" and "distinct (map fst (ns_keys st))"
  shows "\<exists>s'. rekey_namespace E (ns, st) s = (Inr (), s') \<and> lg s' = lg s @ rewritten_namespace (ns, st)"
proof -
  let ?created = "NamespaceCreated ns (ns_config st) (ns_created_at st)"
  obtain s1 where s1: "apply_or E (''failed to create namespace '' @ ns) ?created s = (Inr (), s1)"
      "s1 = snd (re_apply E ?created s)" "lg s1 = lg s @ [?created]"
    by (rule apply_or_laws [OF assms(1)])
  have none: "re_current E ns k s1 = None" for k using created_current [OF assms(1)] s1(2) by simp
  have "list_all2 (\<lambda>v (_, r). snd v = r \<and> rec_value r \<noteq> None) vs vs" if "list_all (\<lambda>(_, r). rec_value r \<noteq> None) vs"
    for vs :: "(u64 \<times> 'b version_record) list"
    using that by (intro list.rel_refl_strong) (auto simp: list_all_iff)
  then have "list_all2 (\<lambda>(key, vs) (key', rs). key = key' \<and> list_all2 (\<lambda>v (_, r). snd v = r \<and> rec_value r \<noteq> None) vs rs)
      (ns_keys st) (ns_keys st)"
    using assms(2) by (intro list.rel_refl_strong) (auto simp: resident_def list_all_iff)
  from rekeyer.write_keys [OF assms(1) this assms(3) none]
  obtain s' where "each (\<lambda>(key, vs). each (\<lambda>v. rekey_version E ns key (snd v)) vs) (ns_keys st) s1 = (Inr (), s')"
      "lg s' = lg s1 @ renumbered_keys ns (ns_keys st)" by blast
  moreover have "(\<lambda>(_ :: u64, r). rekey_version E ns key r) = (\<lambda>v. rekey_version E ns key (snd v))" for key
    by (simp add: fun_eq_iff case_prod_beta)
  ultimately show ?thesis using s1(1,3) by (simp add: rekey_namespace_def rewritten_namespace_def)
qed

lemma rekey_replay_renumbered:
  assumes "replay_laws E lg" and "list_all (\<lambda>(_, st). resident (ns_keys st) \<and> distinct (map fst (ns_keys st))) data"
  shows "\<exists>s'. rekey_replay E data s = (Inr (), s') \<and> lg s' = lg s @ concat (map rewritten_namespace data)"
  unfolding rekey_replay_def using assms(2)
proof (induction data arbitrary: s)
  case (Cons named data)
  obtain ns st where named: "named = (ns, st)" by fastforce
  obtain s1 where s1: "rekey_namespace E named s = (Inr (), s1)" "lg s1 = lg s @ rewritten_namespace named"
    using rekey_namespace_renumbered [OF assms(1), of st ns s] Cons.prems named by auto
  obtain s' where "each (rekey_namespace E) data s1 = (Inr (), s')"
      "lg s' = lg s1 @ concat (map rewritten_namespace data)"
    using Cons.IH [of s1] Cons.prems by auto
  then show ?case using s1 by simp
qed simp


text \<open>A disk with the demonstration namespace, on which every key of 32 bytes opens.\<close>

definition demo_rekey :: "(string wal_op list, string) rekey_env" where
  "demo_rekey = \<lparr>rk_bind = ''127.0.0.1:6399'', rk_port_free = True, rk_decode = Inr,
     rk_open = \<lambda>k s. (if s = [] then (Inr [], s) else (Inr [(''ns'', demo_namespace)], s)),
     rk_close = \<lambda>s. (Inr (), s), rk_wipe = \<lambda>s. (Inr (), []), rk_engine = \<lambda>_. log_engine\<rparr>"


text \<open>The old data is removed before the replay: a value that is not in memory panics on an emptied directory.\<close>

lemma rekey_panics_after_wipe:
  assumes "rk_port_free K" and "rekey_keys (rk_decode K) old_hex new_hex = Inr (old, new)"
    and "rk_open K old s = (Inr [(ns, \<lparr>ns_config = c, ns_created_at = t, ns_keys = [(key, [(v, r)])]\<rparr>)], s1)"
    and "rk_close K s1 = (Inr (), s2)" and "rk_wipe K s2 = (Inr (), s3)"
    and "rk_open K new s3 = (Inr [], s4)" and "replay_laws (rk_engine K new) lg" and "lg s4 = []"
    and "rec_state r = Active" and "rec_value r = None"
  shows "\<exists>s'. run_rekey K old_hex new_hex s = (Inl None, s') \<and> lg s' = [NamespaceCreated ns c t]"
proof -
  obtain s' where "apply_or (rk_engine K new) (''failed to create namespace '' @ ns) (NamespaceCreated ns c t) s4 = (Inr (), s')"
      "lg s' = lg s4 @ [NamespaceCreated ns c t]"
    by (rule apply_or_laws [OF assms(7)])
  then show ?thesis
    using assms(1-6,8-10)
    by (simp add: run_rekey_def and_then_def with_context_def rekey_replay_def rekey_namespace_def rekey_version_def)
qed

end
