(* ===== verification/Mem_Store.thy ===== *)
theory Mem_Store
  imports Handlers "HOL-Library.AList"
begin

text \<open>
  A small in-memory store, used to evaluate the definitions on concrete inputs. It keeps one version
  per key, knows every namespace, and its clock advances by one nanosecond per operation.
\<close>

record mem =
  m_data :: "((string \<times> bytes) \<times> bytes \<times> u64) list"
  m_clock :: nat

definition tick :: "mem \<Rightarrow> mem" where
  "tick s = s\<lparr>m_clock := Suc (m_clock s)\<rparr>"

definition mem_version :: "string \<Rightarrow> bytes \<Rightarrow> mem \<Rightarrow> u64" where
  "mem_version ns key s = (case map_of (m_data s) (ns, key) of None \<Rightarrow> 0 | Some (_, v) \<Rightarrow> v)"

definition mem_put :: "string \<Rightarrow> bytes \<Rightarrow> bytes \<Rightarrow> (mem, 'x, u64) op" where
  "mem_put ns key val s =
     (let v = mem_version ns key s + 1 in
      (Inr v, (tick s)\<lparr>m_data := AList.update (ns, key) (val, v) (m_data s)\<rparr>))"

definition mem_get :: "string \<Rightarrow> bytes \<Rightarrow> u64 option \<Rightarrow> (mem, string, string entry) op" where
  "mem_get ns key version s =
     (case map_of (m_data s) (ns, key) of
        None \<Rightarrow> (Inl SE_NotFound, tick s)
      | Some (val, v) \<Rightarrow>
          if version = None \<or> version = Some v
          then (Inr \<lparr>e_key = key, e_value = val, e_metadata = ''{}'', e_version = v\<rparr>, tick s)
          else (Inl SE_NotFound, tick s))"

definition mem_delete :: "string \<Rightarrow> bytes \<Rightarrow> (mem, 'x, u64) op" where
  "mem_delete ns key s =
     (case map_of (m_data s) (ns, key) of
        None \<Rightarrow> (Inl SE_NotFound, tick s)
      | Some (val, v) \<Rightarrow> (Inr (v + 1), (tick s)\<lparr>m_data := AList.delete (ns, key) (m_data s)\<rparr>))"

definition mem_put_if :: "string \<Rightarrow> bytes \<Rightarrow> bytes \<Rightarrow> u64 \<Rightarrow> (mem, 'x, u64) op" where
  "mem_put_if ns key val expected s =
     (if mem_version ns key s = expected then mem_put ns key val s
      else (Inl (SE_VersionConflict (mem_version ns key s)), tick s))"

definition mem_delete_if :: "string \<Rightarrow> bytes \<Rightarrow> u64 \<Rightarrow> (mem, 'x, u64) op" where
  "mem_delete_if ns key expected s =
     (if mem_version ns key s = expected then mem_delete ns key s
      else (Inl (SE_VersionConflict (mem_version ns key s)), tick s))"

definition mem_matching :: "string \<Rightarrow> bytes option \<Rightarrow> mem \<Rightarrow> bytes list" where
  "mem_matching ns pre s =
     map (snd \<circ> fst) (filter (\<lambda>((n, k), _). n = ns \<and> (case pre of None \<Rightarrow> True | Some p \<Rightarrow> prefix p k)) (m_data s))"

definition mem_delete_prefix :: "string \<Rightarrow> bytes \<Rightarrow> (mem, 'x, u64) op" where
  "mem_delete_prefix ns pre s =
     (Inr (of_nat (length (mem_matching ns (Some pre) s))),
      (tick s)\<lparr>m_data := filter (\<lambda>((n, k), _). \<not> (n = ns \<and> prefix pre k)) (m_data s)\<rparr>)"

definition mem_store :: "(mem, string) store" where
  "mem_store = \<lparr>
     st_put_with_options = (\<lambda>ns key val _. mem_put ns key val),
     st_get = mem_get,
     st_delete = mem_delete,
     st_put_if_version = (\<lambda>ns key val _. mem_put_if ns key val),
     st_delete_if_version = mem_delete_if,
     st_delete_prefix = mem_delete_prefix,
     st_list = (\<lambda>ns pre _ limit s. (Inr \<lparr>p_keys = take (unat limit) (mem_matching ns pre s), p_cursor = None\<rparr>, tick s)),
     st_versions = (\<lambda>ns key _ _ s. (Inr [\<lparr>vi_version = mem_version ns key s, vi_state = Active,
        vi_updated_at = 0, vi_actor = ''anonymous''\<rparr>], tick s)),
     st_namespace_create = (\<lambda>_ _ s. (Inr (), tick s)),
     st_namespace_drop = (\<lambda>ns _ s. (Inr (), (tick s)\<lparr>m_data := filter (\<lambda>((n, _), _). n \<noteq> ns) (m_data s)\<rparr>)),
     st_namespace_list = (\<lambda>_ limit s. (Inr \<lparr>p_keys = take (unat limit) (remdups (map (fst \<circ> fst) (m_data s))),
        p_cursor = None\<rparr>, tick s)),
     st_namespace_info = (\<lambda>ns s. (Inr \<lparr>ni_name = ns, ni_key_count = of_nat (length (mem_matching ns None s)),
        ni_created_at = 0\<rparr>, tick s)),
     st_namespace_alter = (\<lambda>_ _ s. (Inr (), tick s)),
     st_namespace_validate = (\<lambda>_ s. (Inr [], tick s)) \<rparr>"

definition mem_empty :: mem where
  "mem_empty = \<lparr>m_data = [], m_clock = 0\<rparr>"

lemmas mem_store_simps = mem_store_def mem_put_def mem_get_def mem_delete_def mem_put_if_def mem_delete_if_def
  mem_delete_prefix_def tick_def

end
