(* ===== verification/Idempotency.thy ===== *)
theory Idempotency
  imports Resp3 "HOL-Library.Mapping"
begin

text \<open>
  The pipeline idempotency map, \<open>shroudb-protocol/src/idempotency.rs\<close>, and the interface that the
  dispatcher relies on, as the locale \<open>response_cache\<close>. An \<open>Instant\<close> is a number of nanoseconds on
  the monotonic clock; every operation takes the instant at which it reads the clock.
\<close>

section \<open>The interface\<close>

text \<open>
  A cache of responses whose entries are visible while they are fresh: \<open>fresh c t u\<close> says that an
  entry made in \<open>c\<close> at time \<open>t\<close> is still visible at time \<open>u\<close>. Lookups and pruning only ever remove
  what is no longer visible.
\<close>

datatype ('k, 'v) cache_op = Op_get nat 'k | Op_insert nat 'k 'v | Op_prune nat

fun op_time :: "('k, 'v) cache_op \<Rightarrow> nat" where
  "op_time (Op_get t k) = t"
| "op_time (Op_insert t k v) = t"
| "op_time (Op_prune t) = t"

fun op_inserts :: "'k \<Rightarrow> ('k, 'v) cache_op \<Rightarrow> bool" where
  "op_inserts k (Op_insert t k' v) = (k = k')"
| "op_inserts k _ = False"

fun cache_step :: "(nat \<Rightarrow> 'k \<Rightarrow> 'c \<Rightarrow> 'v option \<times> 'c) \<Rightarrow> (nat \<Rightarrow> 'k \<Rightarrow> 'v \<Rightarrow> 'c \<Rightarrow> 'c) \<Rightarrow> (nat \<Rightarrow> 'c \<Rightarrow> 'c) \<Rightarrow>
    ('k, 'v) cache_op \<Rightarrow> 'c \<Rightarrow> 'c" where
  "cache_step get ins prune (Op_get t k) c = snd (get t k c)"
| "cache_step get ins prune (Op_insert t k v) c = ins t k v c"
| "cache_step get ins prune (Op_prune t) c = prune t c"

locale response_cache =
  fixes get :: "nat \<Rightarrow> 'k \<Rightarrow> 'c \<Rightarrow> 'v option \<times> 'c"
    and ins :: "nat \<Rightarrow> 'k \<Rightarrow> 'v \<Rightarrow> 'c \<Rightarrow> 'c"
    and prune :: "nat \<Rightarrow> 'c \<Rightarrow> 'c"
    and fresh :: "'c \<Rightarrow> nat \<Rightarrow> nat \<Rightarrow> bool"
  assumes get_insert_same: "fst (get u k (ins t k v c)) = (if fresh c t u then Some v else None)"
    and get_insert_other: "k \<noteq> k' \<Longrightarrow> fst (get u k' (ins t k v c)) = fst (get u k' c)"
    and get_get: "t \<le> u \<Longrightarrow> fst (get u k' (snd (get t k c))) = fst (get u k' c)"
    and get_prune: "t \<le> u \<Longrightarrow> fst (get u k (prune t c)) = fst (get u k c)"
begin

lemma get_step:
  "op_time oper \<le> u \<Longrightarrow> \<not> op_inserts k oper \<Longrightarrow>
     fst (get u k (cache_step get ins prune oper c)) = fst (get u k c)"
  by (cases oper) (simp_all add: get_get get_prune get_insert_other)

lemma get_steps:
  "\<forall>oper \<in> set ops. op_time oper \<le> u \<and> \<not> op_inserts k oper \<Longrightarrow>
     fst (get u k (fold (cache_step get ins prune) ops c)) = fst (get u k c)"
  by (induction ops arbitrary: c) (auto simp: get_step)

lemma replay:
  assumes "\<forall>oper \<in> set ops. op_time oper \<le> u \<and> \<not> op_inserts k oper"
  shows "fst (get u k (fold (cache_step get ins prune) ops (ins t k v c))) =
    (if fresh c t u then Some v else None)"
  by (simp add: get_steps [OF assms] get_insert_same)

end

section \<open>The map\<close>

record cached_response =
  frame :: resp3_frame
  created_at :: nat

record idempotency_map =
  entries :: "(string, cached_response) mapping"
  ttl_secs :: u64

definition DEFAULT_TTL_SECS :: u64 where "DEFAULT_TTL_SECS = 300"

definition idempotency_new :: idempotency_map where
  "idempotency_new = \<lparr>entries = Mapping.empty, ttl_secs = DEFAULT_TTL_SECS\<rparr>"

text \<open>\<open>created_at.elapsed().as_secs()\<close>; \<open>Instant\<close> differences saturate at zero.\<close>

definition elapsed_secs :: "nat \<Rightarrow> nat \<Rightarrow> nat" where
  "elapsed_secs now t = (now - t) div 10 ^ 9"

definition idempotency_get :: "nat \<Rightarrow> string \<Rightarrow> idempotency_map \<Rightarrow> resp3_frame option \<times> idempotency_map" where
  "idempotency_get now request_id m =
     (case Mapping.lookup (entries m) request_id of
        None \<Rightarrow> (None, m)
      | Some entry \<Rightarrow>
          if unat (ttl_secs m) \<le> elapsed_secs now (created_at entry)
          then (None, m\<lparr>entries := Mapping.delete request_id (entries m)\<rparr>)
          else (Some (frame entry), m))"

definition idempotency_insert :: "nat \<Rightarrow> string \<Rightarrow> resp3_frame \<Rightarrow> idempotency_map \<Rightarrow> idempotency_map" where
  "idempotency_insert now request_id f m =
     m\<lparr>entries := Mapping.update request_id \<lparr>frame = f, created_at = now\<rparr> (entries m)\<rparr>"

definition idempotency_prune :: "nat \<Rightarrow> idempotency_map \<Rightarrow> idempotency_map" where
  "idempotency_prune now m =
     m\<lparr>entries := Mapping.filter (\<lambda>_ entry. elapsed_secs now (created_at entry) < unat (ttl_secs m)) (entries m)\<rparr>"

definition idempotency_len :: "idempotency_map \<Rightarrow> nat" where
  "idempotency_len m = Mapping.size (entries m)"

definition idempotency_is_empty :: "idempotency_map \<Rightarrow> bool" where
  "idempotency_is_empty m = Mapping.is_empty (entries m)"

section \<open>The map implements the interface\<close>

definition idempotency_fresh :: "idempotency_map \<Rightarrow> nat \<Rightarrow> nat \<Rightarrow> bool" where
  "idempotency_fresh m t u \<longleftrightarrow> elapsed_secs u t < unat (ttl_secs m)"

lemma elapsed_secs_mono: "t \<le> u \<Longrightarrow> elapsed_secs t c \<le> elapsed_secs u c"
  by (simp add: elapsed_secs_def div_le_mono)

lemma idempotency_get_fst:
  "fst (idempotency_get now k m) =
     (case Mapping.lookup (entries m) k of
        None \<Rightarrow> None
      | Some e \<Rightarrow> if idempotency_fresh m (created_at e) now then Some (frame e) else None)"
  by (simp add: idempotency_get_def idempotency_fresh_def split: option.splits)

lemma ttl_secs_ops [simp]:
  "ttl_secs (snd (idempotency_get t k m)) = ttl_secs m"
  "ttl_secs (idempotency_insert t k f m) = ttl_secs m"
  "ttl_secs (idempotency_prune t m) = ttl_secs m"
  by (simp_all add: idempotency_get_def idempotency_insert_def idempotency_prune_def split: option.splits)

lemma idempotency_fresh_ops [simp]:
  "idempotency_fresh (snd (idempotency_get t k m)) = idempotency_fresh m"
  "idempotency_fresh (idempotency_insert t k f m) = idempotency_fresh m"
  "idempotency_fresh (idempotency_prune t m) = idempotency_fresh m"
  by (simp_all add: idempotency_fresh_def fun_eq_iff)

lemma lookup_after_get:
  "Mapping.lookup (entries (snd (idempotency_get t k m))) k' =
     (case Mapping.lookup (entries m) k' of
        None \<Rightarrow> None
      | Some e \<Rightarrow> if k' = k \<and> \<not> idempotency_fresh m (created_at e) t then None else Some e)"
  by (cases "k = k'")
    (auto simp: idempotency_get_def idempotency_fresh_def lookup_delete lookup_delete_neq not_less
      split: option.splits)

lemma lookup_after_prune:
  "Mapping.lookup (entries (idempotency_prune t m)) k =
     (case Mapping.lookup (entries m) k of
        None \<Rightarrow> None
      | Some e \<Rightarrow> if idempotency_fresh m (created_at e) t then Some e else None)"
  by (simp add: idempotency_prune_def idempotency_fresh_def Mapping.lookup_filter split: option.splits)

lemma fresh_antimono: "t \<le> u \<Longrightarrow> idempotency_fresh m c u \<Longrightarrow> idempotency_fresh m c t"
  unfolding idempotency_fresh_def using elapsed_secs_mono [of t u c] by simp

interpretation idem: response_cache idempotency_get idempotency_insert idempotency_prune idempotency_fresh
proof
  show "fst (idempotency_get u k (idempotency_insert t k v c)) = (if idempotency_fresh c t u then Some v else None)"
    for u k t v c
    by (simp add: idempotency_get_fst idempotency_insert_def idempotency_fresh_def)
  show "k \<noteq> k' \<Longrightarrow> fst (idempotency_get u k' (idempotency_insert t k v c)) = fst (idempotency_get u k' c)"
    for k k' u t v c
    by (simp add: idempotency_get_fst idempotency_insert_def lookup_update_neq idempotency_fresh_def
        split: option.splits)
  show "t \<le> u \<Longrightarrow> fst (idempotency_get u k' (snd (idempotency_get t k c))) = fst (idempotency_get u k' c)"
    for t u k k' c
    by (auto simp: idempotency_get_fst lookup_after_get dest: fresh_antimono split: option.splits)
  show "t \<le> u \<Longrightarrow> fst (idempotency_get u k (idempotency_prune t c)) = fst (idempotency_get u k c)" for t u k c
    by (auto simp: idempotency_get_fst lookup_after_prune dest: fresh_antimono split: option.splits)
qed

section \<open>Properties\<close>

text \<open>
  A response cached under a request id at time \<open>t\<close> is what a lookup at time \<open>u\<close> returns as long as
  fewer than the configured seconds have elapsed, and nothing after that, whatever lookups, prunings
  and insertions under other ids happen in between.
\<close>

lemma idempotency_replay:
  assumes "\<forall>oper \<in> set ops. op_time oper \<le> u \<and> \<not> op_inserts k oper"
  shows "fst (idempotency_get u k
      (fold (cache_step idempotency_get idempotency_insert idempotency_prune) ops (idempotency_insert t k f m))) =
    (if elapsed_secs u t < unat (ttl_secs m) then Some f else None)"
  using idem.replay [OF assms] by (simp add: idempotency_fresh_def)

text \<open>
  Pruning at time \<open>t\<close> keeps exactly the entries that a lookup at time \<open>t\<close> would still return, so
  after it no expired entry occupies memory.
\<close>

lemma idempotency_prune_exact:
  "Mapping.lookup (entries (idempotency_prune t m)) k =
     (if fst (idempotency_get t k m) = None then None else Mapping.lookup (entries m) k)"
  by (simp add: lookup_after_prune idempotency_get_fst split: option.splits)

end
