(* ===== verification/Parse_Command.thy ===== *)
theory Parse_Command
  imports Command
begin

text \<open>
  The command parser, \<open>shroudb-protocol/src/resp3/parse_command.rs\<close>: from a frame to a command.
  Each \<open>while i < args.len()\<close> loop over an argument slice is a recursive function over the
  arguments from index \<open>i\<close> on, with the loop's mutable variables as parameters.
\<close>

section \<open>Arguments\<close>

definition frame_to_string :: "resp3_frame \<Rightarrow> 'x command_error + string" where
  "frame_to_string frame =
     (case frame of
        BulkString b \<Rightarrow> if utf8_valid b then Inr b else Inl (BadArg ''invalid UTF-8 in argument'')
      | SimpleString s \<Rightarrow> Inr s
      | Integer i \<Rightarrow> Inr (i64_to_string i)
      | _ \<Rightarrow> Inl (BadArg ''expected string or bulk string argument''))"

definition require_args :: "string list \<Rightarrow> nat \<Rightarrow> string \<Rightarrow> 'x command_error + unit" where
  "require_args args mn cmd =
     (if length args < mn
      then Inl (BadArg (cmd @ '' requires at least '' @ dec_of_nat mn @ '' argument(s)''))
      else Inr ())"

definition parse_u64_arg :: "string \<Rightarrow> string \<Rightarrow> 'x command_error + u64" where
  "parse_u64_arg message s = map_err (\<lambda>_. BadArg message) (parse_u64 s)"

definition parse_usize_arg :: "string \<Rightarrow> string \<Rightarrow> 'x command_error + usize" where
  "parse_usize_arg message s = map_err (\<lambda>_. BadArg message) (parse_usize s)"

definition parse_json_arg :: "'x ext \<Rightarrow> string \<Rightarrow> string \<Rightarrow> 'x command_error + 'x" where
  "parse_json_arg X what s = map_err (\<lambda>e. BadArg (''invalid '' @ what @ '' JSON: '' @ e)) (json_from_str X s)"

definition unexpected :: "string \<Rightarrow> 'x command_error" where
  "unexpected a = BadArg (''unexpected argument: '' @ a)"

section \<open>Connection and data commands\<close>

definition parse_auth :: "string list \<Rightarrow> 'x command_error + 'x command" where
  "parse_auth args =
     try_res (require_args args 1 ''AUTH'') (\<lambda>_. Inr (Auth (args ! 0)))"

fun put_loop :: "'x ext \<Rightarrow> string list \<Rightarrow> bytes \<Rightarrow> 'x option \<Rightarrow> u64 option \<Rightarrow>
    'x command_error + bytes \<times> 'x option \<times> u64 option" where
  "put_loop X [] val meta ttl = Inr (val, meta, ttl)"
| "put_loop X (a # as) val meta ttl =
     (let upper = to_ascii_uppercase a in
      if upper = ''VALUE'' then
        (case as of [] \<Rightarrow> Inl (BadArg ''VALUE requires a value'')
         | b # bs \<Rightarrow> put_loop X bs b meta ttl)
      else if upper = ''META'' then
        (case as of [] \<Rightarrow> Inl (BadArg ''META requires a JSON value'')
         | b # bs \<Rightarrow> try_res (parse_json_arg X ''META'' b) (\<lambda>json. put_loop X bs val (Some json) ttl))
      else if upper = ''TTL'' then
        (case as of [] \<Rightarrow> Inl (BadArg ''TTL requires a duration in milliseconds'')
         | b # bs \<Rightarrow> try_res (parse_u64_arg ''TTL must be a non-negative integer (milliseconds)'' b)
             (\<lambda>n. put_loop X bs val meta (Some n)))
      else Inl (unexpected a))"

definition parse_put :: "'x ext \<Rightarrow> string list \<Rightarrow> 'x command_error + 'x command" where
  "parse_put X args =
     try_res (require_args args 2 ''PUT'') (\<lambda>_.
     if length args = 3 then Inr (Put (args ! 0) (args ! 1) (args ! 2) None None)
     else try_res (put_loop X (drop 2 args) [] None None) (\<lambda>(val, meta, ttl).
       Inr (Put (args ! 0) (args ! 1) val meta ttl)))"

fun get_loop :: "string list \<Rightarrow> u64 option \<Rightarrow> bool \<Rightarrow> 'x command_error + u64 option \<times> bool" where
  "get_loop [] version meta = Inr (version, meta)"
| "get_loop (a # as) version meta =
     (let upper = to_ascii_uppercase a in
      if upper = ''VERSION'' then
        (case as of [] \<Rightarrow> Inl (BadArg ''VERSION requires a number'')
         | b # bs \<Rightarrow> try_res (parse_u64_arg ''VERSION must be a positive integer'' b)
             (\<lambda>n. get_loop bs (Some n) meta))
      else if upper = ''META'' then get_loop as version True
      else Inl (unexpected a))"

definition parse_get :: "string list \<Rightarrow> 'x command_error + 'x command" where
  "parse_get args =
     try_res (require_args args 2 ''GET'') (\<lambda>_.
     try_res (get_loop (drop 2 args) None False) (\<lambda>(version, meta).
       Inr (Get (args ! 0) (args ! 1) version meta)))"

definition parse_delete :: "string list \<Rightarrow> 'x command_error + 'x command" where
  "parse_delete args =
     try_res (require_args args 2 ''DELETE'') (\<lambda>_. Inr (Delete (args ! 0) (args ! 1)))"

fun put_if_loop :: "'x ext \<Rightarrow> string list \<Rightarrow> u64 option \<Rightarrow> 'x option \<Rightarrow>
    'x command_error + u64 option \<times> 'x option" where
  "put_if_loop X [] expected meta = Inr (expected, meta)"
| "put_if_loop X (a # as) expected meta =
     (let upper = to_ascii_uppercase a in
      if upper = ''EXPECT'' then
        (case as of [] \<Rightarrow> Inl (BadArg ''EXPECT requires a version'')
         | b # bs \<Rightarrow> try_res (parse_u64_arg ''EXPECT must be a non-negative integer'' b)
             (\<lambda>n. put_if_loop X bs (Some n) meta))
      else if upper = ''META'' then
        (case as of [] \<Rightarrow> Inl (BadArg ''META requires a JSON value'')
         | b # bs \<Rightarrow> try_res (parse_json_arg X ''META'' b) (\<lambda>json. put_if_loop X bs expected (Some json)))
      else Inl (unexpected a))"

definition parse_put_if :: "'x ext \<Rightarrow> string list \<Rightarrow> 'x command_error + 'x command" where
  "parse_put_if X args =
     try_res (require_args args 5 ''PUTIF'') (\<lambda>_.
     try_res (put_if_loop X (drop 3 args) None None) (\<lambda>(expected, meta).
     try_res (ok_or expected (BadArg ''PUTIF requires EXPECT <version>'')) (\<lambda>v.
       Inr (PutIf (args ! 0) (args ! 1) (args ! 2) meta v))))"

definition parse_del_prefix :: "string list \<Rightarrow> 'x command_error + 'x command" where
  "parse_del_prefix args =
     try_res (require_args args 2 ''DELPREFIX'') (\<lambda>_.
     if args ! 1 = [] then
       Inl (BadArg ''DELPREFIX: empty prefix not allowed; use NAMESPACE DROP for full-namespace teardown'')
     else if 2 < length args then Inl (unexpected (args ! 2))
     else Inr (DelPrefix (args ! 0) (args ! 1)))"

definition parse_del_if :: "string list \<Rightarrow> 'x command_error + 'x command" where
  "parse_del_if args =
     try_res (require_args args 4 ''DELIF'') (\<lambda>_.
     if \<not> eq_ignore_ascii_case (args ! 2) ''EXPECT'' then
       Inl (BadArg (''DELIF: expected EXPECT keyword, got '' @ args ! 2))
     else try_res (parse_u64_arg ''EXPECT must be a non-negative integer'' (args ! 3)) (\<lambda>v.
       if 4 < length args then Inl (unexpected (args ! 4))
       else Inr (DelIf (args ! 0) (args ! 1) v)))"

fun list_loop :: "string list \<Rightarrow> bytes option \<Rightarrow> string option \<Rightarrow> usize option \<Rightarrow>
    'x command_error + bytes option \<times> string option \<times> usize option" where
  "list_loop [] pre cursor limit = Inr (pre, cursor, limit)"
| "list_loop (a # as) pre cursor limit =
     (let upper = to_ascii_uppercase a in
      if upper = ''PREFIX'' then
        (case as of [] \<Rightarrow> Inl (BadArg ''PREFIX requires a value'')
         | b # bs \<Rightarrow> list_loop bs (Some b) cursor limit)
      else if upper = ''CURSOR'' then
        (case as of [] \<Rightarrow> Inl (BadArg ''CURSOR requires a value'')
         | b # bs \<Rightarrow> list_loop bs pre (Some b) limit)
      else if upper = ''LIMIT'' then
        (case as of [] \<Rightarrow> Inl (BadArg ''LIMIT requires a number'')
         | b # bs \<Rightarrow> try_res (parse_usize_arg ''LIMIT must be a positive integer'' b)
             (\<lambda>n. list_loop bs pre cursor (Some n)))
      else Inl (unexpected a))"

definition parse_list :: "string list \<Rightarrow> 'x command_error + 'x command" where
  "parse_list args =
     try_res (require_args args 1 ''LIST'') (\<lambda>_.
     try_res (list_loop (drop 1 args) None None None) (\<lambda>(pre, cursor, limit).
       Inr (List (args ! 0) pre cursor limit)))"

fun versions_loop :: "string list \<Rightarrow> usize option \<Rightarrow> u64 option \<Rightarrow>
    'x command_error + usize option \<times> u64 option" where
  "versions_loop [] limit frm = Inr (limit, frm)"
| "versions_loop (a # as) limit frm =
     (let upper = to_ascii_uppercase a in
      if upper = ''LIMIT'' then
        (case as of [] \<Rightarrow> Inl (BadArg ''LIMIT requires a number'')
         | b # bs \<Rightarrow> try_res (parse_usize_arg ''LIMIT must be a positive integer'' b)
             (\<lambda>n. versions_loop bs (Some n) frm))
      else if upper = ''FROM'' then
        (case as of [] \<Rightarrow> Inl (BadArg ''FROM requires a version number'')
         | b # bs \<Rightarrow> try_res (parse_u64_arg ''FROM must be a positive integer'' b)
             (\<lambda>n. versions_loop bs limit (Some n)))
      else Inl (unexpected a))"

definition parse_versions :: "string list \<Rightarrow> 'x command_error + 'x command" where
  "parse_versions args =
     try_res (require_args args 2 ''VERSIONS'') (\<lambda>_.
     try_res (versions_loop (drop 2 args) None None) (\<lambda>(limit, frm).
       Inr (Versions (args ! 0) (args ! 1) limit frm)))"

section \<open>Namespace commands\<close>

fun create_loop :: "'x ext \<Rightarrow> string list \<Rightarrow> 'x option \<Rightarrow> u64 option \<Rightarrow> u64 option \<Rightarrow>
    'x command_error + 'x option \<times> u64 option \<times> u64 option" where
  "create_loop X [] schema mv tr = Inr (schema, mv, tr)"
| "create_loop X (a # as) schema mv tr =
     (let upper = to_ascii_uppercase a in
      if upper = ''SCHEMA'' then
        (case as of [] \<Rightarrow> Inl (BadArg ''SCHEMA requires a JSON value'')
         | b # bs \<Rightarrow> try_res (parse_json_arg X ''SCHEMA'' b) (\<lambda>json. create_loop X bs (Some json) mv tr))
      else if upper = ''MAX_VERSIONS'' then
        (case as of [] \<Rightarrow> Inl (BadArg ''MAX_VERSIONS requires a number'')
         | b # bs \<Rightarrow> try_res (parse_u64_arg ''MAX_VERSIONS must be a positive integer'' b)
             (\<lambda>n. create_loop X bs schema (Some n) tr))
      else if upper = ''TOMBSTONE_RETENTION'' then
        (case as of [] \<Rightarrow> Inl (BadArg ''TOMBSTONE_RETENTION requires a number (seconds)'')
         | b # bs \<Rightarrow> try_res (parse_u64_arg ''TOMBSTONE_RETENTION must be a positive integer'' b)
             (\<lambda>n. create_loop X bs schema mv (Some n)))
      else Inl (unexpected a))"

definition parse_namespace_create :: "'x ext \<Rightarrow> string list \<Rightarrow> 'x command_error + 'x command" where
  "parse_namespace_create X sub_args =
     try_res (require_args sub_args 1 ''NAMESPACE CREATE'') (\<lambda>_.
     try_res (create_loop X (drop 1 sub_args) None None None) (\<lambda>(schema, mv, tr).
       Inr (NamespaceCreate (sub_args ! 0) schema mv tr)))"

definition parse_namespace_drop :: "string list \<Rightarrow> 'x command_error + 'x command" where
  "parse_namespace_drop sub_args =
     try_res (require_args sub_args 1 ''NAMESPACE DROP'') (\<lambda>_.
       Inr (NamespaceDrop (sub_args ! 0)
         (case slice_get sub_args 1 of None \<Rightarrow> False | Some s \<Rightarrow> eq_ignore_ascii_case s ''FORCE'')))"

fun namespace_list_loop :: "string list \<Rightarrow> string option \<Rightarrow> usize option \<Rightarrow> string option \<times> usize option" where
  "namespace_list_loop [] cursor limit = (cursor, limit)"
| "namespace_list_loop (a # as) cursor limit =
     (let upper = to_ascii_uppercase a in
      if upper = ''CURSOR'' then
        (case as of [] \<Rightarrow> (None, limit) | b # bs \<Rightarrow> namespace_list_loop bs (Some b) limit)
      else if upper = ''LIMIT'' then
        (case as of [] \<Rightarrow> (cursor, None)
         | b # bs \<Rightarrow> namespace_list_loop bs cursor (res_ok (parse_usize b)))
      else namespace_list_loop as cursor limit)"

fun alter_loop :: "'x ext \<Rightarrow> string list \<Rightarrow> 'x option \<Rightarrow> u64 option \<Rightarrow> u64 option \<Rightarrow>
    'x option \<times> u64 option \<times> u64 option" where
  "alter_loop X [] schema mv tr = (schema, mv, tr)"
| "alter_loop X (a # as) schema mv tr =
     (let upper = to_ascii_uppercase a in
      if upper = ''SCHEMA'' then
        (case as of [] \<Rightarrow> (None, mv, tr)
         | b # bs \<Rightarrow> alter_loop X bs (res_ok (json_from_str X b)) mv tr)
      else if upper = ''MAX_VERSIONS'' then
        (case as of [] \<Rightarrow> (schema, None, tr)
         | b # bs \<Rightarrow> alter_loop X bs schema (res_ok (parse_u64 b)) tr)
      else if upper = ''TOMBSTONE_RETENTION'' then
        (case as of [] \<Rightarrow> (schema, mv, None)
         | b # bs \<Rightarrow> alter_loop X bs schema mv (res_ok (parse_u64 b)))
      else alter_loop X as schema mv tr)"

definition parse_namespace_alter :: "'x ext \<Rightarrow> string list \<Rightarrow> 'x command_error + 'x command" where
  "parse_namespace_alter X sub_args =
     try_res (require_args sub_args 1 ''NAMESPACE ALTER'') (\<lambda>_.
       case alter_loop X (drop 1 sub_args) None None None of
         (schema, mv, tr) \<Rightarrow> Inr (NamespaceAlter (sub_args ! 0) schema mv tr))"

definition parse_namespace :: "'x ext \<Rightarrow> string list \<Rightarrow> 'x command_error + 'x command" where
  "parse_namespace X args =
     try_res (require_args args 1 ''NAMESPACE'') (\<lambda>_.
     let sub = to_ascii_uppercase (args ! 0); sub_args = drop 1 args in
     if sub = ''CREATE'' then parse_namespace_create X sub_args
     else if sub = ''DROP'' then parse_namespace_drop sub_args
     else if sub = ''LIST'' then
       (case namespace_list_loop sub_args None None of (cursor, limit) \<Rightarrow> Inr (NamespaceList cursor limit))
     else if sub = ''INFO'' then
       try_res (require_args sub_args 1 ''NAMESPACE INFO'') (\<lambda>_. Inr (NamespaceInfo (sub_args ! 0)))
     else if sub = ''ALTER'' then parse_namespace_alter X sub_args
     else if sub = ''VALIDATE'' then
       try_res (require_args sub_args 1 ''NAMESPACE VALIDATE'') (\<lambda>_. Inr (NamespaceValidate (sub_args ! 0)))
     else Inl (BadArg (''unknown NAMESPACE subcommand: '' @ sub)))"

section \<open>Streaming, configuration and key management commands\<close>

function (sequential) subscribe_loop ::
    "string list \<Rightarrow> bytes option \<Rightarrow> string list \<Rightarrow> bytes option \<times> string list" where
  "subscribe_loop [] key events = (key, events)"
| "subscribe_loop (a # as) key events =
     (let upper = to_ascii_uppercase a in
      if upper = ''KEY'' then
        (case as of [] \<Rightarrow> (key, events) | b # bs \<Rightarrow> subscribe_loop bs (Some b) events)
      else if upper = ''EVENTS'' then
        subscribe_loop (dropWhile (\<lambda>e. to_ascii_uppercase e \<noteq> ''KEY'') as) key
          (events @ map to_ascii_uppercase (takeWhile (\<lambda>e. to_ascii_uppercase e \<noteq> ''KEY'') as))
      else subscribe_loop as key events)"
  by pat_completeness auto
termination
  by (relation "measure (\<lambda>(args, _, _). length args)") (auto simp: less_Suc_eq_le length_dropWhile_le)

definition parse_subscribe :: "string list \<Rightarrow> 'x command_error + 'x command" where
  "parse_subscribe args =
     try_res (require_args args 1 ''SUBSCRIBE'') (\<lambda>_.
       case subscribe_loop (drop 1 args) None [] of
         (key, events) \<Rightarrow> Inr (Subscribe (args ! 0) key events))"

definition parse_config :: "string list \<Rightarrow> 'x command_error + 'x command" where
  "parse_config args =
     try_res (require_args args 1 ''CONFIG'') (\<lambda>_.
     let sub = to_ascii_uppercase (args ! 0) in
     if sub = ''GET'' then
       try_res (require_args (drop 1 args) 1 ''CONFIG GET'') (\<lambda>_. Inr (ConfigGet (args ! 1)))
     else if sub = ''SET'' then
       try_res (require_args (drop 1 args) 2 ''CONFIG SET'') (\<lambda>_. Inr (ConfigSet (args ! 1) (args ! 2)))
     else Inl (BadArg (''unknown CONFIG subcommand: '' @ sub)))"

definition parse_rekey :: "string list \<Rightarrow> 'x command_error + 'x command" where
  "parse_rekey args =
     (if args = [] then Inl (BadArg ''REKEY requires a subcommand: <new_key_hex> or STATUS'')
      else if eq_ignore_ascii_case (args ! 0) ''STATUS'' then Inr RekeyStatus
      else if length (args ! 0) \<noteq> 64 then
        Inl (BadArg (''REKEY key must be 32 bytes (64 hex chars), got '' @ dec_of_nat (length (args ! 0)) @ '' chars''))
      else if \<not> list_all is_ascii_hexdigit (args ! 0) then Inl (BadArg ''REKEY key is not valid hex'')
      else Inr (Rekey (args ! 0)))"

definition parse_command_sub :: "string list \<Rightarrow> 'x command_error + 'x command" where
  "parse_command_sub args =
     (if args = [] \<or> eq_ignore_ascii_case (args ! 0) ''LIST'' then Inr CommandList
      else Inl (BadArg (''unknown COMMAND subcommand: '' @ args ! 0)))"

section \<open>The dispatch on the verb\<close>

definition parse_flat :: "'x ext \<Rightarrow> string list \<Rightarrow> 'x command_error + 'x command" where
  "parse_flat X strings =
     (let verb = to_ascii_uppercase (strings ! 0); args = drop 1 strings in
      if verb = ''AUTH'' then parse_auth args
      else if verb = ''PING'' then Inr Ping
      else if verb = ''PUT'' then parse_put X args
      else if verb = ''GET'' then parse_get args
      else if verb = ''DELETE'' then parse_delete args
      else if verb = ''PUTIF'' then parse_put_if X args
      else if verb = ''DELIF'' then parse_del_if args
      else if verb = ''DELPREFIX'' then parse_del_prefix args
      else if verb = ''LIST'' then parse_list args
      else if verb = ''VERSIONS'' then parse_versions args
      else if verb = ''NAMESPACE'' then parse_namespace X args
      else if verb = ''SUBSCRIBE'' then parse_subscribe args
      else if verb = ''UNSUBSCRIBE'' then Inr Unsubscribe
      else if verb = ''HEALTH'' then Inr Health
      else if verb = ''CONFIG'' then parse_config args
      else if verb = ''COMMAND'' then parse_command_sub args
      else if verb = ''REKEY'' then parse_rekey args
      else Inl (BadArg (''unknown command: '' @ verb)))"

text \<open>The leading keywords of a pipeline, up to the first nested array.\<close>

definition is_array :: "resp3_frame \<Rightarrow> bool" where
  "is_array frame = (case frame of Array _ \<Rightarrow> True | _ \<Rightarrow> False)"

fun pipeline_keywords :: "resp3_frame list \<Rightarrow> string option \<Rightarrow>
    'x command_error + string option \<times> resp3_frame list" where
  "pipeline_keywords [] rid = Inr (rid, [])"
| "pipeline_keywords (el # els) rid =
     (if is_array el then Inr (rid, el # els)
      else try_res (frame_to_string el) (\<lambda>s.
        if eq_ignore_ascii_case s ''REQUEST_ID'' then
          (case els of
             [] \<Rightarrow> Inl (BadArg ''REQUEST_ID requires a value'')
           | v # els' \<Rightarrow> try_res (frame_to_string v) (\<lambda>id. pipeline_keywords els' (Some id)))
        else Inl (BadArg (''unexpected PIPELINE keyword: '' @ s))))"

lemma pipeline_keywords_suffix:
  "pipeline_keywords els rid = Inr (rid', rest) \<Longrightarrow> suffix rest els"
  by (induction els arbitrary: rid rule: induct_list012)
    (auto split: if_splits simp: suffix_ConsI)

lemma size_list_suffix: "suffix xs ys \<Longrightarrow> size_list f xs \<le> size_list f ys"
  by (induction ys) (auto simp: suffix_Cons)

lemma pipeline_keywords_size:
  "pipeline_keywords els rid = Inr (rid', rest) \<Longrightarrow> size_list size rest \<le> size_list size els"
  by (rule size_list_suffix) (rule pipeline_keywords_suffix)

function (sequential)
  parse_command :: "'x ext \<Rightarrow> resp3_frame \<Rightarrow> 'x command_error + 'x command"
  and parse_pipeline_frame :: "'x ext \<Rightarrow> resp3_frame list \<Rightarrow> 'x command_error + 'x command"
  and parse_subcommands :: "'x ext \<Rightarrow> nat \<Rightarrow> resp3_frame list \<Rightarrow> 'x command_error + 'x command list"
where
  "parse_command X (Array parts) =
     (case parts of
        [] \<Rightarrow> Inl (BadArg ''empty command'')
      | part # rest \<Rightarrow>
          try_res (frame_to_string part) (\<lambda>verb.
          if eq_ignore_ascii_case verb ''PIPELINE'' then parse_pipeline_frame X rest
          else try_res (collect_res frame_to_string parts) (\<lambda>strings. parse_flat X strings)))"
| "parse_command X _ = Inl (BadArg ''expected array frame'')"
| "parse_pipeline_frame X elements =
     (if elements = [] then Inl (BadArg ''PIPELINE requires at least one command'')
      else try_res (pipeline_keywords elements None) (\<lambda>(request_id, rest).
        try_res (parse_subcommands X 0 rest) (\<lambda>commands.
          if commands = [] then Inl (BadArg ''PIPELINE requires at least one command'')
          else Inr (Pipeline commands request_id))))"
| "parse_subcommands X i [] = Inr []"
| "parse_subcommands X i (frame # frames) =
     try_res (map_err (\<lambda>e. PipelineAborted (of_nat i) (command_error_to_string X e)) (parse_command X frame))
       (\<lambda>cmd. try_res (parse_subcommands X (Suc i) frames) (\<lambda>cmds. Inr (cmd # cmds)))"
  by pat_completeness auto
termination
  apply (relation "measure (\<lambda>x. case x of Inl (X, f) \<Rightarrow> 2 * size f
      | Inr (Inl (X, els)) \<Rightarrow> Suc (2 * size_list size els) | Inr (Inr (X, i, fs)) \<Rightarrow> 2 * size_list size fs)")
  apply (auto dest!: pipeline_keywords_size)
  done

declare parse_pipeline_frame.simps [simp del]

section \<open>What a parsed command guarantees\<close>

text \<open>
  The checks that later stages rely on: \<open>DELPREFIX\<close> never carries the empty prefix, \<open>REKEY\<close>
  carries 64 hexadecimal digits, the event names of \<open>SUBSCRIBE\<close> are in upper case and not the keyword
  that ends them, and a pipeline has at least one sub-command.
\<close>

fun command_wf :: "'x command \<Rightarrow> bool" where
  "command_wf (DelPrefix ns pre) = (pre \<noteq> [])"
| "command_wf (Rekey hex) = (length hex = 64 \<and> list_all is_ascii_hexdigit hex)"
| "command_wf (Subscribe ns key events) = list_all (\<lambda>e. to_ascii_uppercase e = e \<and> e \<noteq> ''KEY'') events"
| "command_wf (Pipeline cmds rid) = (cmds \<noteq> [] \<and> list_all command_wf cmds)"
| "command_wf _ = True"

text \<open>How deep the pipelines of a command are nested; a command that is no pipeline has depth 0.\<close>

fun pipeline_depth :: "'x command \<Rightarrow> nat" where
  "pipeline_depth (Pipeline cmds rid) = Suc (foldr (\<lambda>c. max (pipeline_depth c)) cmds 0)"
| "pipeline_depth _ = 0"

lemma pipeline_depth_bound:
  "(\<forall>c \<in> set cmds. pipeline_depth c \<le> n) \<Longrightarrow> foldr (\<lambda>c. max (pipeline_depth c)) cmds 0 \<le> n"
  by (induction cmds) auto

lemmas parser_defs =
  parse_auth_def parse_put_def parse_get_def parse_delete_def parse_put_if_def parse_del_if_def
  parse_del_prefix_def parse_list_def parse_versions_def parse_subscribe_def parse_config_def
  parse_rekey_def parse_command_sub_def

lemmas namespace_parser_defs =
  parse_namespace_create_def parse_namespace_drop_def parse_namespace_alter_def

definition flat_ok :: "'x command \<Rightarrow> bool" where
  "flat_ok c \<longleftrightarrow> command_wf c \<and> pipeline_depth c = 0"

lemma subscribe_loop_ok:
  "subscribe_loop args key events = (key', events') \<Longrightarrow> list_all (\<lambda>e. to_ascii_uppercase e = e \<and> e \<noteq> ''KEY'') events \<Longrightarrow>
     list_all (\<lambda>e. to_ascii_uppercase e = e \<and> e \<noteq> ''KEY'') events'"
proof (induction args key events rule: subscribe_loop.induct)
  case (2 a as key events)
  have "list_all (\<lambda>e. to_ascii_uppercase e = e \<and> e \<noteq> ''KEY'')
      (map to_ascii_uppercase (takeWhile (\<lambda>e. to_ascii_uppercase e \<noteq> ''KEY'') as))"
    by (auto simp: list_all_iff dest: set_takeWhileD)
  with 2 show ?case by (auto simp: Let_def split: if_splits list.splits)
qed simp

lemma parse_namespace_ok: "parse_namespace X args = Inr c \<Longrightarrow> flat_ok c"
  by (auto simp: parse_namespace_def namespace_parser_defs flat_ok_def Let_def
      split: if_splits prod.splits)

lemma parse_flat_ok: "parse_flat X strings = Inr c \<Longrightarrow> flat_ok c"
  unfolding parse_flat_def Let_def
  by (simp split: if_split_asm; auto simp: parser_defs flat_ok_def Let_def split: if_splits prod.splits dest: parse_namespace_ok subscribe_loop_ok)

lemma parse_wf:
  "parse_command X f = Inr c \<Longrightarrow> command_wf c"
  "parse_pipeline_frame X els = Inr c \<Longrightarrow> command_wf c"
  "parse_subcommands X i fs = Inr cs \<Longrightarrow> list_all command_wf cs"
proof (induction X f and X els and X i fs arbitrary: c and c and cs
    rule: parse_command_parse_pipeline_frame_parse_subcommands.induct)
  case (1 X parts)
  then show ?case
    by (auto split: list.splits if_splits dest: parse_flat_ok simp: flat_ok_def)
next
  case (3 X elements)
  then show ?case by (auto simp: parse_pipeline_frame.simps split: if_splits)
qed auto

lemma parse_depth:
  "parse_command (X :: 'x ext) f = Inr c \<Longrightarrow> frame_ok d f \<Longrightarrow> d + pipeline_depth c < MAX_DEPTH"
  "parse_pipeline_frame X els = Inr c \<Longrightarrow> \<forall>f \<in> set els. frame_ok (Suc d) f \<Longrightarrow>
     d + pipeline_depth c < MAX_DEPTH"
  "parse_subcommands X i fs = Inr cs \<Longrightarrow> \<forall>f \<in> set fs. frame_ok d f \<Longrightarrow>
     \<forall>c \<in> set cs. d + pipeline_depth c < MAX_DEPTH"
proof (induction X f and X els and X i fs arbitrary: c d and c d and cs d
    rule: parse_command_parse_pipeline_frame_parse_subcommands.induct)
  case (1 X parts)
  then obtain p rest where parts: "parts = p # rest" by (cases parts) auto
  then have ok: "frame_ok (Suc d) p" "\<forall>f \<in> set rest. frame_ok (Suc d) f" using "1.prems" by auto
  obtain v where v: "(frame_to_string p :: 'x command_error + string) = Inr v" using "1.prems" parts by auto
  show ?case
  proof (cases "eq_ignore_ascii_case v ''PIPELINE''")
    case True
    then show ?thesis using 1 parts v ok by simp
  next
    case False
    then have "flat_ok c" using "1.prems" parts v by (auto dest: parse_flat_ok)
    then show ?thesis using frame_ok_depth [OF ok(1)] by (simp add: flat_ok_def)
  qed
next
  case (3 X elements)
  obtain rid rest cmds where
        kw: "(pipeline_keywords elements None :: 'x command_error + _) = Inr (rid, rest)"
      and cmds: "parse_subcommands X 0 rest = Inr cmds" "cmds \<noteq> []" and c: "c = Pipeline cmds rid"
      and ne: "elements \<noteq> []"
    using "3.prems"(1) by (auto simp: parse_pipeline_frame.simps split: if_splits)
  have "\<forall>f \<in> set rest. frame_ok (Suc d) f"
    using "3.prems" set_mono_suffix [OF pipeline_keywords_suffix [OF kw]] by auto
  then have "\<forall>c \<in> set cmds. Suc d + pipeline_depth c < MAX_DEPTH"
    using "3.IH" [OF ne kw refl cmds(1)] by blast
  then have "Suc d < MAX_DEPTH" and "\<forall>c \<in> set cmds. pipeline_depth c \<le> MAX_DEPTH - 1 - Suc d"
    using cmds(2) by (auto simp: neq_Nil_conv)
  then show ?case using pipeline_depth_bound [of cmds] c by fastforce
next
  case (5 X i frame frames)
  then show ?case by fastforce
qed auto

lemma parse_subcommands_ok:
  "parse_subcommands X i fs = Inr cs \<longleftrightarrow> collect_res (parse_command X) fs = Inr cs"
  by (induction fs arbitrary: i cs) auto

text \<open>The index and error of the first sub-command that does not parse.\<close>

definition first_parse_error :: "'x ext \<Rightarrow> resp3_frame list \<Rightarrow> nat \<Rightarrow> 'x command_error \<Rightarrow> bool" where
  "first_parse_error X fs k err \<longleftrightarrow>
     k < length fs \<and> parse_command X (fs ! k) = Inl err \<and> (\<forall>j < k. is_ok (parse_command X (fs ! j)))"

lemma first_parse_error_Cons:
  "first_parse_error X (f # fs) k err \<longleftrightarrow>
     (case k of 0 \<Rightarrow> parse_command X f = Inl err
      | Suc k' \<Rightarrow> is_ok (parse_command X f) \<and> first_parse_error X fs k' err)"
  by (cases k) (auto simp: first_parse_error_def nth_Cons split: nat.splits)

lemma parse_subcommands_err:
  "parse_subcommands X i fs = Inl e \<longleftrightarrow>
     (\<exists>k err. first_parse_error X fs k err \<and> e = PipelineAborted (of_nat (i + k)) (command_error_to_string X err))"
proof (induction fs arbitrary: i)
  case (Cons f fs)
  show ?case
  proof (cases "parse_command X f")
    case (Inl e0)
    then have "first_parse_error X (f # fs) k err \<longleftrightarrow> k = 0 \<and> err = e0" for k err
      by (cases k) (auto simp: first_parse_error_Cons)
    then show ?thesis using Inl by auto
  next
    case (Inr c)
    have "parse_subcommands X i (f # fs) = Inl e \<longleftrightarrow> parse_subcommands X (Suc i) fs = Inl e"
      using Inr by (auto simp: try_res_eq_Inl)
    also have "\<dots> \<longleftrightarrow> (\<exists>k err. first_parse_error X (f # fs) (Suc k) err \<and>
        e = PipelineAborted (of_nat (i + Suc k)) (command_error_to_string X err))"
      unfolding Cons.IH by (simp add: first_parse_error_Cons Inr)
    also have "\<dots> \<longleftrightarrow> (\<exists>k err. first_parse_error X (f # fs) k err \<and>
        e = PipelineAborted (of_nat (i + k)) (command_error_to_string X err))"
      by (metis (mono_tags, lifting) Inr first_parse_error_Cons old.nat.simps(4) sum.simps(4) not0_implies_Suc
          sum.distinct(1))
    finally show ?thesis .
  qed
qed (simp add: first_parse_error_def)

text \<open>The leading elements of a pipeline frame that set its request id.\<close>

definition request_id_frames :: "string option \<Rightarrow> resp3_frame list" where
  "request_id_frames rid = (case rid of None \<Rightarrow> [] | Some r \<Rightarrow> [BulkString ''REQUEST_ID'', BulkString r])"

lemma eq_ignore_ascii_case_refl [simp]: "eq_ignore_ascii_case s s"
  by (simp add: eq_ignore_ascii_case_upper)

lemma pipeline_keywords_request_id:
  assumes "pred_option utf8_valid rid" and "fs \<noteq> []" and "is_array (hd fs)"
  shows "pipeline_keywords (request_id_frames rid @ fs) None = Inr (rid, fs)"
  using assms
  by (cases fs; cases rid) (auto simp: request_id_frames_def frame_to_string_def is_array_def)

lemma parse_pipeline_eq:
  assumes "pred_option utf8_valid rid" and "fs \<noteq> []" and "is_array (hd fs)"
  shows "parse_command X (Array (BulkString ''PIPELINE'' # request_id_frames rid @ fs)) =
    try_res (parse_subcommands X 0 fs) (\<lambda>cs. Inr (Pipeline cs rid))"
proof -
  have "cs \<noteq> []" if "parse_subcommands X 0 fs = Inr cs" for cs
    using that assms(2) collect_res_length [of _ fs cs] unfolding parse_subcommands_ok by auto
  then show ?thesis using assms(2)
    by (cases "parse_subcommands X 0 fs")
      (simp_all add: frame_to_string_def parse_pipeline_frame.simps pipeline_keywords_request_id [OF assms])
qed

section \<open>Properties\<close>

text \<open>
  C24: every command that the parser accepts satisfies the checks later stages rely on: a
  \<open>DELPREFIX\<close> has a non-empty prefix, a \<open>REKEY\<close> key is 64 hexadecimal digits and a pipeline is
  not empty, at every level of nesting.
\<close>

theorem parse_command_wf: "parse_command X f = Inr c \<Longrightarrow> command_wf c"
  by (rule parse_wf(1))

theorem parse_command_wf_witness: "command_wf (DelPrefix ''ns'' ''a'' :: string command)"
  by (rule parse_command_wf [of text_ext "Array (map BulkString [''delprefix'', ''ns'', ''a''])"]) code_simp

text \<open>
  A command parsed from a frame that the server's reader accepted nests pipelines at most
  seven deep, so the recursion of the parser and of the dispatcher on it is bounded whatever the
  peer sends.
\<close>

lemma parse_command_depth:
  assumes "read_frame s = Inr (Some f, rest)" and "parse_command X f = Inr c"
  shows "pipeline_depth c < MAX_DEPTH"
proof -
  have "frame_ok 0 f" using assms(1) read_frame_depth_ok unfolding read_frame_def by blast
  from parse_depth(1) [OF assms(2) this] show ?thesis by simp
qed

text \<open>
  C10: a pipeline frame (with or without a request id) parses exactly when all its sub-command
  frames parse, into the pipeline of the parsed commands in order; otherwise the error names the
  first sub-command that does not parse, by its index and its error text.
\<close>

theorem parse_pipeline_spec:
  assumes "pred_option utf8_valid rid" and "fs \<noteq> []" and "is_array (hd fs)"
  shows "(parse_command X (Array (BulkString ''PIPELINE'' # request_id_frames rid @ fs)) = Inr c \<longleftrightarrow>
      (\<exists>cs. collect_res (parse_command X) fs = Inr cs \<and> c = Pipeline cs rid)) \<and>
    (parse_command X (Array (BulkString ''PIPELINE'' # request_id_frames rid @ fs)) = Inl e \<longleftrightarrow>
      (\<exists>k err. first_parse_error X fs k err \<and>
         e = PipelineAborted (of_nat k) (command_error_to_string X err)))"
  unfolding parse_pipeline_eq [OF assms]
  by (auto simp: parse_subcommands_ok try_res_eq_Inl parse_subcommands_err)

theorem parse_pipeline_spec_witness:
  "\<exists>k err. first_parse_error text_ext [Array [BulkString ''PING''], Array [BulkString ''NOPE'']] k err \<and>
    PipelineAborted 1 ''bad argument: unknown command: NOPE'' =
      PipelineAborted (of_nat k) (command_error_to_string text_ext err)"
proof -
  have "parse_command text_ext (Array (BulkString ''PIPELINE'' # request_id_frames (Some ''r1'') @
      [Array [BulkString ''PING''], Array [BulkString ''NOPE'']])) =
      Inl (PipelineAborted 1 ''bad argument: unknown command: NOPE'')" by code_simp
  then show ?thesis
    using parse_pipeline_spec [of "Some ''r1''" "[Array [BulkString ''PING''], Array [BulkString ''NOPE'']]"
      text_ext Ping "PipelineAborted 1 ''bad argument: unknown command: NOPE''"]
    by (simp add: utf8_valid_ascii is_array_def)
qed

end
