(* ===== verification/Dispatch.thy ===== *)
theory Dispatch
  imports Mem_Store Idempotency Parse_Command
begin

text \<open>
  The command dispatcher, \<open>shroudb-protocol/src/dispatch.rs\<close>: ACL check, dispatch to the handlers,
  pipelines with idempotent replay, and the telemetry of each executed command. The access-control
  crate is the field \<open>d_check\<close>, the monotonic clock is \<open>d_now\<close>; both may read the state \<open>'s\<close>.
\<close>

section \<open>Definitions\<close>

record ('s, 'x, 'a) dispatcher =
  d_ext :: "'x ext"
  d_store :: "('s, 'x) store"
  d_engine :: "'s engine option"
  d_check :: "'a \<Rightarrow> acl_req \<Rightarrow> 's \<Rightarrow> string + unit"
  d_actor :: "'a \<Rightarrow> string"
  d_now :: "'s \<Rightarrow> nat"

text \<open>The metrics and audit records that a command leaves: verb, outcome, nanoseconds, actor.\<close>

datatype telemetry_event =
    CommandsTotal string string
  | CommandDuration string nat
  | AuditLog string string u64 string

record 's dstate =
  world :: 's
  idem_map :: idempotency_map
  telemetry :: "telemetry_event list"

text \<open>\<open>dispatch\<close>; \<open>None\<close> is a panic of the task.\<close>

definition no_panic :: "('s, 'x) handler \<Rightarrow> 's \<Rightarrow> ('x command_error + 'x response_map) option \<times> 's" where
  "no_panic h s = (case h s of (r, s') \<Rightarrow> (Some r, s'))"

definition with_engine :: "('s, 'x, 'a) dispatcher \<Rightarrow> string \<Rightarrow>
    ('s engine \<Rightarrow> 's \<Rightarrow> ('x command_error + 'x response_map) option \<times> 's) \<Rightarrow>
    's \<Rightarrow> ('x command_error + 'x response_map) option \<times> 's" where
  "with_engine D what h s = (case d_engine D of
     Some E \<Rightarrow> h E s
   | None \<Rightarrow> (Some (Inl (Internal (what @ '' not available in remote store mode''))), s))"

definition unwrap_or :: "'a option \<Rightarrow> 'a \<Rightarrow> 'a" where
  "unwrap_or x d = (case x of None \<Rightarrow> d | Some v \<Rightarrow> v)"

fun dispatch :: "('s, 'x, 'a) dispatcher \<Rightarrow> 'x command \<Rightarrow> 's \<Rightarrow>
    ('x command_error + 'x response_map) option \<times> 's" where
  "dispatch D (Auth _) s =
     (Some (Inl (Internal ''AUTH must be handled at the connection level (bug: reached dispatcher)'')), s)"
| "dispatch D Ping s = (Some (Inr (rm_with rm_ok ''message'' (RvString ''PONG''))), s)"
| "dispatch D (Put ns key val metadata ttl_ms) s =
     no_panic (handle_put (d_ext D) (d_store D) ns key val metadata ttl_ms) s"
| "dispatch D (Get ns key version meta) s =
     no_panic (handle_get (d_ext D) (d_store D) ns key version meta) s"
| "dispatch D (Delete ns key) s = no_panic (handle_delete (d_ext D) (d_store D) ns key) s"
| "dispatch D (PutIf ns key val metadata expected) s =
     no_panic (handle_put_if (d_ext D) (d_store D) ns key val metadata expected) s"
| "dispatch D (DelIf ns key expected) s = no_panic (handle_del_if (d_ext D) (d_store D) ns key expected) s"
| "dispatch D (DelPrefix ns pre) s = no_panic (handle_del_prefix (d_ext D) (d_store D) ns pre) s"
| "dispatch D (List ns pre cursor limit) s =
     no_panic (handle_list (d_ext D) (d_store D) ns pre cursor (unwrap_or limit 100)) s"
| "dispatch D (Versions ns key limit frm) s =
     no_panic (handle_versions (d_ext D) (d_store D) ns key (unwrap_or limit 100) frm) s"
| "dispatch D (NamespaceCreate name schema mv tr) s =
     no_panic (handle_create (d_ext D) (d_store D) name schema mv tr) s"
| "dispatch D (NamespaceDrop name force) s = no_panic (handle_drop (d_store D) name force) s"
| "dispatch D (NamespaceList cursor limit) s =
     no_panic (handle_namespace_list (d_store D) cursor (unwrap_or limit 100)) s"
| "dispatch D (NamespaceInfo name) s = no_panic (handle_info (d_store D) name) s"
| "dispatch D (NamespaceAlter name schema mv tr) s =
     no_panic (handle_alter (d_ext D) (d_store D) name schema mv tr) s"
| "dispatch D (NamespaceValidate name) s = no_panic (handle_validate (d_ext D) (d_store D) name) s"
| "dispatch D Health s = (Some handle_health, s)"
| "dispatch D (ConfigGet key) s = with_engine D ''CONFIG'' (\<lambda>E. no_panic (handle_config_get E key)) s"
| "dispatch D (ConfigSet key val) s = with_engine D ''CONFIG'' (\<lambda>E. no_panic (handle_config_set E key val)) s"
| "dispatch D CommandList s = (Some handle_command_list, s)"
| "dispatch D (Rekey new_key_hex) s = with_engine D ''REKEY'' (\<lambda>E. handle_rekey E new_key_hex) s"
| "dispatch D RekeyStatus s = with_engine D ''REKEY STATUS'' (\<lambda>E. no_panic (handle_rekey_status E)) s"
| "dispatch D (Subscribe _ _ _) s =
     (Some (Inl (BadArg ''SUBSCRIBE must be handled at the connection level'')), s)"
| "dispatch D Unsubscribe s = (Some (Inl (BadArg ''UNSUBSCRIBE: no active subscription'')), s)"
| "dispatch D (Pipeline _ _) s = (None, s)"

text \<open>The ACL middleware: the error that stops the command, if any.\<close>

definition acl_gate :: "('s, 'x, 'a) dispatcher \<Rightarrow> 'a option \<Rightarrow> 'x command \<Rightarrow> 's \<Rightarrow> 'x command_error option" where
  "acl_gate D auth cmd s =
     (let requirement = acl_requirement cmd in
      if requirement = AclNone then None
      else case auth of
        None \<Rightarrow> Some NotAuthenticated
      | Some ctx \<Rightarrow> (case d_check D ctx requirement s of
          Inl e \<Rightarrow> Some (Denied e)
        | Inr _ \<Rightarrow> None))"

definition record_command :: "('s, 'x, 'a) dispatcher \<Rightarrow> 'a option \<Rightarrow> 'x command \<Rightarrow> bool \<Rightarrow> nat \<Rightarrow> telemetry_event list" where
  "record_command D auth cmd ok duration =
     (let result_label = (if ok then ''ok'' else ''error'') in
      [CommandsTotal (verb cmd) result_label, CommandDuration (verb cmd) duration] @
      (if is_read cmd then []
       else [AuditLog (verb cmd) result_label (of_nat (duration div 10 ^ 6))
         (case auth of None \<Rightarrow> ''anonymous'' | Some a \<Rightarrow> d_actor D a)]))"

definition execute_one :: "('s, 'x, 'a) dispatcher \<Rightarrow> 'a option \<Rightarrow> 'x command \<Rightarrow> 's dstate \<Rightarrow>
    'x command_response option \<times> 's dstate" where
  "execute_one D auth cmd st =
     (case acl_gate D auth cmd (world st) of
        Some e \<Rightarrow> (Some (Error e), st)
      | None \<Rightarrow>
          (case dispatch D cmd (world st) of
             (None, s') \<Rightarrow> (None, st\<lparr>world := s'\<rparr>)
           | (Some result, s') \<Rightarrow>
               (Some (case result of Inr resp \<Rightarrow> Success resp | Inl e \<Rightarrow> Error e),
                st\<lparr>world := s',
                   telemetry := telemetry st @
                     record_command D auth cmd (is_ok result) (d_now D s' - d_now D (world st))\<rparr>)))"

definition lookup_cached :: "('s, 'x, 'a) dispatcher \<Rightarrow> string option \<Rightarrow> 's dstate \<Rightarrow>
    resp3_frame option \<times> 's dstate" where
  "lookup_cached D request_id st = (case request_id of
     None \<Rightarrow> (None, st)
   | Some rid \<Rightarrow> (case idempotency_get (d_now D (world st)) rid (idem_map st) of
       (f, m) \<Rightarrow> (f, st\<lparr>idem_map := m\<rparr>)))"

definition cache_response :: "('s, 'x, 'a) dispatcher \<Rightarrow> string option \<Rightarrow> 'x command_response \<Rightarrow> 's dstate \<Rightarrow> 's dstate" where
  "cache_response D request_id response st = (case request_id of
     None \<Rightarrow> st
   | Some rid \<Rightarrow> st\<lparr>idem_map := idempotency_insert (d_now D (world st)) rid
        (response_to_frame (d_ext D) response) (idem_map st)\<rparr>)"

function execute :: "('s, 'x, 'a) dispatcher \<Rightarrow> 'a option \<Rightarrow> 'x command \<Rightarrow> 's dstate \<Rightarrow>
    'x command_response option \<times> 's dstate"
  and execute_all :: "('s, 'x, 'a) dispatcher \<Rightarrow> 'a option \<Rightarrow> 'x command list \<Rightarrow> 's dstate \<Rightarrow>
    'x command_response list option \<times> 's dstate"
where
  "execute D auth cmd st =
     (case cmd of
        Pipeline commands request_id \<Rightarrow>
          (case lookup_cached D request_id st of
             (Some cached_frame, st1) \<Rightarrow> (Some (CachedFrame cached_frame), st1)
           | (None, st1) \<Rightarrow>
               (case execute_all D auth commands st1 of
                  (None, st2) \<Rightarrow> (None, st2)
                | (Some results, st2) \<Rightarrow>
                    (Some (ArrayResponse results), cache_response D request_id (ArrayResponse results) st2)))
      | _ \<Rightarrow> execute_one D auth cmd st)"
| "execute_all D auth [] st = (Some [], st)"
| "execute_all D auth (c # cs) st =
     (case execute D auth c st of
        (None, st1) \<Rightarrow> (None, st1)
      | (Some r, st1) \<Rightarrow>
          (case execute_all D auth cs st1 of
             (None, st2) \<Rightarrow> (None, st2)
           | (Some rs, st2) \<Rightarrow> (Some (r # rs), st2)))"
  by pat_completeness auto
termination
  by (relation "measure (\<lambda>x. case x of Inl (D, a, c, st) \<Rightarrow> 2 * size c
      | Inr (D, a, cs, st) \<Rightarrow> Suc (2 * size_list size cs))") auto

declare execute.simps [simp del]

section \<open>Structure of the execution\<close>

fun leaves :: "'x command \<Rightarrow> 'x command list" where
  "leaves (Pipeline cmds rid) = concat (map leaves cmds)"
| "leaves c = [c]"

fun request_ids :: "'x command \<Rightarrow> string set" where
  "request_ids (Pipeline cmds rid) = set_option rid \<union> \<Union> (request_ids ` set cmds)"
| "request_ids c = {}"

fun is_pipeline :: "'x command \<Rightarrow> bool" where
  "is_pipeline (Pipeline cmds rid) = True"
| "is_pipeline c = False"

lemma execute_leaf: "\<not> is_pipeline c \<Longrightarrow> execute D auth c st = execute_one D auth c st"
  by (cases c) (simp_all add: execute.simps)

lemma leaves_leaf: "\<not> is_pipeline c \<Longrightarrow> leaves c = [c]"
  by (cases c) simp_all

lemma execute_Pipeline:
  "execute D auth (Pipeline cmds rid) st =
     (case lookup_cached D rid st of
        (Some f, st1) \<Rightarrow> (Some (CachedFrame f), st1)
      | (None, st1) \<Rightarrow>
          (case execute_all D auth cmds st1 of
             (None, st2) \<Rightarrow> (None, st2)
           | (Some rs, st2) \<Rightarrow> (Some (ArrayResponse rs), cache_response D rid (ArrayResponse rs) st2)))"
  by (simp add: execute.simps)

lemma cache_None [simp]:
  "lookup_cached D None st = (None, st)"
  "cache_response D None r st = st"
  by (simp_all add: lookup_cached_def cache_response_def)

lemma world_cache [simp]:
  "world (snd (lookup_cached D rid st)) = world st"
  "world (cache_response D rid r st) = world st"
  by (simp_all add: lookup_cached_def cache_response_def split: option.splits prod.splits)

text \<open>
  A preorder on states that holds across each leaf command and each access to the idempotency map
  holds across the whole execution.
\<close>

lemma execute_respects:
  assumes rf: "\<And>st. Q st st" and tr: "\<And>a b c. Q a b \<Longrightarrow> Q b c \<Longrightarrow> Q a c"
  shows "(\<And>c st. c \<in> set (leaves cmd) \<Longrightarrow> \<not> is_pipeline c \<Longrightarrow> Q st (snd (execute_one D auth c st))) \<Longrightarrow>
      (\<And>rid st. rid \<in> request_ids cmd \<Longrightarrow> Q st (snd (lookup_cached D (Some rid) st))) \<Longrightarrow>
      (\<And>rid r st. rid \<in> request_ids cmd \<Longrightarrow> Q st (cache_response D (Some rid) r st)) \<Longrightarrow>
      Q st (snd (execute D auth cmd st))"
    and "(\<And>c st. c \<in> set (concat (map leaves cmds)) \<Longrightarrow> \<not> is_pipeline c \<Longrightarrow> Q st (snd (execute_one D auth c st))) \<Longrightarrow>
      (\<And>rid st. rid \<in> \<Union> (request_ids ` set cmds) \<Longrightarrow> Q st (snd (lookup_cached D (Some rid) st))) \<Longrightarrow>
      (\<And>rid r st. rid \<in> \<Union> (request_ids ` set cmds) \<Longrightarrow> Q st (cache_response D (Some rid) r st)) \<Longrightarrow>
      Q st (snd (execute_all D auth cmds st))"
proof (induction D auth cmd st and D auth cmds st rule: execute_execute_all.induct)
  case (1 D auth cmd st)
  show ?case
  proof (cases "is_pipeline cmd")
    case False
    then show ?thesis using 1 by (simp add: execute_leaf leaves_leaf)
  next
    case True
    then obtain cmds rid where cmd: "cmd = Pipeline cmds rid" by (cases cmd) auto
    obtain hit st1 where look: "lookup_cached D rid st = (hit, st1)" by fastforce
    have a: "Q st st1"
      using look "1.prems"(2) [of "the rid" st] rf by (cases rid) (auto simp: cmd)
    show ?thesis
    proof (cases hit)
      case None
      obtain res st2 where all: "execute_all D auth cmds st1 = (res, st2)" by fastforce
      have b: "Q st1 st2"
        using "1.IH" [OF cmd look [symmetric] None] "1.prems" all by (simp add: cmd)
      have c: "Q st2 (cache_response D rid r st2)" for r
        using "1.prems"(3) rf by (cases rid) (auto simp: cmd)
      show ?thesis
        using tr [OF a b] tr [OF tr [OF a b] c] by (simp add: cmd execute_Pipeline look None all split: option.split)
    qed (simp add: cmd execute_Pipeline look a)
  qed
next
  case (3 D auth c cs st)
  obtain r st1 where ex: "execute D auth c st = (r, st1)" by fastforce
  have a: "Q st st1" using 3 ex by simp
  show ?case
  proof (cases r)
    case (Some v)
    obtain rs st2 where all: "execute_all D auth cs st1 = (rs, st2)" by fastforce
    have "Q st1 st2" using "3.IH"(2) [OF ex [symmetric] Some] "3.prems" all by simp
    from tr [OF a this] show ?thesis by (simp add: ex Some all split: option.split)
  qed (simp add: ex a)
qed (simp add: rf)

section \<open>Authorised steps\<close>

text \<open>
  What the access-control crate says about a command: it needs no permission, or there is a context and
  the check accepts it.
\<close>

definition permitted :: "('s, 'x, 'a) dispatcher \<Rightarrow> 'a option \<Rightarrow> 'x command \<Rightarrow> 's \<Rightarrow> bool" where
  "permitted D auth cmd s \<longleftrightarrow>
     acl_requirement cmd = AclNone \<or> (\<exists>ctx. auth = Some ctx \<and> is_ok (d_check D ctx (acl_requirement cmd) s))"

lemma acl_gate_check:
  "acl_gate D (Some ctx) c s = None \<longleftrightarrow> acl_requirement c = AclNone \<or> is_ok (d_check D ctx (acl_requirement c) s)"
  by (simp add: acl_gate_def Let_def split: sum.splits)

lemma acl_gate_permitted: "acl_gate D auth cmd s = None \<longleftrightarrow> permitted D auth cmd s"
  by (simp add: permitted_def acl_gate_def Let_def is_ok_def split: option.split sum.split)

text \<open>One leaf command of \<open>cmd\<close> that is permitted, run on the store.\<close>

definition authorised_steps :: "('s, 'x, 'a) dispatcher \<Rightarrow> 'a option \<Rightarrow> 'x command \<Rightarrow> ('s \<times> 's) set" where
  "authorised_steps D auth cmd =
     {(s, s'). \<exists>c \<in> set (leaves cmd). permitted D auth c s \<and> s' = snd (dispatch D c s)}"

lemma world_execute_one:
  "world (snd (execute_one D auth c st)) =
     (if acl_gate D auth c (world st) = None then snd (dispatch D c (world st)) else world st)"
  by (simp add: execute_one_def split: option.split prod.split)

lemma execute_authorised:
  "(world st, world (snd (execute D auth cmd st))) \<in> (authorised_steps D auth cmd)\<^sup>*"
proof (rule execute_respects(1))
  show "(world st, world (snd (execute_one D auth c st))) \<in> (authorised_steps D auth cmd)\<^sup>*"
    if "c \<in> set (leaves cmd)" for c st
    using that by (auto simp: world_execute_one acl_gate_permitted authorised_steps_def intro!: r_into_rtrancl)
qed auto

section \<open>Panics\<close>

lemma dispatch_no_panic:
  "command_wf c \<Longrightarrow> \<not> is_pipeline c \<Longrightarrow> fst (dispatch D c s) \<noteq> None"
  by (cases c) (simp_all add: no_panic_def with_engine_def handle_rekey_hex split: prod.splits option.splits sum.splits)

lemma execute_no_panic:
  "command_wf cmd \<Longrightarrow> fst (execute D auth cmd st) \<noteq> None"
  "list_all command_wf cmds \<Longrightarrow> fst (execute_all D auth cmds st) \<noteq> None"
proof (induction D auth cmd st and D auth cmds st rule: execute_execute_all.induct)
  case (1 D auth cmd st)
  show ?case
  proof (cases "is_pipeline cmd")
    case False
    then show ?thesis using dispatch_no_panic [of cmd D "world st"] "1.prems"
      by (auto simp: execute_leaf execute_one_def split: option.splits prod.splits)
  next
    case True
    then obtain cmds rid where cmd: "cmd = Pipeline cmds rid" by (cases cmd) auto
    obtain hit st1 where look: "lookup_cached D rid st = (hit, st1)" by fastforce
    have "fst (execute_all D auth cmds st1) \<noteq> None" if "hit = None"
      using "1.IH" [OF cmd look [symmetric] that] "1.prems" by (simp add: cmd)
    then show ?thesis by (cases hit) (auto simp: cmd execute_Pipeline look split: option.splits prod.splits)
  qed
qed (auto split: option.splits prod.splits)

section \<open>Pipelines\<close>

lemma execute_all_append:
  "execute_all D auth (cs @ ds) st =
     (case execute_all D auth cs st of
        (None, st1) \<Rightarrow> (None, st1)
      | (Some rs, st1) \<Rightarrow>
          (case execute_all D auth ds st1 of
             (None, st2) \<Rightarrow> (None, st2)
           | (Some rs', st2) \<Rightarrow> (Some (rs @ rs'), st2)))"
  by (induction cs arbitrary: st) (auto split: option.splits prod.splits)

lemma execute_all_length:
  "execute_all D auth cs st = (Some rs, st') \<Longrightarrow> length rs = length cs"
  by (induction cs arbitrary: st rs) (auto split: option.splits prod.splits)

lemma execute_all_nth:
  assumes "execute_all D auth cs st = (Some rs, st')" and "i < length cs"
  shows "fst (execute D auth (cs ! i) (snd (execute_all D auth (take i cs) st))) = Some (rs ! i)"
proof -
  have cs: "cs = take i cs @ cs ! i # drop (Suc i) cs" using assms(2) by (simp add: id_take_nth_drop)
  have "execute_all D auth (take i cs @ cs ! i # drop (Suc i) cs) st = (Some rs, st')"
    using assms(1) cs by simp
  then obtain rs1 st1 r st2 rs2 where 1: "execute_all D auth (take i cs) st = (Some rs1, st1)"
      and 2: "execute D auth (cs ! i) st1 = (Some r, st2)" and rs: "rs = rs1 @ r # rs2"
    by (auto simp: execute_all_append split: option.splits prod.splits)
  have "length rs1 = i" using execute_all_length [OF 1] assms(2) by simp
  then show ?thesis using 1 2 rs by (simp add: nth_append)
qed

section \<open>The idempotency map during execution\<close>

text \<open>The monotonic clock does not go back while a command runs.\<close>

definition clock_monotonic :: "('s, 'x, 'a) dispatcher \<Rightarrow> bool" where
  "clock_monotonic D \<longleftrightarrow> (\<forall>c s. d_now D s \<le> d_now D (snd (dispatch D c s)))"

definition idem_step :: "(string, resp3_frame) cache_op \<Rightarrow> idempotency_map \<Rightarrow> idempotency_map" where
  "idem_step = cache_step idempotency_get idempotency_insert idempotency_prune"

text \<open>
  From \<open>st\<close> to \<open>st'\<close> the clock has not gone back and the map has seen a sequence of operations, all
  before the end, that inserted only under ids of \<open>K\<close>.
\<close>

definition idem_run :: "('s, 'x, 'a) dispatcher \<Rightarrow> string set \<Rightarrow> 's dstate \<Rightarrow> 's dstate \<Rightarrow> bool" where
  "idem_run D K st st' \<longleftrightarrow> d_now D (world st) \<le> d_now D (world st') \<and>
     (\<exists>ops. idem_map st' = fold idem_step ops (idem_map st) \<and>
        (\<forall>oper \<in> set ops. op_time oper \<le> d_now D (world st') \<and> (\<forall>k. op_inserts k oper \<longrightarrow> k \<in> K)))"

lemma idem_run_refl: "idem_run D K st st"
  by (auto simp: idem_run_def intro: exI [of _ "[]"])

lemma idem_run_trans:
  assumes "idem_run D K a b" and "idem_run D K b c"
  shows "idem_run D K a c"
proof -
  obtain ops1 ops2 where
      1: "idem_map b = fold idem_step ops1 (idem_map a)" "d_now D (world a) \<le> d_now D (world b)"
        "\<forall>oper \<in> set ops1. op_time oper \<le> d_now D (world b) \<and> (\<forall>k. op_inserts k oper \<longrightarrow> k \<in> K)"
    and 2: "idem_map c = fold idem_step ops2 (idem_map b)" "d_now D (world b) \<le> d_now D (world c)"
        "\<forall>oper \<in> set ops2. op_time oper \<le> d_now D (world c) \<and> (\<forall>k. op_inserts k oper \<longrightarrow> k \<in> K)"
    using assms unfolding idem_run_def by blast
  have "idem_map c = fold idem_step (ops1 @ ops2) (idem_map a)" using 1(1) 2(1) by simp
  moreover have "\<forall>oper \<in> set (ops1 @ ops2). op_time oper \<le> d_now D (world c) \<and> (\<forall>k. op_inserts k oper \<longrightarrow> k \<in> K)"
    using 1(2,3) 2(2,3) by (auto intro: le_trans)
  ultimately show ?thesis using le_trans [OF 1(2) 2(2)] unfolding idem_run_def by blast
qed

lemma idem_run_one:
  "d_now D (world st) \<le> d_now D (world st') \<Longrightarrow> idem_map st' = idem_step oper (idem_map st) \<Longrightarrow>
     op_time oper \<le> d_now D (world st') \<Longrightarrow> (\<And>k. op_inserts k oper \<Longrightarrow> k \<in> K) \<Longrightarrow> idem_run D K st st'"
  by (auto simp: idem_run_def intro: exI [of _ "[oper]"])

lemma idem_run_refl_map:
  "d_now D (world st) \<le> d_now D (world st') \<Longrightarrow> idem_map st' = idem_map st \<Longrightarrow> idem_run D K st st'"
  by (auto simp: idem_run_def intro: exI [of _ "[]"])

lemma execute_one_idem_run:
  assumes "clock_monotonic D" shows "idem_run D K st (snd (execute_one D auth c st))"
proof (rule idem_run_refl_map)
  show "d_now D (world st) \<le> d_now D (world (snd (execute_one D auth c st)))"
    using assms by (simp add: world_execute_one clock_monotonic_def)
  show "idem_map (snd (execute_one D auth c st)) = idem_map st"
    by (simp add: execute_one_def split: option.split prod.split)
qed

lemma lookup_idem_run: "idem_run D K st (snd (lookup_cached D rid st))"
proof (cases rid)
  case (Some r)
  show ?thesis unfolding Some
    by (rule idem_run_one [of _ _ _ "Op_get (d_now D (world st)) r"])
      (auto simp: lookup_cached_def idem_step_def split: prod.split)
qed (simp add: idem_run_refl)

lemma cache_idem_run: "set_option rid \<subseteq> K \<Longrightarrow> idem_run D K st (cache_response D rid r st)"
proof (cases rid)
  case (Some i)
  then show "set_option rid \<subseteq> K \<Longrightarrow> ?thesis"
    by (intro idem_run_one [of _ _ _ "Op_insert (d_now D (world st)) i (response_to_frame (d_ext D) r)"])
      (auto simp: cache_response_def idem_step_def)
qed (simp add: idem_run_refl)

lemma execute_idem_run:
  assumes "clock_monotonic D" and "request_ids cmd \<subseteq> K"
  shows "idem_run D K st (snd (execute D auth cmd st))"
  by (rule execute_respects(1) [where Q = "idem_run D K"])
    (use assms in \<open>auto intro: idem_run_refl idem_run_trans execute_one_idem_run lookup_idem_run cache_idem_run\<close>)

lemma idem_run_lookup:
  assumes "idem_run D K st st'" and "k \<notin> K"
  shows "fst (idempotency_get (d_now D (world st')) k (idem_map st')) =
    fst (idempotency_get (d_now D (world st')) k (idem_map st))"
proof -
  obtain ops where ops: "idem_map st' = fold idem_step ops (idem_map st)"
      "\<forall>oper \<in> set ops. op_time oper \<le> d_now D (world st') \<and> (\<forall>k. op_inserts k oper \<longrightarrow> k \<in> K)"
    using assms(1) unfolding idem_run_def by blast
  then have "\<forall>oper \<in> set ops. op_time oper \<le> d_now D (world st') \<and> \<not> op_inserts k oper"
    using assms(2) by blast
  from idem.get_steps [OF this] show ?thesis unfolding ops(1) idem_step_def .
qed

lemma ttl_execute: "ttl_secs (idem_map (snd (execute D auth cmd st))) = ttl_secs (idem_map st)"
proof (rule execute_respects(1) [where Q = "\<lambda>a b. ttl_secs (idem_map b) = ttl_secs (idem_map a)"])
  show "ttl_secs (idem_map (snd (execute_one D auth c st))) = ttl_secs (idem_map st)" for c st
    by (simp add: execute_one_def split: option.split prod.split)
  show "ttl_secs (idem_map (snd (lookup_cached D (Some rid) st))) = ttl_secs (idem_map st)" for rid st
    by (simp add: lookup_cached_def case_prod_beta)
qed (simp_all add: cache_response_def)

text \<open>A sequence of requests, each with its caller's authentication.\<close>

definition execute_requests :: "('s, 'x, 'a) dispatcher \<Rightarrow> ('a option \<times> 'x command) list \<Rightarrow> 's dstate \<Rightarrow> 's dstate" where
  "execute_requests D reqs st = fold (\<lambda>(auth, cmd) st. snd (execute D auth cmd st)) reqs st"

lemma execute_requests_Cons [simp]:
  "execute_requests D [] st = st"
  "execute_requests D ((auth, cmd) # reqs) st = execute_requests D reqs (snd (execute D auth cmd st))"
  by (simp_all add: execute_requests_def)

lemma execute_requests_idem_run:
  assumes "clock_monotonic D" and "\<forall>(auth, cmd) \<in> set reqs. request_ids cmd \<subseteq> K"
  shows "idem_run D K st (execute_requests D reqs st)"
  using assms(2)
proof (induction reqs arbitrary: st)
  case (Cons req reqs)
  obtain auth cmd where req: "req = (auth, cmd)" by fastforce
  have "request_ids cmd \<subseteq> K" using Cons.prems req by simp
  then have "idem_run D K st (snd (execute D auth cmd st))" by (rule execute_idem_run [OF assms(1)])
  moreover have "idem_run D K st' (execute_requests D reqs st')" for st'
    by (rule Cons.IH) (use Cons.prems in simp)
  ultimately show ?case unfolding req execute_requests_Cons by (rule idem_run_trans)
qed (simp add: idem_run_refl)

lemma execute_pipeline_fresh:
  assumes "execute D auth (Pipeline cmds (Some rid)) st = (Some (ArrayResponse rs), st1)"
  obtains m where "idem_map st1 =
      idempotency_insert (d_now D (world st1)) rid (response_to_frame (d_ext D) (ArrayResponse rs)) m"
    and "ttl_secs m = ttl_secs (idem_map st)"
proof -
  obtain hit sta where look: "lookup_cached D (Some rid) st = (hit, sta)" by fastforce
  with assms have hit: "hit = None" by (cases hit) (simp_all add: execute_Pipeline)
  obtain res stb where all: "execute_all D auth cmds sta = (res, stb)" by fastforce
  have st1: "st1 = cache_response D (Some rid) (ArrayResponse rs) stb"
    using assms by (cases res) (auto simp: execute_Pipeline look hit all)
  show thesis
  proof
    show "idem_map st1 = idempotency_insert (d_now D (world st1)) rid
        (response_to_frame (d_ext D) (ArrayResponse rs)) (idem_map stb)"
      by (simp add: st1 cache_response_def)
    show "ttl_secs (idem_map stb) = ttl_secs (idem_map st)"
      using ttl_execute [of D auth "Pipeline cmds (Some rid)" st] assms
      by (simp add: st1 cache_response_def)
  qed
qed

lemma replay_lookup:
  assumes "clock_monotonic D"
    and "execute D auth (Pipeline cmds (Some rid)) st = (Some (ArrayResponse rs), st1)"
    and "\<forall>(a, c) \<in> set reqs. rid \<notin> request_ids c"
    and "st2 = execute_requests D reqs st1"
    and "elapsed_secs (d_now D (world st2)) (d_now D (world st1)) < unat (ttl_secs (idem_map st))"
  shows "fst (idempotency_get (d_now D (world st2)) rid (idem_map st2)) =
    Some (response_to_frame (d_ext D) (ArrayResponse rs))"
proof -
  have "idem_run D (- {rid}) st1 st2"
    unfolding assms(4) by (rule execute_requests_idem_run [OF assms(1)]) (use assms(3) in auto)
  then have "fst (idempotency_get (d_now D (world st2)) rid (idem_map st2)) =
      fst (idempotency_get (d_now D (world st2)) rid (idem_map st1))"
    by (rule idem_run_lookup) simp
  moreover obtain m where "idem_map st1 =
      idempotency_insert (d_now D (world st1)) rid (response_to_frame (d_ext D) (ArrayResponse rs)) m"
    and "ttl_secs m = ttl_secs (idem_map st)"
    by (rule execute_pipeline_fresh [OF assms(2)])
  ultimately show ?thesis using assms(5) by (simp add: idem.get_insert_same idempotency_fresh_def)
qed

section \<open>Read commands\<close>

text \<open>The read operations of the store change nothing that \<open>view\<close> observes.\<close>

definition reads_preserve :: "('s, 'x) store \<Rightarrow> ('s \<Rightarrow> 'v) \<Rightarrow> bool" where
  "reads_preserve S view \<longleftrightarrow>
     (\<forall>ns key v s. view (snd (st_get S ns key v s)) = view s) \<and>
     (\<forall>ns pre cur lim s. view (snd (st_list S ns pre cur lim s)) = view s) \<and>
     (\<forall>ns key lim frm s. view (snd (st_versions S ns key lim frm s)) = view s) \<and>
     (\<forall>cur lim s. view (snd (st_namespace_list S cur lim s)) = view s) \<and>
     (\<forall>ns s. view (snd (st_namespace_info S ns s)) = view s) \<and>
     (\<forall>ns s. view (snd (st_namespace_validate S ns s)) = view s)"

lemma snd_call [simp]: "snd (call oper f g s) = snd (oper s)"
  by (simp add: call_def split: prod.split)

lemma snd_no_panic [simp]: "snd (no_panic h s) = snd (h s)"
  by (simp add: no_panic_def split: prod.split)

lemma dispatch_read:
  assumes "reads_preserve (d_store D) view" and "is_read c"
  shows "view (snd (dispatch D c s)) = view s"
proof -
  have ops: "view (snd (st_get (d_store D) ns key v s)) = view s"
      "view (snd (st_list (d_store D) ns pre cur lim s)) = view s"
      "view (snd (st_versions (d_store D) ns key lim frm s)) = view s"
      "view (snd (st_namespace_list (d_store D) cur lim s)) = view s"
      "view (snd (st_namespace_info (d_store D) ns s)) = view s"
      "view (snd (st_namespace_validate (d_store D) ns s)) = view s" for ns key pre cur lim v frm
    using assms(1) by (simp_all add: reads_preserve_def)
  have eng: "snd (with_engine D w (\<lambda>E. no_panic (h E)) s) = s" if "\<And>E. snd (h E s) = s" for w h
    using that by (simp add: with_engine_def split: option.split)
  show ?thesis using assms(2)
    by (cases c) (simp_all add: ops eng handle_get_def handle_list_def handle_versions_def
      handle_namespace_list_def handle_info_def handle_validate_def handle_config_get_def handle_rekey_status_def)
qed

section \<open>A concrete dispatcher\<close>

lemma pair_of_fst: "fst p = a \<Longrightarrow> p = (a, snd p)"
  by auto

text \<open>A dispatcher over the in-memory store, for evaluation: only the context \<open>admin\<close> passes checks.\<close>

definition demo :: "(mem, string, string) dispatcher" where
  "demo = \<lparr>d_ext = text_ext, d_store = mem_store, d_engine = None,
     d_check = (\<lambda>ctx _ _. if ctx = ''admin'' then Inr () else Inl ''no grant''), d_actor = id, d_now = m_clock\<rparr>"

definition demo_state :: "mem dstate" where
  "demo_state = \<lparr>world = mem_empty, idem_map = idempotency_new, telemetry = []\<rparr>"

lemmas demo_simps = execute_Pipeline execute_leaf execute_one_def acl_gate_def handle_put_def handle_get_def
  handle_delete_def call_def mem_store_simps demo_def demo_state_def mem_empty_def no_panic_def Let_def
  text_ext_def parse_metadata_def get_error_def mem_version_def lookup_cached_def cache_response_def
  idempotency_new_def idempotency_get_def idempotency_insert_def elapsed_secs_def DEFAULT_TTL_SECS_def

lemma clock_monotonic_demo: "clock_monotonic demo"
proof -
  have "m_clock s \<le> m_clock (snd (dispatch demo c s))" for c s
    by (cases c)
      (simp_all add: demo_def mem_store_simps text_ext_def Let_def with_engine_def handle_put_def handle_get_def
        handle_delete_def handle_put_if_def handle_del_if_def handle_del_prefix_def handle_list_def
        handle_versions_def handle_create_def handle_drop_def handle_namespace_list_def handle_info_def
        handle_alter_def handle_validate_def parse_metadata_def namespace_parse_config_def
        split: option.split prod.split)
  then show ?thesis by (simp add: clock_monotonic_def demo_def)
qed

lemma reads_preserve_mem: "reads_preserve mem_store m_data"
  by (simp add: reads_preserve_def mem_store_simps split: option.split prod.split)

section \<open>Properties\<close>

text \<open>
  C1: whatever command is executed, with any nesting of pipelines, every change to the store is made
  by running one of its leaf commands that passed the access check for the caller at that moment; a
  refused command changes nothing.
\<close>

theorem execute_only_authorised:
  "(world st, world (snd (execute D auth cmd st))) \<in> (authorised_steps D auth cmd)\<^sup>*"
  by (rule execute_authorised)

text \<open>
  C14: a command that the parser accepts never panics in the dispatcher: executing it always produces
  a response, for every store, engine, caller and state.
\<close>

theorem parsed_command_responds:
  assumes "parse_command X f = Inr cmd"
  shows "\<exists>resp. fst (execute D auth cmd st) = Some resp"
  using execute_no_panic(1) [OF parse_wf(1) [OF assms]] by auto

theorem parsed_command_responds_witness:
  "\<exists>resp. fst (execute demo None (Pipeline [Ping] None) demo_state) = Some resp"
  by (rule parsed_command_responds [of text_ext "Array [BulkString ''PIPELINE'', Array [BulkString ''ping'']]"]) code_simp



text \<open>
  Once a pipeline with a request id has answered, any pipeline with that id (whoever sends it and
  whatever it contains) is answered with the frame of the first answer and changes no state at all,
  as long as fewer than the cache's seconds have elapsed and however many other requests were
  executed in between. The hypotheses are that the monotonic clock is monotonic and that no request
  in between carries the same id.
\<close>

lemma pipeline_replay:
  assumes "clock_monotonic D"
    and "execute D auth (Pipeline cmds (Some rid)) st = (Some (ArrayResponse rs), st1)"
    and "\<forall>(a, c) \<in> set reqs. rid \<notin> request_ids c"
    and "st2 = execute_requests D reqs st1"
    and "elapsed_secs (d_now D (world st2)) (d_now D (world st1)) < unat (ttl_secs (idem_map st))"
  shows "execute D auth' (Pipeline cmds' (Some rid)) st2 =
    (Some (CachedFrame (response_to_frame (d_ext D) (ArrayResponse rs))), st2)"
proof -
  from replay_lookup [OF assms]
  have "idempotency_get (d_now D (world st2)) rid (idem_map st2) =
      (Some (response_to_frame (d_ext D) (ArrayResponse rs)), idem_map st2)"
    by (auto simp: idempotency_get_def split: option.splits if_splits)
  then show ?thesis by (simp add: execute_Pipeline lookup_cached_def)
qed

text \<open>
  The commands classified as reads really are reads: if the store's read operations leave its
  data unchanged, executing such a command leaves it unchanged, whatever its outcome.
\<close>

lemma read_command_preserves:
  assumes "reads_preserve (d_store D) view" and "is_read cmd"
  shows "view (world (snd (execute D auth cmd st))) = view (world st)"
proof -
  have "\<not> is_pipeline cmd" using assms(2) by (cases cmd) simp_all
  then show ?thesis using dispatch_read [OF assms] by (simp add: execute_leaf world_execute_one)
qed

text \<open>
  C38: the audit trail. Executing a command that is no pipeline appends exactly one audit record when
  the command is not a read and passed the access check, with the command's verb, its outcome and the
  caller's name; it appends none otherwise.
\<close>

definition audits :: "telemetry_event list \<Rightarrow> telemetry_event list" where
  "audits = filter (\<lambda>e. case e of AuditLog _ _ _ _ \<Rightarrow> True | _ \<Rightarrow> False)"



end
