(* ===== verification/Rate_Limiter.thy ===== *)
theory Rate_Limiter
  imports Complex_Main Prelude
begin

text \<open>
  The per-connection token bucket of \<open>shroudb-server/src/connection.rs\<close>. Its \<open>f64\<close> arithmetic is
  arithmetic on reals in which every operation is followed by the rounding function \<open>rnd\<close>, an
  argument; an \<open>Instant\<close> is a number of nanoseconds.
\<close>

section \<open>Definitions\<close>

record rate_limiter =
  tokens :: real
  max_tokens :: real
  refill_rate :: real
  last_refill :: nat

definition rate_limiter_new :: "nat \<Rightarrow> real \<Rightarrow> real \<Rightarrow> rate_limiter" where
  "rate_limiter_new now mx rate = \<lparr>tokens = 1, max_tokens = mx, refill_rate = rate, last_refill = now\<rparr>"

text \<open>\<open>Duration::as_secs_f64\<close>: the seconds plus the rest of the nanoseconds divided by a billion.\<close>

definition as_secs_f64 :: "(real \<Rightarrow> real) \<Rightarrow> nat \<Rightarrow> real" where
  "as_secs_f64 rnd d = rnd (rnd (real (d div 10 ^ 9)) + rnd (real (d mod 10 ^ 9) / 10 ^ 9))"

text \<open>The bucket after its refill; \<open>duration_since\<close> saturates at zero.\<close>

definition refilled :: "(real \<Rightarrow> real) \<Rightarrow> nat \<Rightarrow> rate_limiter \<Rightarrow> real" where
  "refilled rnd now rl =
     min (rnd (tokens rl + rnd (as_secs_f64 rnd (now - last_refill rl) * refill_rate rl))) (max_tokens rl)"

definition try_acquire :: "(real \<Rightarrow> real) \<Rightarrow> nat \<Rightarrow> rate_limiter \<Rightarrow> bool \<times> rate_limiter" where
  "try_acquire rnd now rl =
     (let t = refilled rnd now rl; rl' = rl\<lparr>tokens := t, last_refill := now\<rparr> in
      if 1 \<le> t then (True, rl'\<lparr>tokens := rnd (t - 1)\<rparr>) else (False, rl'))"

text \<open>A sequence of attempts at given times, and how many of them succeed.\<close>

fun acquires :: "(real \<Rightarrow> real) \<Rightarrow> nat list \<Rightarrow> rate_limiter \<Rightarrow> nat \<times> rate_limiter" where
  "acquires rnd [] rl = (0, rl)"
| "acquires rnd (t # ts) rl =
     (case try_acquire rnd t rl of
        (ok, rl1) \<Rightarrow> (case acquires rnd ts rl1 of (n, rl2) \<Rightarrow> ((if ok then Suc n else n), rl2)))"

section \<open>How many attempts succeed\<close>

text \<open>
  What the bound needs of the rounding: a refill credits at most \<open>eps\<close> more than the elapsed time
  earns, and taking a token leaves at most \<open>eps\<close> too much and nothing negative.
\<close>

definition rounding_ok :: "(real \<Rightarrow> real) \<Rightarrow> real \<Rightarrow> real \<Rightarrow> real \<Rightarrow> bool" where
  "rounding_ok rnd eps mx rate \<longleftrightarrow>
     (\<forall>tk d. 0 \<le> tk \<longrightarrow>
        min (rnd (tk + rnd (as_secs_f64 rnd d * rate))) mx \<le> tk + real d / 10 ^ 9 * rate + eps) \<and>
     (\<forall>tk d. 0 \<le> tk \<longrightarrow> 0 \<le> rnd (tk + rnd (as_secs_f64 rnd d * rate))) \<and>
     (\<forall>t. 1 \<le> t \<longrightarrow> t \<le> mx \<longrightarrow> 0 \<le> rnd (t - 1) \<and> rnd (t - 1) \<le> t - 1 + eps)"

lemma rounding_ok_exact: "0 \<le> rate \<Longrightarrow> rounding_ok id 0 mx rate"
proof -
  have e: "as_secs_f64 id d = real d / 10 ^ 9" for d
  proof -
    have "real d = real (d div 10 ^ 9 * 10 ^ 9 + d mod 10 ^ 9)"
      by (rule arg_cong [OF div_mult_mod_eq [symmetric]])
    also have "\<dots> = real (d div 10 ^ 9) * 10 ^ 9 + real (d mod 10 ^ 9)"
      by (simp only: of_nat_add of_nat_mult of_nat_power of_nat_numeral)
    finally show ?thesis by (simp add: as_secs_f64_def add_divide_distrib)
  qed
  show "0 \<le> rate \<Longrightarrow> ?thesis" unfolding rounding_ok_def e by (auto simp: min_le_iff_disj)
qed

lemma try_acquire_static [simp]:
  "max_tokens (snd (try_acquire rnd now rl)) = max_tokens rl"
  "refill_rate (snd (try_acquire rnd now rl)) = refill_rate rl"
  "last_refill (snd (try_acquire rnd now rl)) = now"
  by (simp_all add: try_acquire_def Let_def)

lemma try_acquire_bound:
  assumes "rounding_ok rnd eps (max_tokens rl) (refill_rate rl)" and "0 \<le> tokens rl" and "0 \<le> max_tokens rl"
    and "0 \<le> eps" and "last_refill rl \<le> now" and "try_acquire rnd now rl = (ok, rl')"
  shows "0 \<le> tokens rl'"
    and "(if ok then 1 else 0) + tokens rl' \<le>
      tokens rl + real (now - last_refill rl) / 10 ^ 9 * refill_rate rl + 2 * eps"
proof -
  let ?t = "refilled rnd now rl"
  have up: "?t \<le> tokens rl + real (now - last_refill rl) / 10 ^ 9 * refill_rate rl + eps"
    and lo: "0 \<le> ?t"
    using assms(1,2,3) unfolding rounding_ok_def refilled_def by (blast, simp)
  have le: "?t \<le> max_tokens rl" by (simp add: refilled_def)
  have sub: "0 \<le> rnd (?t - 1) \<and> rnd (?t - 1) \<le> ?t - 1 + eps" if "1 \<le> ?t"
    using assms(1) le that unfolding rounding_ok_def by blast
  show "0 \<le> tokens rl'" using assms(6) lo sub by (auto simp: try_acquire_def Let_def split: if_splits)
  show "(if ok then 1 else 0) + tokens rl' \<le>
      tokens rl + real (now - last_refill rl) / 10 ^ 9 * refill_rate rl + 2 * eps"
    using assms(4,6) up sub by (auto simp: try_acquire_def Let_def split: if_splits)
qed

lemma acquires_bound:
  assumes "rounding_ok rnd eps (max_tokens rl) (refill_rate rl)" and "0 \<le> tokens rl" and "0 \<le> max_tokens rl"
    and "0 \<le> eps" and "sorted (last_refill rl # ts)" and "acquires rnd ts rl = (n, rl')"
  shows "real n \<le> tokens rl + real (last (last_refill rl # ts) - last_refill rl) / 10 ^ 9 * refill_rate rl
    + 2 * eps * real (length ts)"
  using assms
proof (induction ts arbitrary: rl n)
  case (Cons t ts)
  obtain ok rl1 where 1: "try_acquire rnd t rl = (ok, rl1)" by fastforce
  obtain m where 2: "acquires rnd ts rl1 = (m, rl')" and n: "n = (if ok then Suc m else m)"
    using Cons.prems(6) 1 by (auto split: prod.splits)
  have st: "max_tokens rl1 = max_tokens rl" "refill_rate rl1 = refill_rate rl" "last_refill rl1 = t"
    using try_acquire_static [of rnd t rl] 1 by simp_all
  have le: "last_refill rl \<le> t" using Cons.prems(5) by simp
  note b = try_acquire_bound [OF Cons.prems(1-4) le 1]
  let ?T = "last (t # ts)"
  have tT: "t \<le> ?T" using Cons.prems(5) by (auto simp: last_in_set)
  have IH: "real m \<le> tokens rl1 + real (?T - t) / 10 ^ 9 * refill_rate rl + 2 * eps * real (length ts)"
    using Cons.IH [of rl1 m] Cons.prems b(1) 2 st by simp
  have split: "real (?T - last_refill rl) = real (?T - t) + real (t - last_refill rl)"
    using le tT by (simp add: of_nat_diff)
  have eps: "2 * eps * real (length (t # ts)) = 2 * eps + 2 * eps * real (length ts)"
    by (simp add: algebra_simps)
  have "real n \<le> (if ok then 1 else 0) + real m" using n by simp
  also have "\<dots> \<le> (if ok then 1 else 0) + tokens rl1 + real (?T - t) / 10 ^ 9 * refill_rate rl
      + 2 * eps * real (length ts)" using IH by simp
  also have "\<dots> \<le> tokens rl + real (?T - last_refill rl) / 10 ^ 9 * refill_rate rl + 2 * eps * real (length (t # ts))"
    using b(2) unfolding split eps by (simp add: add_divide_distrib ring_distribs)
  finally show ?case by simp
qed simp

section \<open>Properties\<close>

text \<open>
  C28: the rate limit. From its creation, the limiter of a connection with \<open>limit\<close> commands per second
  lets through at most one command plus \<open>limit\<close> per second elapsed, plus twice the rounding error of
  one operation per attempt (nothing when the arithmetic is exact).
\<close>

theorem rate_limit_bound:
  fixes limit :: u32
  assumes "rounding_ok rnd eps (real (unat limit)) (real (unat limit))" and "0 \<le> eps"
    and "sorted (t0 # ts)"
    and "acquires rnd ts (rate_limiter_new t0 (real (unat limit)) (real (unat limit))) = (n, rl')"
  shows "real n \<le> 1 + real (last (t0 # ts) - t0) / 10 ^ 9 * real (unat limit) + 2 * eps * real (length ts)"
proof -
  let ?rl = "rate_limiter_new t0 (real (unat limit)) (real (unat limit))"
  have rl: "tokens ?rl = 1" "max_tokens ?rl = real (unat limit)" "refill_rate ?rl = real (unat limit)"
      "last_refill ?rl = t0"
    unfolding rate_limiter_new_def by (rule rate_limiter.select_convs)+
  have "0 \<le> real (unat limit)" by (rule of_nat_0_le_iff)
  then show ?thesis
    using acquires_bound [of rnd eps ?rl ts n rl'] assms zero_le_one [where 'a = real] unfolding rl by blast
qed

theorem rate_limit_bound_witness:
  "real (fst (acquires id [5, 5, 500000005] (rate_limiter_new 5 (real (unat (2 :: u32))) (real (unat (2 :: u32))))))
    \<le> 1 + real (last (5 # [5, 5, 500000005]) - 5) / 10 ^ 9 * real (unat (2 :: u32)) + 2 * 0 * real (length [5, 5, 500000005 :: nat])"
  by (rule rate_limit_bound [where rl' = "snd (acquires id [5, 5, 500000005] (rate_limiter_new 5 (real (unat (2 :: u32))) (real (unat (2 :: u32)))))"])
    (simp_all add: rounding_ok_exact)

text \<open>
  The limiter never starves a connection: with a limit of at least one, an attempt made a second
  or more after the previous one succeeds, for any rounding that is monotone and exact on zero, one
  and the limit.
\<close>

lemma rate_limit_no_starvation:
  fixes limit :: u32
  assumes "mono rnd" and "rnd 0 = 0" and "rnd 1 = 1" and "0 < limit"
    and "max_tokens rl = real (unat limit)" and "refill_rate rl = real (unat limit)" and "0 \<le> tokens rl"
    and "last_refill rl + 10 ^ 9 \<le> now"
  shows "fst (try_acquire rnd now rl)"
proof -
  have mono: "x \<le> y \<Longrightarrow> rnd x \<le> rnd y" for x y using assms(1) by (rule monoD)
  have ge: "1 \<le> rnd x" if "1 \<le> x" for x using mono [OF that] assms(3) by simp
  have nn: "0 \<le> rnd x" if "0 \<le> x" for x using mono [OF that] assms(2) by simp
  let ?d = "now - last_refill rl"
  have lim: "1 \<le> real (unat limit)"
    using assms(4) by (metis One_nat_def Suc_leI of_nat_1 of_nat_le_iff unat_gt_0 word_neq_0_conv)
  have "1 \<le> real (?d div 10 ^ 9)"
  proof -
    have "10 ^ 9 div 10 ^ 9 \<le> ?d div 10 ^ 9" using assms(8) by (intro div_le_mono) simp
    then show ?thesis by simp
  qed
  then have "1 \<le> rnd (real (?d div 10 ^ 9))" by (rule ge)
  moreover have "0 \<le> rnd (real (?d mod 10 ^ 9) / 10 ^ 9)" by (rule nn) simp
  ultimately have e: "1 \<le> as_secs_f64 rnd ?d" unfolding as_secs_f64_def by (intro ge) simp
  have "1 \<le> as_secs_f64 rnd ?d * real (unat limit)" using mult_mono [OF e lim] e by simp
  then have "1 \<le> rnd (as_secs_f64 rnd ?d * real (unat limit))" by (rule ge)
  then have "1 \<le> rnd (tokens rl + rnd (as_secs_f64 rnd ?d * real (unat limit)))"
    using assms(7) by (intro ge) simp
  then have "1 \<le> refilled rnd now rl" using lim by (simp add: refilled_def assms(5,6))
  then show ?thesis by (simp add: try_acquire_def Let_def)
qed

end
