(* ===== verification/Connection.thy ===== *)
theory Connection
  imports Dispatch Rate_Limiter
begin

text \<open>
  The connection task of \<open>shroudb-server/src/connection.rs\<close> as a state machine: a step per loop
  iteration of \<open>handle_connection\<close> or, in subscription mode, of \<open>handle_subscription\<close>. What a
  \<open>select!\<close> or an I/O operation yields is the step's event: the shutdown signal, the result of
  reading a frame, or a subscription message, with flags that say whether writing and flushing the
  reply succeed. Frames are read whole: a step never starts in the middle of one.
\<close>

section \<open>Definitions\<close>

datatype event_type = EvPut | EvDelete

record subscription_event =
  se_event :: event_type
  se_namespace :: string
  se_key :: bytes
  se_version :: u64
  se_actor :: string
  se_timestamp :: u64

record subscription_filter =
  sf_key :: "bytes option"
  sf_events :: "event_type list"

text \<open>
  A server: its dispatcher, and the operations of the token validator, the access-control context,
  the system clock and the store's subscriptions that a connection calls, and the current rate limit.
\<close>

record ('s, 'x, 'a) server =
  sv_dispatcher :: "('s, 'x, 'a) dispatcher"
  sv_auth_required :: bool
  sv_rnd :: "real \<Rightarrow> real"
  sv_validate :: "string \<Rightarrow> 's \<Rightarrow> string + 'a"
  sv_platform :: 'a
  sv_is_expired :: "'a \<Rightarrow> u64 \<Rightarrow> bool"
  sv_unix_secs :: "'s \<Rightarrow> u64 option"
  sv_subscribe :: "string \<Rightarrow> subscription_filter \<Rightarrow> ('s, 'x, unit) op"
  sv_rate_limit :: "'s \<Rightarrow> u32 option"

datatype conn_mode = Normal | Subscribed | Closed

record 'a conn =
  mode :: conn_mode
  auth :: "'a option"
  limiter :: "rate_limiter option"
  out :: "resp3_frame list"

datatype conn_event =
    Shutdown bool
  | Frame "protocol_error + resp3_frame option" bool bool
  | Message "subscription_event option" bool bool

definition protocol_error_to_string :: "'x ext \<Rightarrow> protocol_error \<Rightarrow> string" where
  "protocol_error_to_string X e = (case e of
     InvalidTypeByte b \<Rightarrow> ''invalid type byte: 0x'' @ hex_byte_to_string b
   | FrameTooLarge n \<Rightarrow> ''frame too large: '' @ u64_to_string n @ '' bytes''
   | NestingTooDeep \<Rightarrow> ''nesting too deep''
   | InvalidFormat s \<Rightarrow> ''invalid format: '' @ s
   | Io e \<Rightarrow> io_error_to_string X e)"

definition subscription_event_to_push_frame :: "subscription_event \<Rightarrow> resp3_frame" where
  "subscription_event_to_push_frame ev =
     (let event_str = (case se_event ev of EvPut \<Rightarrow> ''put'' | EvDelete \<Rightarrow> ''delete'') in
      Push [SimpleString ''subscribe'', SimpleString event_str, BulkString (se_namespace ev),
        BulkString (se_key ev), Integer (se_version ev), BulkString (se_actor ev), Integer (se_timestamp ev)])"

definition event_filter :: "string list \<Rightarrow> event_type list" where
  "event_filter events = List.map_filter (\<lambda>e.
     let lower = to_ascii_lowercase e in
     if lower = ''put'' then Some EvPut else if lower = ''delete'' then Some EvDelete else None) events"

text \<open>The state of a connection as its task starts.\<close>

definition conn_init :: "('s, 'x, 'a) server \<Rightarrow> u32 option \<Rightarrow> 's dstate \<Rightarrow> 'a conn" where
  "conn_init S rate_limit st =
     \<lparr>mode = Normal,
      auth = (if sv_auth_required S then None else Some (sv_platform S)),
      limiter = map_option (\<lambda>limit. rate_limiter_new (d_now (sv_dispatcher S) (world st))
        (real (unat limit)) (real (unat limit))) rate_limit,
      out = []\<rparr>"

text \<open>A reply whose write error closes the connection, and one whose write error is ignored.\<close>

definition reply :: "bool \<Rightarrow> resp3_frame \<Rightarrow> 'a conn \<Rightarrow> 'a conn" where
  "reply write_ok f c = (if write_ok then c\<lparr>out := out c @ [f]\<rparr> else c\<lparr>mode := Closed\<rparr>)"

definition reply_ignoring :: "bool \<Rightarrow> resp3_frame \<Rightarrow> 'a conn \<Rightarrow> 'a conn" where
  "reply_ignoring write_ok f c = (if write_ok then c\<lparr>out := out c @ [f]\<rparr> else c)"

definition error_frame :: "('s, 'x, 'a) server \<Rightarrow> 'x command_error \<Rightarrow> resp3_frame" where
  "error_frame S e = response_to_frame (d_ext (sv_dispatcher S)) (Error e)"

definition ok_frame :: "('s, 'x, 'a) server \<Rightarrow> 'x response_map \<Rightarrow> resp3_frame" where
  "ok_frame S m = response_to_frame (d_ext (sv_dispatcher S)) (Success m)"

definition handle_auth :: "('s, 'x, 'a) server \<Rightarrow> string \<Rightarrow> bool \<Rightarrow> 'a conn \<times> 's dstate \<Rightarrow> 'a conn \<times> 's dstate" where
  "handle_auth S token wok cst = (case cst of (c, st) \<Rightarrow>
     (case sv_validate S token (world st) of
        Inr ctx \<Rightarrow> (reply wok (ok_frame S (rm_with rm_ok ''actor'' (RvString (d_actor (sv_dispatcher S) ctx))))
          (c\<lparr>auth := Some ctx\<rparr>), st)
      | Inl e \<Rightarrow> (reply wok (error_frame S (Denied e)) c, st)))"

text \<open>The access check of \<open>SUBSCRIBE\<close>; \<open>None\<close> when it passes.\<close>

definition subscribe_gate :: "('s, 'x, 'a) server \<Rightarrow> 'x command \<Rightarrow> 'a option \<Rightarrow> 's \<Rightarrow> 'x command_error option" where
  "subscribe_gate S cmd a s = (case a of
     Some ctx \<Rightarrow> (case d_check (sv_dispatcher S) ctx (acl_requirement cmd) s of
       Inl e \<Rightarrow> Some (Denied e)
     | Inr _ \<Rightarrow> None)
   | None \<Rightarrow> if sv_auth_required S then Some NotAuthenticated else None)"

definition handle_subscribe :: "('s, 'x, 'a) server \<Rightarrow> string \<Rightarrow> bytes option \<Rightarrow> string list \<Rightarrow> bool \<Rightarrow>
    'a conn \<times> 's dstate \<Rightarrow> 'a conn \<times> 's dstate" where
  "handle_subscribe S ns key events wok cst = (case cst of (c, st) \<Rightarrow>
     (case subscribe_gate S (Subscribe ns key events) (auth c) (world st) of
        Some e \<Rightarrow> (reply wok (error_frame S e) c, st)
      | None \<Rightarrow>
          (case sv_subscribe S ns \<lparr>sf_key = key, sf_events = event_filter events\<rparr> (world st) of
             (Inl e, s') \<Rightarrow> (reply wok (error_frame S (Store e)) c, st\<lparr>world := s'\<rparr>)
           | (Inr _, s') \<Rightarrow>
               (reply wok (ok_frame S (rm_with rm_ok ''namespace'' (RvString ns))) (c\<lparr>mode := Subscribed\<rparr>),
                st\<lparr>world := s'\<rparr>))))"

definition finish_execute :: "('s, 'x, 'a) server \<Rightarrow> 'x command_response option \<Rightarrow> bool \<Rightarrow> bool \<Rightarrow> 'a conn \<Rightarrow> 'a conn" where
  "finish_execute S res wok fok c = (case res of
     None \<Rightarrow> c\<lparr>mode := Closed\<rparr>
   | Some response \<Rightarrow>
       (let c' = reply wok (response_to_frame (d_ext (sv_dispatcher S)) response) c in
        if fok then c' else c'\<lparr>mode := Closed\<rparr>))"

definition handle_execute :: "('s, 'x, 'a) server \<Rightarrow> 'x command \<Rightarrow> bool \<Rightarrow> bool \<Rightarrow>
    'a conn \<times> 's dstate \<Rightarrow> 'a conn \<times> 's dstate" where
  "handle_execute S cmd wok fok cst = (case cst of (c, st) \<Rightarrow>
     (case execute (sv_dispatcher S) (auth c) cmd st of
        (res, st') \<Rightarrow> (finish_execute S res wok fok c, st')))"

text \<open>The expiry check: the connection closes on a clock error, an expired context is dropped.\<close>

datatype expiry = Clock_error | Expired | Current

definition check_expiry :: "('s, 'x, 'a) server \<Rightarrow> 'a option \<Rightarrow> 's \<Rightarrow> expiry" where
  "check_expiry S a s = (case a of
     None \<Rightarrow> Current
   | Some ctx \<Rightarrow> (case sv_unix_secs S s of
       None \<Rightarrow> Clock_error
     | Some now \<Rightarrow> if sv_is_expired S ctx now then Expired else Current))"

definition acquire_limit :: "('s, 'x, 'a) server \<Rightarrow> 'a conn \<Rightarrow> 's \<Rightarrow> bool \<times> 'a conn" where
  "acquire_limit S c s = (case limiter c of
     None \<Rightarrow> (True, c)
   | Some rl \<Rightarrow> (case try_acquire (sv_rnd S) (d_now (sv_dispatcher S) s) rl of
       (ok, rl') \<Rightarrow> (ok, c\<lparr>limiter := Some rl'\<rparr>)))"

text \<open>What the loop does with a parsed command that the rate limiter let through.\<close>

definition handle_command :: "('s, 'x, 'a) server \<Rightarrow> 'x command \<Rightarrow> bool \<Rightarrow> bool \<Rightarrow>
    'a conn \<times> 's dstate \<Rightarrow> 'a conn \<times> 's dstate" where
  "handle_command S cmd wok fok cst = (case cst of (c, st) \<Rightarrow>
     (case cmd of
        Auth token \<Rightarrow> handle_auth S token wok (c, st)
      | _ \<Rightarrow>
          if sv_auth_required S \<and> auth c = None \<and> cmd \<noteq> Ping then
            (reply wok (error_frame S NotAuthenticated) c, st)
          else (case check_expiry S (auth c) (world st) of
             Clock_error \<Rightarrow>
               ((reply_ignoring wok (error_frame S (Internal ''system clock error'')) c)\<lparr>mode := Closed\<rparr>, st)
           | Expired \<Rightarrow> (reply wok (error_frame S NotAuthenticated) (c\<lparr>auth := None\<rparr>), st)
           | Current \<Rightarrow> (case cmd of
               Subscribe ns key events \<Rightarrow> handle_subscribe S ns key events wok (c, st)
             | _ \<Rightarrow> handle_execute S cmd wok fok (c, st)))))"

definition normal_frame :: "('s, 'x, 'a) server \<Rightarrow> resp3_frame \<Rightarrow> bool \<Rightarrow> bool \<Rightarrow>
    'a conn \<times> 's dstate \<Rightarrow> 'a conn \<times> 's dstate" where
  "normal_frame S f wok fok cst = (case cst of (c, st) \<Rightarrow>
     (case parse_command (d_ext (sv_dispatcher S)) f of
        Inl e \<Rightarrow> (reply wok (SimpleError (''ERR '' @ command_error_to_string (d_ext (sv_dispatcher S)) e)) c, st)
      | Inr cmd \<Rightarrow>
          (case acquire_limit S c (world st) of
             (False, c') \<Rightarrow> (reply wok (error_frame S (Denied ''rate limit exceeded'')) c', st)
           | (True, c') \<Rightarrow> handle_command S cmd wok fok (c', st))))"

definition subscribed_frame :: "('s, 'x, 'a) server \<Rightarrow> resp3_frame \<Rightarrow> bool \<Rightarrow> 'a conn \<Rightarrow> 'a conn" where
  "subscribed_frame S f wok c =
     (case parse_command (d_ext (sv_dispatcher S)) f of
        Inl _ \<Rightarrow> c
      | Inr cmd \<Rightarrow> (case cmd of
          Unsubscribe \<Rightarrow> (reply_ignoring wok (ok_frame S rm_ok) c)\<lparr>mode := Normal\<rparr>
        | Ping \<Rightarrow> reply_ignoring wok (ok_frame S (rm_with rm_ok ''message'' (RvString ''PONG''))) c
        | _ \<Rightarrow> reply_ignoring wok
            (SimpleError ''ERR only UNSUBSCRIBE and PING allowed during subscription'') c))"

definition normal_step :: "('s, 'x, 'a) server \<Rightarrow> conn_event \<Rightarrow> 'a conn \<times> 's dstate \<Rightarrow> 'a conn \<times> 's dstate" where
  "normal_step S ev cst = (case cst of (c, st) \<Rightarrow>
     (case ev of
        Shutdown b \<Rightarrow> (if b then c\<lparr>mode := Closed\<rparr> else c, st)
      | Frame (Inr (Some f)) wok fok \<Rightarrow> normal_frame S f wok fok (c, st)
      | Frame (Inr None) _ _ \<Rightarrow> (c\<lparr>mode := Closed\<rparr>, st)
      | Frame (Inl e) wok _ \<Rightarrow>
          ((reply_ignoring wok (SimpleError (''ERR protocol: '' @
              protocol_error_to_string (d_ext (sv_dispatcher S)) e)) c)\<lparr>mode := Closed\<rparr>, st)
      | Message _ _ _ \<Rightarrow> (c, st)))"

definition subscribed_step :: "('s, 'x, 'a) server \<Rightarrow> conn_event \<Rightarrow> 'a conn \<Rightarrow> 'a conn" where
  "subscribed_step S ev c =
     (case ev of
        Shutdown b \<Rightarrow> if b then c\<lparr>mode := Closed\<rparr> else c
      | Message (Some e) wok fok \<Rightarrow>
          (if wok \<and> fok then c\<lparr>out := out c @ [subscription_event_to_push_frame e]\<rparr>
           else (reply_ignoring wok (subscription_event_to_push_frame e) c)\<lparr>mode := Closed\<rparr>)
      | Message None wok _ \<Rightarrow>
          (reply_ignoring wok (Push [SimpleString ''subscription'', SimpleString ''closed'']) c)\<lparr>mode := Normal\<rparr>
      | Frame (Inr (Some f)) wok _ \<Rightarrow> subscribed_frame S f wok c
      | Frame _ _ _ \<Rightarrow> c\<lparr>mode := Closed\<rparr>)"

definition conn_step :: "('s, 'x, 'a) server \<Rightarrow> conn_event \<Rightarrow> 'a conn \<times> 's dstate \<Rightarrow> 'a conn \<times> 's dstate" where
  "conn_step S ev cst = (case cst of (c, st) \<Rightarrow>
     (case mode c of
        Normal \<Rightarrow> normal_step S ev (c, st)
      | Subscribed \<Rightarrow> (subscribed_step S ev c, st)
      | Closed \<Rightarrow> (c, st)))"

text \<open>
  The frames for which the loop ends up calling the dispatcher, with the command and the connection
  after the rate limiter. Every other frame is answered without waiting for the dispatcher.
\<close>

definition to_dispatch :: "('s, 'x, 'a) server \<Rightarrow> resp3_frame \<Rightarrow> 'a conn \<Rightarrow> 's \<Rightarrow> ('x command \<times> 'a conn) option" where
  "to_dispatch S f c s =
     (case parse_command (d_ext (sv_dispatcher S)) f of
        Inl _ \<Rightarrow> None
      | Inr cmd \<Rightarrow>
          (case acquire_limit S c s of
             (False, _) \<Rightarrow> None
           | (True, c') \<Rightarrow>
               (case cmd of
                  Auth _ \<Rightarrow> None
                | Subscribe _ _ _ \<Rightarrow> None
                | _ \<Rightarrow>
                    if sv_auth_required S \<and> auth c' = None \<and> cmd \<noteq> Ping then None
                    else if check_expiry S (auth c') s = Current then Some (cmd, c') else None)))"

section \<open>What a step changes\<close>

lemma reply_simps [simp, conn_simps]:
  "auth (reply w f c) = auth c" "auth (reply_ignoring w f c) = auth c"
  "mode (reply True f c) = mode c" "mode (reply_ignoring w f c) = mode c"
  "out (reply True f c) = out c @ [f]" "out (reply_ignoring True f c) = out c @ [f]"
  "limiter (reply w f c) = limiter c" "limiter (reply_ignoring w f c) = limiter c"
  by (simp_all add: reply_def reply_ignoring_def)

lemma acquire_limit_simps:
  "auth (snd (acquire_limit S c s)) = auth c" "mode (snd (acquire_limit S c s)) = mode c"
  "out (snd (acquire_limit S c s)) = out c"
  by (simp_all add: acquire_limit_def split: option.split prod.split)

lemma to_dispatch_SomeD:
  assumes "to_dispatch S f c s = Some (cmd, c')"
  shows "parse_command (d_ext (sv_dispatcher S)) f = Inr cmd" "acquire_limit S c s = (True, c')"
    "sv_auth_required S \<Longrightarrow> auth c' = None \<Longrightarrow> cmd = Ping" "auth c' = auth c"
    "check_expiry S (auth c') s = Current" "\<And>token. cmd \<noteq> Auth token" "\<And>ns key events. cmd \<noteq> Subscribe ns key events"
proof -
  obtain cmd' where p: "parse_command (d_ext (sv_dispatcher S)) f = Inr cmd'"
    using assms by (cases "parse_command (d_ext (sv_dispatcher S)) f") (auto simp: to_dispatch_def)
  obtain ok d where a: "acquire_limit S c s = (ok, d)" by fastforce
  with assms p have ok: "ok" by (cases ok) (auto simp: to_dispatch_def)
  have d: "auth d = auth c" using acquire_limit_simps(1) [of S c s] a by simp
  have "cmd' = cmd \<and> d = c' \<and> check_expiry S (auth d) s = Current \<and> (sv_auth_required S \<and> auth d = None \<longrightarrow> cmd = Ping) \<and>
      (\<forall>token. cmd \<noteq> Auth token) \<and> (\<forall>ns key events. cmd \<noteq> Subscribe ns key events)"
    using assms p a ok by (cases cmd') (auto simp: to_dispatch_def split: if_splits)
  then show "parse_command (d_ext (sv_dispatcher S)) f = Inr cmd" "acquire_limit S c s = (True, c')"
      "sv_auth_required S \<Longrightarrow> auth c' = None \<Longrightarrow> cmd = Ping" "auth c' = auth c"
      "check_expiry S (auth c') s = Current" "\<And>token. cmd \<noteq> Auth token" "\<And>ns key events. cmd \<noteq> Subscribe ns key events"
    using p a ok d by auto
qed

lemma normal_frame_dispatch:
  assumes "to_dispatch S f c (world st) = Some (cmd, c')"
  shows "normal_frame S f wok fok (c, st) = handle_execute S cmd wok fok (c', st)"
proof -
  note D = to_dispatch_SomeD [OF assms]
  have "handle_command S cmd wok fok (c', st) = handle_execute S cmd wok fok (c', st)"
    using D(3,5,6,7) by (cases cmd) (auto simp: handle_command_def)
  then show ?thesis by (simp add: normal_frame_def D(1,2))
qed

text \<open>
  The changes to the store that a caller with context \<open>ctx\<close> is entitled to: running a command, or
  opening a subscription, that the access check allows this context at that moment.
\<close>

definition granted_steps :: "('s, 'x, 'a) server \<Rightarrow> 'a \<Rightarrow> ('s \<times> 's) set" where
  "granted_steps S ctx =
     {(s, s'). \<exists>c. permitted (sv_dispatcher S) (Some ctx) c s \<and> s' = snd (dispatch (sv_dispatcher S) c s)} \<union>
     {(s, s'). \<exists>ns key events. is_ok (d_check (sv_dispatcher S) ctx (AclNamespace ns Read None) s) \<and>
        s' = snd (sv_subscribe S ns \<lparr>sf_key = key, sf_events = event_filter events\<rparr> s)}"

definition entitled :: "('s, 'x, 'a) server \<Rightarrow> 'a option \<Rightarrow> ('s \<times> 's) set" where
  "entitled S a = (case a of None \<Rightarrow> {} | Some ctx \<Rightarrow> granted_steps S ctx)"

lemma execute_granted:
  "(world st, world (snd (execute (sv_dispatcher S) (Some ctx) cmd st))) \<in> (granted_steps S ctx)\<^sup>*"
proof -
  have "authorised_steps (sv_dispatcher S) (Some ctx) cmd \<subseteq> granted_steps S ctx"
    by (auto simp: authorised_steps_def granted_steps_def)
  from rtrancl_mono [OF this] execute_authorised show ?thesis by blast
qed

lemma handle_execute_world:
  "world (snd (handle_execute S cmd wok fok (c, st))) = world (snd (execute (sv_dispatcher S) (auth c) cmd st))"
  by (simp add: handle_execute_def finish_execute_def Let_def split: option.split prod.split)

lemma execute_Ping_world: "world (snd (execute D a Ping st)) = world st"
  by (simp add: execute_leaf world_execute_one)

lemma handle_auth_world: "snd (handle_auth S token wok (c, st)) = st"
  by (simp add: handle_auth_def split: sum.split)

lemma handle_subscribe_world:
  assumes "sv_auth_required S \<or> auth c \<noteq> None"
  shows "(world st, world (snd (handle_subscribe S ns key events wok (c, st)))) \<in> (entitled S (auth c))\<^sup>*"
proof (cases "subscribe_gate S (Subscribe ns key events) (auth c) (world st)")
  case None
  then obtain ctx where ctx: "auth c = Some ctx"
      and ok: "is_ok (d_check (sv_dispatcher S) ctx (AclNamespace ns Read None) (world st))"
    using assms by (auto simp: subscribe_gate_def split: option.splits sum.splits)
  obtain r s' where sub: "sv_subscribe S ns \<lparr>sf_key = key, sf_events = event_filter events\<rparr> (world st) = (r, s')"
    by fastforce
  have "(world st, s') \<in> granted_steps S ctx"
    unfolding granted_steps_def using ok sub by (auto intro!: exI [of _ ns] exI [of _ key] exI [of _ events])
  then show ?thesis using None sub
    by (auto simp: handle_subscribe_def ctx entitled_def split: sum.splits)
qed (simp add: handle_subscribe_def)

lemma handle_command_world:
  assumes "sv_auth_required S \<or> auth c \<noteq> None"
  shows "(world st, world (snd (handle_command S cmd wok fok (c, st)))) \<in> (entitled S (auth c))\<^sup>*"
proof -
  have ex: "(world st, world (snd (handle_execute S cmd wok fok (c, st)))) \<in> (entitled S (auth c))\<^sup>*"
    if "auth c \<noteq> None \<or> cmd = Ping"
    using that execute_granted by (auto simp: handle_execute_world entitled_def execute_Ping_world)
  show ?thesis
  proof (cases "sv_auth_required S \<and> auth c = None \<and> cmd \<noteq> Ping")
    case True
    then show ?thesis by (cases cmd) (simp_all add: handle_command_def handle_auth_world)
  next
    case False
    then have "auth c \<noteq> None \<or> cmd = Ping" using assms by auto
    with False ex handle_subscribe_world [OF assms] show ?thesis
      by (cases cmd) (simp_all add: handle_command_def handle_auth_world split: expiry.split)
  qed
qed

lemma conn_step_world:
  assumes "sv_auth_required S \<or> auth c \<noteq> None"
  shows "(world st, world (snd (conn_step S ev (c, st)))) \<in> (entitled S (auth c))\<^sup>*"
proof -
  have nf: "(world st, world (snd (normal_frame S f wok fok (c, st)))) \<in> (entitled S (auth c))\<^sup>*" for f wok fok
  proof (cases "parse_command (d_ext (sv_dispatcher S)) f")
    case (Inr cmd)
    obtain ok c' where a: "acquire_limit S c (world st) = (ok, c')" by fastforce
    have "auth c' = auth c" using acquire_limit_simps(1) [of S c "world st"] a by simp
    with handle_command_world [of S c' st cmd wok fok] assms show ?thesis
      by (cases ok) (simp_all add: normal_frame_def Inr a)
  qed (simp add: normal_frame_def)
  show ?thesis
    by (auto simp: conn_step_def normal_step_def nf split: conn_mode.split conn_event.split sum.split option.split)
qed

section \<open>Where the authentication of a connection comes from\<close>

lemma handle_command_auth:
  "auth (fst (handle_command S cmd wok fok (c, st))) \<in> {auth c, None} \<or>
   (\<exists>token ctx. cmd = Auth token \<and> sv_validate S token (world st) = Inr ctx \<and>
      auth (fst (handle_command S cmd wok fok (c, st))) = Some ctx)"
proof -
  have ex: "auth (fst (handle_execute S cmd wok fok (c, st))) = auth c" for cmd
    by (simp add: handle_execute_def finish_execute_def Let_def split: option.split prod.split)
  have sub: "auth (fst (handle_subscribe S ns key events wok (c, st))) = auth c" for ns key events
    by (simp add: handle_subscribe_def split: option.split prod.split sum.split)
  show ?thesis
  proof (cases "\<exists>token. cmd = Auth token")
    case True
    then show ?thesis by (auto simp: handle_command_def handle_auth_def split: sum.split)
  next
    case False
    then have "auth (fst (handle_command S cmd wok fok (c, st))) \<in> {auth c, None}"
      by (cases cmd) (simp_all add: handle_command_def ex sub split: expiry.split)
    then show ?thesis ..
  qed
qed

definition valid_auth :: "('s, 'x, 'a) server \<Rightarrow> conn_event \<Rightarrow> 's \<Rightarrow> 'a \<Rightarrow> bool" where
  "valid_auth S ev s ctx \<longleftrightarrow> (\<exists>f wok fok token. ev = Frame (Inr (Some f)) wok fok \<and>
     parse_command (d_ext (sv_dispatcher S)) f = Inr (Auth token) \<and> sv_validate S token s = Inr ctx)"

lemma conn_step_auth:
  "auth (fst (conn_step S ev (c, st))) \<in> {auth c, None} \<or>
   (\<exists>ctx. valid_auth S ev (world st) ctx \<and> auth (fst (conn_step S ev (c, st))) = Some ctx)"
proof -
  have nf: "auth (fst (normal_frame S f wok fok (c, st))) \<in> {auth c, None} \<or>
      (\<exists>ctx. valid_auth S (Frame (Inr (Some f)) wok fok) (world st) ctx \<and>
        auth (fst (normal_frame S f wok fok (c, st))) = Some ctx)" for f wok fok
  proof (cases "parse_command (d_ext (sv_dispatcher S)) f")
    case (Inr cmd)
    obtain ok c' where a: "acquire_limit S c (world st) = (ok, c')" by fastforce
    have "auth c' = auth c" using acquire_limit_simps(1) [of S c "world st"] a by simp
    with handle_command_auth [of S cmd wok fok c' st] show ?thesis
      by (cases ok) (auto simp: normal_frame_def Inr a valid_auth_def)
  qed (simp add: normal_frame_def)
  have ns: "auth (fst (normal_step S ev (c, st))) \<in> {auth c, None} \<or>
      (\<exists>ctx. valid_auth S ev (world st) ctx \<and> auth (fst (normal_step S ev (c, st))) = Some ctx)"
    using nf by (cases ev) (auto simp: normal_step_def split: sum.split option.split)
  have ss: "auth (subscribed_step S ev c) = auth c"
    by (simp add: subscribed_step_def subscribed_frame_def
        split: conn_event.split sum.split option.split command.split)
  show ?thesis using ns ss by (simp add: conn_step_def split: conn_mode.split)
qed

section \<open>Replies\<close>

lemma handle_command_reply:
  assumes "command_wf cmd"
  shows "\<exists>r. out (fst (handle_command S cmd True fok (c, st))) = out c @ [r]"
proof -
  obtain resp st' where "execute (sv_dispatcher S) (auth c) cmd st = (Some resp, st')"
    using execute_no_panic(1) [OF assms, of "sv_dispatcher S" "auth c" st]
    by (cases "execute (sv_dispatcher S) (auth c) cmd st") auto
  then have ex: "\<exists>r. out (fst (handle_execute S cmd True fok (c, st))) = out c @ [r]"
    by (simp add: handle_execute_def finish_execute_def Let_def)
  have sub: "\<exists>r. out (fst (handle_subscribe S ns key events True (c, st))) = out c @ [r]" for ns key events
    by (simp add: handle_subscribe_def split: option.split prod.split sum.split)
  have au: "\<exists>r. out (fst (handle_auth S token True (c, st))) = out c @ [r]" for token
    by (simp add: handle_auth_def split: sum.split)
  show ?thesis
    using ex sub au by (cases cmd) (simp_all add: handle_command_def split: expiry.split)
qed

lemma normal_frame_reply: "\<exists>r. out (fst (normal_frame S f True fok (c, st))) = out c @ [r]"
proof (cases "parse_command (d_ext (sv_dispatcher S)) f")
  case (Inr cmd)
  obtain ok c' where a: "acquire_limit S c (world st) = (ok, c')" by fastforce
  have "out c' = out c" using acquire_limit_simps(3) [of S c "world st"] a by simp
  with handle_command_reply [OF parse_wf(1) [OF Inr], of S fok c' st] show ?thesis
    by (cases ok) (simp_all add: normal_frame_def Inr a)
qed (simp add: normal_frame_def)

section \<open>Subscriptions\<close>

text \<open>The connection events that a subscription serves with a frame.\<close>

definition serves :: "('s, 'x, 'a) server \<Rightarrow> conn_event \<Rightarrow> resp3_frame \<Rightarrow> bool" where
  "serves S ev f \<longleftrightarrow>
     (\<exists>e. ev = Message (Some e) True True \<and> f = subscription_event_to_push_frame e) \<or>
     (\<exists>g. ev = Frame (Inr (Some g)) True True \<and> parse_command (d_ext (sv_dispatcher S)) g = Inr Ping \<and>
        f = ok_frame S (rm_with rm_ok ''message'' (RvString ''PONG'')))"

lemma subscription_frames:
  assumes "mode c = Subscribed" and "list_all2 (serves S) evs frames"
  shows "fold (conn_step S) evs (c, st) = (c\<lparr>out := out c @ frames\<rparr>, st)"
  using assms(2,1)
proof (induction evs frames arbitrary: c rule: list_all2_induct)
  case (Cons ev evs f frames)
  have "conn_step S ev (c, st) = (c\<lparr>out := out c @ [f]\<rparr>, st)"
    using Cons.hyps(1) Cons.prems
    by (auto simp: serves_def conn_step_def subscribed_step_def subscribed_frame_def reply_ignoring_def)
  then show ?case using Cons.IH [of "c\<lparr>out := out c @ [f]\<rparr>"] Cons.prems by simp
qed simp

section \<open>A concrete server\<close>

definition demo_server :: "(mem, string, string) server" where
  "demo_server = \<lparr>sv_dispatcher = demo, sv_auth_required = True, sv_rnd = id,
     sv_validate = (\<lambda>token _. if token = ''secret'' then Inr ''admin'' else Inl ''unknown token''),
     sv_platform = ''anonymous'', sv_is_expired = (\<lambda>_ now. 1000 \<le> now),
     sv_unix_secs = (\<lambda>s. Some (of_nat (m_clock s))), sv_subscribe = (\<lambda>_ _ s. (Inr (), s)), sv_rate_limit = (\<lambda>_. None)\<rparr>"

definition cmd_frame :: "string list \<Rightarrow> conn_event" where
  "cmd_frame args = Frame (Inr (Some (Array (map BulkString args)))) True True"

section \<open>Properties\<close>

text \<open>
  C22: outside a subscription the connection answers every frame it reads with exactly one reply frame,
  whatever the frame contains and whatever the state of the server (parse errors, refused, rate
  limited and executed commands alike), so replies pair up with requests in order.
\<close>

theorem conn_one_reply:
  assumes "mode c = Normal"
  shows "\<exists>r. out (fst (conn_step S (Frame (Inr (Some f)) True fok) (c, st))) = out c @ [r]"
  using assms normal_frame_reply [of S f fok c st] by (simp add: conn_step_def normal_step_def)

theorem conn_one_reply_witness:
  "\<exists>r. out (fst (conn_step demo_server (Frame (Inr (Some (Array [BulkString ''GET'']))) True True)
      (conn_init demo_server None demo_state, demo_state))) = out (conn_init demo_server None demo_state) @ [r]"
  by (rule conn_one_reply) (simp add: conn_init_def)



text \<open>
  The frame pushed for a subscription event is read back unchanged by a reader of the protocol,
  whatever bytes the key, the namespace and the actor contain, as long as each fits a bulk string.
\<close>

lemma push_frame_roundtrip:
  assumes "length (se_namespace ev) \<le> MAX_BULK_SIZE" and "length (se_key ev) \<le> MAX_BULK_SIZE"
    and "length (se_actor ev) \<le> MAX_BULK_SIZE"
  shows "read_frame (write_frame (subscription_event_to_push_frame ev) @ rest) =
    Inr (Some (subscription_event_to_push_frame ev), rest)"
  using assms
  by (intro server_wire.dec_enc)
    (simp add: subscription_event_to_push_frame_def Let_def MAX_DEPTH_def MAX_COLLECTION_SIZE_def line_ok_def
      utf8_valid_ascii split: event_type.split)

end
