(* ===== verification/Exec_Machine.thy ===== *)
theory Exec_Machine
  imports Dispatch
begin

text \<open>
  The execution of a command as a small-step machine. \<open>CommandDispatcher::execute\<close> of
  \<open>shroudb-protocol/src/dispatch.rs\<close> is asynchronous: between the sub-commands of a pipeline, other
  connections run on the same dispatcher. A step of the machine is what runs without giving up the
  shared state: one lookup or insertion in the idempotency map, or one leaf command. Running the
  machine alone computes \<^const>\<open>execute\<close>; running several machines in any order is what the server does.
\<close>

section \<open>Definitions\<close>

text \<open>A pipeline being executed: the commands left, the results so far and the request id.\<close>

type_synonym 'x pipe = "'x command list \<times> 'x command_response list \<times> string option"

text \<open>
  \<open>Eval c K\<close>: \<open>c\<close> is about to be executed inside the pipelines \<open>K\<close>, innermost first. \<open>Loop p K\<close>: the
  loop over the sub-commands of \<open>p\<close>. \<open>Return r K\<close>: the last command gave \<open>r\<close>. \<open>Done None\<close>: the task
  has panicked.
\<close>

datatype 'x machine =
    Eval "'x command" "'x pipe list"
  | Loop "'x pipe" "'x pipe list"
  | Return "'x command_response" "'x pipe list"
  | Done "'x command_response option"

fun machine_step :: "('s, 'x, 'a) dispatcher \<Rightarrow> 'a option \<Rightarrow> 'x machine \<times> 's dstate \<Rightarrow> 'x machine \<times> 's dstate" where
  "machine_step D auth (Eval cmd K, st) =
     (case cmd of
        Pipeline commands request_id \<Rightarrow>
          (case lookup_cached D request_id st of
             (Some cached_frame, st1) \<Rightarrow> (Return (CachedFrame cached_frame) K, st1)
           | (None, st1) \<Rightarrow> (Loop (commands, [], request_id) K, st1))
      | _ \<Rightarrow>
          (case execute_one D auth cmd st of
             (None, st1) \<Rightarrow> (Done None, st1)
           | (Some r, st1) \<Rightarrow> (Return r K, st1)))"
| "machine_step D auth (Loop (c # cs, results, request_id) K, st) = (Eval c ((cs, results, request_id) # K), st)"
| "machine_step D auth (Loop ([], results, request_id) K, st) =
     (Return (ArrayResponse results) K, cache_response D request_id (ArrayResponse results) st)"
| "machine_step D auth (Return r ((cs, results, request_id) # K), st) = (Loop (cs, results @ [r], request_id) K, st)"
| "machine_step D auth (Return r [], st) = (Done (Some r), st)"
| "machine_step D auth (Done res, st) = (Done res, st)"

definition machine_run :: "('s, 'x, 'a) dispatcher \<Rightarrow> 'a option \<Rightarrow> nat \<Rightarrow> 'x machine \<times> 's dstate \<Rightarrow> 'x machine \<times> 's dstate" where
  "machine_run D auth n = machine_step D auth ^^ n"

text \<open>
  Commands executed concurrently on one dispatcher: \<open>Spawn auth cmd\<close> starts one, \<open>Step i\<close> runs a step of
  the \<open>i\<close>-th.
\<close>

datatype ('x, 'a) sched = Spawn "'a option" "'x command" | Step nat

definition interleave_step :: "('s, 'x, 'a) dispatcher \<Rightarrow> ('x, 'a) sched \<Rightarrow> ('a option \<times> 'x machine) list \<times> 's dstate \<Rightarrow>
    ('a option \<times> 'x machine) list \<times> 's dstate" where
  "interleave_step D ev mst = (case mst of (ms, st) \<Rightarrow>
     (case ev of
        Spawn auth cmd \<Rightarrow> (ms @ [(auth, Eval cmd [])], st)
      | Step i \<Rightarrow>
          if i < length ms then
            (case ms ! i of (auth, m) \<Rightarrow> (case machine_step D auth (m, st) of (m', st') \<Rightarrow> (ms[i := (auth, m')], st')))
          else (ms, st)))"

definition interleave :: "('s, 'x, 'a) dispatcher \<Rightarrow> ('x, 'a) sched list \<Rightarrow> ('a option \<times> 'x machine) list \<times> 's dstate \<Rightarrow>
    ('a option \<times> 'x machine) list \<times> 's dstate" where
  "interleave D evs mst = fold (interleave_step D) evs mst"

lemma interleave_simps [simp]:
  "interleave D [] mst = mst"
  "interleave D (ev # evs) mst = interleave D evs (interleave_step D ev mst)"
  "interleave D (evs @ evs') mst = interleave D evs' (interleave D evs mst)"
  by (simp_all add: interleave_def)

lemma machine_step_Pipeline [simp]:
  "machine_step D auth (Eval (Pipeline commands request_id) K, st) =
     (case lookup_cached D request_id st of
        (Some cached_frame, st1) \<Rightarrow> (Return (CachedFrame cached_frame) K, st1)
      | (None, st1) \<Rightarrow> (Loop (commands, [], request_id) K, st1))"
  by simp

lemma machine_step_leaf:
  "\<not> is_pipeline cmd \<Longrightarrow> machine_step D auth (Eval cmd K, st) =
     (case execute_one D auth cmd st of
        (None, st1) \<Rightarrow> (Done None, st1)
      | (Some r, st1) \<Rightarrow> (Return r K, st1))"
  by (cases cmd) simp_all

declare machine_step.simps(1) [simp del]

section \<open>A machine that runs alone computes \<open>execute\<close>\<close>

definition reaches :: "('s, 'x, 'a) dispatcher \<Rightarrow> 'a option \<Rightarrow> 'x machine \<times> 's dstate \<Rightarrow> 'x machine \<times> 's dstate \<Rightarrow> bool" where
  "reaches D auth m m' \<longleftrightarrow> (\<exists>n. machine_run D auth n m = m')"

lemma reaches_refl [intro]: "reaches D auth m m"
  by (auto simp: reaches_def machine_run_def intro: exI [of _ 0])

lemma reaches_trans:
  assumes "reaches D auth a b" and "reaches D auth b c" shows "reaches D auth a c"
proof -
  obtain m n where "machine_run D auth m a = b" "machine_run D auth n b = c"
    using assms by (auto simp: reaches_def)
  then have "machine_run D auth (n + m) a = c" by (simp add: machine_run_def funpow_add)
  then show ?thesis by (auto simp: reaches_def)
qed

lemma reaches_step: "reaches D auth (machine_step D auth m) m' \<Longrightarrow> reaches D auth m m'"
  by (rule reaches_trans) (auto simp: reaches_def machine_run_def intro: exI [of _ 1])

lemma machine_computes:
  "reaches D auth (Eval cmd K, st)
     (case execute D auth cmd st of (None, st') \<Rightarrow> (Done None, st') | (Some r, st') \<Rightarrow> (Return r K, st'))"
  "reaches D auth (Loop (cmds, results, rid) K, st)
     (case execute_all D auth cmds st of
        (None, st') \<Rightarrow> (Done None, st')
      | (Some rs, st') \<Rightarrow> (Return (ArrayResponse (results @ rs)) K,
          cache_response D rid (ArrayResponse (results @ rs)) st'))"
proof (induction D auth cmd st and D auth cmds st arbitrary: K and results rid K rule: execute_execute_all.induct)
  case (1 D auth cmd st)
  show ?case
  proof (cases "is_pipeline cmd")
    case False
    then show ?thesis
      by - (rule reaches_step, auto simp: machine_step_leaf execute_leaf split: option.split prod.split)
  next
    case True
    then obtain cmds rid where cmd: "cmd = Pipeline cmds rid" by (cases cmd) auto
    obtain hit st1 where look: "lookup_cached D rid st = (hit, st1)" by fastforce
    show ?thesis
    proof (cases hit)
      case None
      from "1.IH" [OF cmd look [symmetric] None, of "[]" rid K]
      show ?thesis by - (rule reaches_step, simp add: cmd look None execute_Pipeline split: option.splits prod.splits)
    qed (rule reaches_step, auto simp: cmd look execute_Pipeline)
  qed
next
  case (2 D auth st)
  show ?case by (rule reaches_step) auto
next
  case (3 D auth c cs st)
  obtain r st1 where ex: "execute D auth c st = (r, st1)" by fastforce
  show ?case
  proof (cases r)
    case None
    then show ?thesis using "3.IH"(1) [of "(cs, results, rid) # K"] by - (rule reaches_step, simp add: ex)
  next
    case (Some v)
    have a: "reaches D auth (Loop (c # cs, results, rid) K, st) (Return v ((cs, results, rid) # K), st1)"
      using "3.IH"(1) [of "(cs, results, rid) # K"] by - (rule reaches_step, simp add: ex Some)
    have b: "reaches D auth (Return v ((cs, results, rid) # K), st1)
       (case execute_all D auth cs st1 of
          (None, st') \<Rightarrow> (Done None, st')
        | (Some rs, st') \<Rightarrow> (Return (ArrayResponse ((results @ [v]) @ rs)) K,
            cache_response D rid (ArrayResponse ((results @ [v]) @ rs)) st'))"
      using "3.IH"(2) [OF ex [symmetric] Some, of "results @ [v]" rid K] by - (rule reaches_step, simp)
    show ?thesis using reaches_trans [OF a b] by (simp add: ex Some split: option.splits prod.splits)
  qed
qed

lemma machine_execute:
  "reaches D auth (Eval cmd [], st) (Done (fst (execute D auth cmd st)), snd (execute D auth cmd st))"
proof -
  have "reaches D auth (Return r [], st') (Done (Some r), st')" for r st'
    by (rule reaches_step) auto
  with machine_computes(1) [of D auth cmd "[]" st] show ?thesis
    by (auto split: option.splits prod.splits intro: reaches_trans)
qed

section \<open>What a step changes\<close>

text \<open>The leaf commands that a machine may still run.\<close>

definition pipe_leaves :: "'x pipe \<Rightarrow> 'x command set" where
  "pipe_leaves p = set (concat (map leaves (fst p)))"

fun machine_leaves :: "'x machine \<Rightarrow> 'x command set" where
  "machine_leaves (Eval c K) = set (leaves c) \<union> \<Union> (pipe_leaves ` set K)"
| "machine_leaves (Loop p K) = pipe_leaves p \<union> \<Union> (pipe_leaves ` set K)"
| "machine_leaves (Return r K) = \<Union> (pipe_leaves ` set K)"
| "machine_leaves (Done res) = {}"

lemma machine_step_leaves: "machine_leaves (fst (machine_step D auth (m, st))) \<subseteq> machine_leaves m"
proof (cases m)
  case (Eval c K)
  show ?thesis
  proof (cases "is_pipeline c")
    case True
    then show ?thesis by (cases c) (auto simp: Eval pipe_leaves_def split: option.split prod.split)
  qed (auto simp: Eval machine_step_leaf leaves_leaf split: option.split prod.split)
next
  case (Loop p K)
  then show ?thesis by (cases p; cases "fst p") (auto simp: pipe_leaves_def)
next
  case (Return r K)
  then show ?thesis by (cases K) (auto simp: pipe_leaves_def)
qed simp

lemma machine_step_world:
  "world (snd (machine_step D auth (m, st))) = world st \<or>
   (\<exists>c \<in> machine_leaves m. permitted D auth c (world st) \<and>
      world (snd (machine_step D auth (m, st))) = snd (dispatch D c (world st)))"
proof -
  have leaf: "world (snd (machine_step D auth (Eval c K, st))) =
      (if permitted D auth c (world st) then snd (dispatch D c (world st)) else world st)"
    if "\<not> is_pipeline c" for c K
    using that world_execute_one [of D auth c st]
    by (auto simp: machine_step_leaf acl_gate_permitted split: option.splits prod.splits)
  show ?thesis
  proof (cases m)
    case (Eval c K)
    show ?thesis
    proof (cases "is_pipeline c")
      case True
      then obtain cmds rid where c: "c = Pipeline cmds rid" by (cases c) auto
      obtain hit st1 where look: "lookup_cached D rid st = (hit, st1)" by fastforce
      then have "world st1 = world st" using world_cache(1) [of D rid st] by simp
      then show ?thesis by (simp add: Eval c look split: option.split)
    qed (use leaf [of c K] in \<open>auto simp: Eval leaves_leaf\<close>)
  next
    case (Loop p K)
    then show ?thesis by (cases p; cases "fst p") auto
  next
    case (Return r K)
    then show ?thesis by (cases K) auto
  qed simp
qed

section \<open>The idempotency map under interleaving\<close>

definition pipe_ids :: "'x pipe \<Rightarrow> string set" where
  "pipe_ids p = set_option (snd (snd p)) \<union> \<Union> (request_ids ` set (fst p))"

fun machine_ids :: "'x machine \<Rightarrow> string set" where
  "machine_ids (Eval c K) = request_ids c \<union> \<Union> (pipe_ids ` set K)"
| "machine_ids (Loop p K) = pipe_ids p \<union> \<Union> (pipe_ids ` set K)"
| "machine_ids (Return r K) = \<Union> (pipe_ids ` set K)"
| "machine_ids (Done res) = {}"

lemma request_ids_leaf: "\<not> is_pipeline c \<Longrightarrow> request_ids c = {}"
  by (cases c) simp_all

lemma machine_step_ids: "machine_ids (fst (machine_step D auth (m, st))) \<subseteq> machine_ids m"
proof (cases m)
  case (Eval c K)
  show ?thesis
  proof (cases "is_pipeline c")
    case True
    then show ?thesis by (cases c) (auto simp: Eval pipe_ids_def split: option.split prod.split)
  qed (auto simp: Eval machine_step_leaf request_ids_leaf split: option.split prod.split)
next
  case (Loop p K)
  then show ?thesis by (cases p; cases "fst p") (auto simp: pipe_ids_def)
next
  case (Return r K)
  then show ?thesis by (cases K) (auto simp: pipe_ids_def)
qed simp

lemma machine_step_idem_run:
  assumes "clock_monotonic D" and "machine_ids m \<subseteq> R"
  shows "idem_run D R st (snd (machine_step D auth (m, st)))"
proof (cases m)
  case (Eval c K)
  show ?thesis
  proof (cases "is_pipeline c")
    case True
    then obtain cmds rid where c: "c = Pipeline cmds rid" by (cases c) auto
    have "snd (machine_step D auth (m, st)) = snd (lookup_cached D rid st)"
      by (simp add: Eval c split: option.split prod.split)
    then show ?thesis by (simp add: lookup_idem_run)
  next
    case False
    then have "snd (machine_step D auth (m, st)) = snd (execute_one D auth c st)"
      by (simp add: Eval machine_step_leaf split: option.split prod.split)
    then show ?thesis by (simp add: execute_one_idem_run [OF assms(1)])
  qed
next
  case (Loop p K)
  obtain cs rs rid where p: "p = (cs, rs, rid)" by (cases p)
  then show ?thesis
    using assms(2) by (cases cs) (auto simp: Loop pipe_ids_def idem_run_refl intro: cache_idem_run)
next
  case (Return r K)
  then show ?thesis by (cases K) (auto simp: idem_run_refl)
qed (simp add: idem_run_refl)

definition sched_ids :: "('x, 'a) sched list \<Rightarrow> string set" where
  "sched_ids evs = (\<Union>ev \<in> set evs. case ev of Spawn _ c \<Rightarrow> request_ids c | Step _ \<Rightarrow> {})"

lemma interleave_step_ids:
  assumes "\<Union> (machine_ids ` snd ` set ms) \<union> sched_ids [ev] \<subseteq> R"
  shows "\<Union> (machine_ids ` snd ` set (fst (interleave_step D ev (ms, st)))) \<subseteq> R"
proof (cases ev)
  case (Step i)
  show ?thesis
  proof (cases "i < length ms")
    case True
    obtain auth m where mi: "ms ! i = (auth, m)" by fastforce
    have "machine_ids m \<subseteq> R" using assms nth_mem [OF True] mi by force
    then have "machine_ids (fst (machine_step D auth (m, st))) \<subseteq> R"
      using machine_step_ids [of D auth m st] by blast
    then show ?thesis using assms True
      by (auto simp: Step interleave_step_def mi split: prod.split dest!: set_update_subset_insert [THEN subsetD])
  qed (use assms in \<open>simp add: Step interleave_step_def\<close>)
qed (use assms in \<open>auto simp: interleave_step_def sched_ids_def\<close>)

lemma interleave_idem_run:
  assumes "clock_monotonic D" and "\<Union> (machine_ids ` snd ` set ms) \<union> sched_ids evs \<subseteq> R"
  shows "idem_run D R st (snd (interleave D evs (ms, st)))"
  using assms(2)
proof (induction evs arbitrary: ms st)
  case (Cons ev evs)
  obtain ms' st' where s: "interleave_step D ev (ms, st) = (ms', st')" by fastforce
  have "idem_run D R st st'"
  proof (cases ev)
    case (Step i)
    have "machine_ids (snd (ms ! i)) \<subseteq> R" if "i < length ms" using Cons.prems nth_mem [OF that] by blast
    then show ?thesis using s machine_step_idem_run [OF assms(1), of "snd (ms ! i)" R st "fst (ms ! i)"]
      by (auto simp: Step interleave_step_def idem_run_refl split: if_splits prod.splits)
  qed (use s in \<open>simp add: interleave_step_def idem_run_refl\<close>)
  moreover have "\<Union> (machine_ids ` snd ` set ms') \<union> sched_ids evs \<subseteq> R"
    using interleave_step_ids [of ms ev R D st] Cons.prems by (auto simp: s sched_ids_def)
  ultimately show ?case using Cons.IH [of ms' st'] by (auto simp: s intro: idem_run_trans)
qed (simp add: idem_run_refl)

section \<open>Running machines side by side\<close>

text \<open>Steps of the \<open>i\<close>-th machine alone.\<close>

lemma interleave_alone:
  assumes "i < length ms" and "ms ! i = (auth, m)"
  shows "interleave D (replicate n (Step i)) (ms, st) =
    (ms[i := (auth, fst (machine_run D auth n (m, st)))], snd (machine_run D auth n (m, st)))"
  using assms
proof (induction n arbitrary: ms m st)
  case 0
  then show ?case using list_update_id [of ms i] by (simp add: machine_run_def)
next
  case (Suc n)
  obtain m' st' where s: "machine_step D auth (m, st) = (m', st')" by fastforce
  have run: "machine_run D auth (Suc n) (m, st) = machine_run D auth n (m', st')"
    by (simp add: machine_run_def funpow_swap1 s)
  have "interleave D (replicate (Suc n) (Step i)) (ms, st) = interleave D (replicate n (Step i)) (ms[i := (auth, m')], st')"
    using Suc.prems by (simp add: interleave_step_def s)
  also have "\<dots> = (ms[i := (auth, m'), i := (auth, fst (machine_run D auth n (m', st')))], snd (machine_run D auth n (m', st')))"
    using Suc.prems by (intro Suc.IH) simp_all
  finally show ?case by (simp add: run)
qed

lemma interleave_reaches:
  assumes "reaches D auth (m, st) (m', st')" and "i < length ms" and "ms ! i = (auth, m)"
  obtains n where "interleave D (replicate n (Step i)) (ms, st) = (ms[i := (auth, m')], st')"
proof -
  obtain n where "machine_run D auth n (m, st) = (m', st')" using assms(1) by (auto simp: reaches_def)
  with interleave_alone [OF assms(2,3), of D n st] that show thesis by simp
qed

lemma lookup_again: "lookup_cached D rid st = (None, st1) \<Longrightarrow> lookup_cached D rid st1 = (None, st1)"
  by (auto simp: lookup_cached_def idempotency_get_def split: option.splits prod.splits if_splits)

section \<open>Properties\<close>

text \<open>
  The small steps compute the same as \<open>execute\<close>. For every command, pipelines nested in any way
  included, finitely many steps of the machine, when nothing else runs in between, end with the response
  and the state of \<open>execute\<close>.
\<close>

lemma execute_small_steps:
  "\<exists>n. machine_run D auth n (Eval cmd [], st) = (Done (fst (execute D auth cmd st)), snd (execute D auth cmd st))"
  using machine_execute [of D auth cmd st] by (simp add: reaches_def)

text \<open>
  C6: replay under concurrency. Once a pipeline with a request id has completed, any pipeline with that
  id is answered with the cached frame without executing anything, however the steps of other commands
  were interleaved in the meantime, as long as the entry is fresh. The other commands, those already in
  flight and those started later, must not carry the same id.
\<close>

theorem pipeline_replay_interleaved:
  assumes "clock_monotonic D"
    and "st1 = cache_response D (Some rid) (ArrayResponse rs) st0"
    and "interleave D evs (ms, st1) = (ms', st2)"
    and "rid \<notin> \<Union> (machine_ids ` snd ` set ms) \<union> sched_ids evs"
    and "elapsed_secs (d_now D (world st2)) (d_now D (world st1)) < unat (ttl_secs (idem_map st0))"
  shows "machine_step D auth (Eval (Pipeline cmds (Some rid)) K, st2) =
    (Return (CachedFrame (response_to_frame (d_ext D) (ArrayResponse rs))) K, st2)"
proof -
  have "idem_run D (- {rid}) st1 st2"
    using interleave_idem_run [OF assms(1), of ms evs "- {rid}" st1] assms(3,4) by auto
  then have "fst (idempotency_get (d_now D (world st2)) rid (idem_map st2)) =
      fst (idempotency_get (d_now D (world st2)) rid (idem_map st1))"
    by (rule idem_run_lookup) simp
  also have "\<dots> = Some (response_to_frame (d_ext D) (ArrayResponse rs))"
    using assms(2,5) by (simp add: cache_response_def idem.get_insert_same idempotency_fresh_def)
  finally have "idempotency_get (d_now D (world st2)) rid (idem_map st2) =
      (Some (response_to_frame (d_ext D) (ArrayResponse rs)), idem_map st2)"
    by (auto simp: idempotency_get_def split: option.splits if_splits)
  then show ?thesis by (simp add: lookup_cached_def)
qed

theorem pipeline_replay_interleaved_witness:
  "machine_step demo None (Eval (Pipeline [Ping] (Some ''r'')) [],
      snd (interleave demo [Spawn None Ping, Step 0] ([], cache_response demo (Some ''r'') (ArrayResponse []) demo_state))) =
    (Return (CachedFrame (response_to_frame (d_ext demo) (ArrayResponse []))) [],
      snd (interleave demo [Spawn None Ping, Step 0] ([], cache_response demo (Some ''r'') (ArrayResponse []) demo_state)))"
proof (rule pipeline_replay_interleaved [OF clock_monotonic_demo refl])
  show "interleave demo [Spawn None Ping, Step 0] ([], cache_response demo (Some ''r'') (ArrayResponse []) demo_state) =
    (fst (interleave demo [Spawn None Ping, Step 0] ([], cache_response demo (Some ''r'') (ArrayResponse []) demo_state)),
     snd (interleave demo [Spawn None Ping, Step 0] ([], cache_response demo (Some ''r'') (ArrayResponse []) demo_state)))"
    by simp
  show "''r'' \<notin> \<Union> (machine_ids ` snd ` set []) \<union> sched_ids [Spawn None Ping, Step 0]"
    by (simp add: sched_ids_def)
  show "elapsed_secs (d_now demo (world (snd (interleave demo [Spawn None Ping, Step 0]
        ([], cache_response demo (Some ''r'') (ArrayResponse []) demo_state)))))
      (d_now demo (world (cache_response demo (Some ''r'') (ArrayResponse []) demo_state)))
      < unat (ttl_secs (idem_map demo_state))"
    by (simp add: interleave_step_def machine_step_leaf demo_simps)
qed



end
