(* ===== verification/Server.thy ===== *)
theory Server
  imports Connection Exec_Machine Config
begin

text \<open>
  The server of \<open>shroudb-server/src/server.rs\<close>: binding its listeners, the accept loop, the connection
  tasks that run concurrently on the shared dispatcher, and the drain at shutdown. A run is any
  interleaving of the steps of its tasks, given as a list of events; a task that executes a command
  gives way to the others after every step of \<^const>\<open>machine_step\<close>. An abort takes effect at once.
\<close>

section \<open>Listeners\<close>

text \<open>Binding a TCP address, building the TLS acceptor, and replacing and binding a Unix socket.\<close>

record net_ops =
  net_bind :: "string \<Rightarrow> string + unit"
  net_tls :: "tls_config \<Rightarrow> string + unit"
  net_bind_uds :: "string \<Rightarrow> string + unit"

record listener_set =
  ls_tls :: bool
  ls_uds :: bool

definition listen :: "net_ops \<Rightarrow> server_config \<Rightarrow> string + listener_set" where
  "listen N config =
     try_res (map_err (\<lambda>_. ''binding TCP on '' @ sc_bind config) (net_bind N (sc_bind config))) (\<lambda>_.
     try_res (case sc_tls config of
         None \<Rightarrow> Inr False
       | Some tls \<Rightarrow> map_sum (\<lambda>_. ''failed to build TLS acceptor'') (\<lambda>_. True) (net_tls N tls)) (\<lambda>tls.
     try_res (case sc_unix_socket config of
         None \<Rightarrow> Inr False
       | Some path \<Rightarrow> map_sum (\<lambda>_. ''binding UDS on '' @ path) (\<lambda>_. True) (net_bind_uds N path)) (\<lambda>uds.
     Inr \<lparr>ls_tls = tls, ls_uds = uds\<rparr>)))"

section \<open>Tasks\<close>

text \<open>
  A task of the join set: in the TLS handshake, with the rate limit read when it was accepted; waiting
  for the next event; waiting for the dispatcher to execute a command, with the outcome of writing and
  flushing the reply; finished; collected by \<open>join_next\<close> or dropped after an abort.
\<close>

datatype ('x, 'a) task =
    Handshake "u32 option"
  | Serving "'a conn"
  | Executing "'a conn" bool bool "'x machine"
  | Ended
  | Joined

datatype phase = Accepting | Draining | Stopped

text \<open>\<open>connections\<close>: the gauge of concurrent connections.\<close>

record ('s, 'x, 'a) sys =
  phase :: phase
  listeners :: listener_set
  tasks :: "('x, 'a) task list"
  connections :: int
  shared :: "'s dstate"

definition sys_init :: "listener_set \<Rightarrow> 's dstate \<Rightarrow> ('s, 'x, 'a) sys" where
  "sys_init ls st = \<lparr>phase = Accepting, listeners = ls, tasks = [], connections = 0, shared = st\<rparr>"

text \<open>
  \<open>Accept_tcp\<close>, \<open>Accept_uds\<close>, \<open>Accept_error\<close>: what the listeners yield. \<open>Handshake_done i ok\<close>: the TLS
  handshake of task \<open>i\<close> ends. \<open>At i ev\<close>: what task \<open>i\<close> waits for happens. \<open>Exec i\<close>: a step of the command
  that task \<open>i\<close> executes. \<open>Join i\<close>: \<open>join_next\<close> returns a finished task. \<open>Drained\<close>: the drain loop finds
  no tasks. \<open>Drain_timeout\<close>: its deadline passes. \<open>Dropped i\<close>: an aborted task is dropped. \<open>Background f\<close>:
  any other task (scheduler, idempotency reaper, configuration reloader, passing of time) changes the
  shared state.
\<close>

datatype 's sys_event =
    Signal bool
  | Accept_tcp
  | Accept_uds
  | Accept_error
  | Handshake_done nat bool
  | At nat conn_event
  | Exec nat
  | Join nat
  | Drained
  | Drain_timeout
  | Dropped nat
  | Background "'s dstate \<Rightarrow> 's dstate"

text \<open>\<open>handle_connection\<close> increments the gauge when it starts; its guard decrements it when it is dropped.\<close>

definition start_conn :: "('s, 'x, 'a) server \<Rightarrow> u32 option \<Rightarrow> ('s, 'x, 'a) sys \<Rightarrow> ('x, 'a) task \<times> ('s, 'x, 'a) sys" where
  "start_conn S limit sy = (Serving (conn_init S limit (shared sy)), sy\<lparr>connections := connections sy + 1\<rparr>)"

definition spawn :: "('x, 'a) task \<times> ('s, 'x, 'a) sys \<Rightarrow> ('s, 'x, 'a) sys" where
  "spawn tsy = (case tsy of (t, sy) \<Rightarrow> sy\<lparr>tasks := tasks sy @ [t]\<rparr>)"

definition set_task :: "nat \<Rightarrow> ('x, 'a) task \<times> ('s, 'x, 'a) sys \<Rightarrow> ('s, 'x, 'a) sys" where
  "set_task i tsy = (case tsy of (t, sy) \<Rightarrow> sy\<lparr>tasks := (tasks sy)[i := t]\<rparr>)"

definition leave_conn :: "('x, 'a) task \<Rightarrow> ('s, 'x, 'a) sys \<Rightarrow> ('x, 'a) task \<times> ('s, 'x, 'a) sys" where
  "leave_conn t sy = (t, sy\<lparr>connections := connections sy - 1\<rparr>)"

text \<open>The loop of the connection goes on, or has ended.\<close>

definition next_iteration :: "'a conn \<Rightarrow> ('s, 'x, 'a) sys \<Rightarrow> ('x, 'a) task \<times> ('s, 'x, 'a) sys" where
  "next_iteration c sy = (if mode c = Closed then leave_conn Ended sy else (Serving c, sy))"

definition accept_tcp :: "('s, 'x, 'a) server \<Rightarrow> ('s, 'x, 'a) sys \<Rightarrow> ('s, 'x, 'a) sys" where
  "accept_tcp S sy =
     (let limit = sv_rate_limit S (world (shared sy)) in
      spawn (if ls_tls (listeners sy) then (Handshake limit, sy) else start_conn S limit sy))"

definition dispatch_event :: "('s, 'x, 'a) server \<Rightarrow> conn_event \<Rightarrow> 'a conn \<Rightarrow> 's \<Rightarrow> ('x command \<times> 'a conn \<times> bool \<times> bool) option" where
  "dispatch_event S ev c s = (case ev of
     Frame (Inr (Some f)) wok fok \<Rightarrow>
       if mode c = Normal then map_option (\<lambda>(cmd, c'). (cmd, c', wok, fok)) (to_dispatch S f c s) else None
   | _ \<Rightarrow> None)"

definition serve_event :: "('s, 'x, 'a) server \<Rightarrow> conn_event \<Rightarrow> 'a conn \<Rightarrow> ('s, 'x, 'a) sys \<Rightarrow> ('x, 'a) task \<times> ('s, 'x, 'a) sys" where
  "serve_event S ev c sy =
     (case dispatch_event S ev c (world (shared sy)) of
        Some (cmd, c', wok, fok) \<Rightarrow> (Executing c' wok fok (Eval cmd []), sy)
      | None \<Rightarrow> (case conn_step S ev (c, shared sy) of (c', st') \<Rightarrow> next_iteration c' (sy\<lparr>shared := st'\<rparr>)))"

definition exec_event :: "('s, 'x, 'a) server \<Rightarrow> 'a conn \<Rightarrow> bool \<Rightarrow> bool \<Rightarrow> 'x machine \<Rightarrow> ('s, 'x, 'a) sys \<Rightarrow>
    ('x, 'a) task \<times> ('s, 'x, 'a) sys" where
  "exec_event S c wok fok m sy =
     (case machine_step (sv_dispatcher S) (auth c) (m, shared sy) of (m', st') \<Rightarrow>
        (case m' of
           Done res \<Rightarrow> next_iteration (finish_execute S res wok fok c) (sy\<lparr>shared := st'\<rparr>)
         | _ \<Rightarrow> (Executing c wok fok m', sy\<lparr>shared := st'\<rparr>)))"

text \<open>A step of task \<open>i\<close>, unless the tasks have been aborted.\<close>

definition step_task :: "('s, 'x, 'a) server \<Rightarrow> 's sys_event \<Rightarrow> ('x, 'a) task \<Rightarrow> ('s, 'x, 'a) sys \<Rightarrow> ('x, 'a) task \<times> ('s, 'x, 'a) sys" where
  "step_task S ev t sy = (case (ev, t) of
     (Handshake_done _ ok, Handshake limit) \<Rightarrow> if ok then start_conn S limit sy else (Ended, sy)
   | (At _ cev, Serving c) \<Rightarrow> serve_event S cev c sy
   | (Exec _, Executing c wok fok m) \<Rightarrow> exec_event S c wok fok m sy
   | _ \<Rightarrow> (t, sy))"

definition drop_task :: "('x, 'a) task \<Rightarrow> ('s, 'x, 'a) sys \<Rightarrow> ('x, 'a) task \<times> ('s, 'x, 'a) sys" where
  "drop_task t sy = (case t of
     Serving _ \<Rightarrow> leave_conn Joined sy
   | Executing _ _ _ _ \<Rightarrow> leave_conn Joined sy
   | _ \<Rightarrow> (Joined, sy))"

definition with_task :: "nat \<Rightarrow> (('x, 'a) task \<Rightarrow> ('s, 'x, 'a) sys \<Rightarrow> ('x, 'a) task \<times> ('s, 'x, 'a) sys) \<Rightarrow> ('s, 'x, 'a) sys \<Rightarrow> ('s, 'x, 'a) sys" where
  "with_task i f sy = (if i < length (tasks sy) then set_task i (f (tasks sy ! i) sy) else sy)"

definition no_tasks :: "('s, 'x, 'a) sys \<Rightarrow> bool" where
  "no_tasks sy = list_all (\<lambda>t. case t of Joined \<Rightarrow> True | _ \<Rightarrow> False) (tasks sy)"

definition sys_step :: "('s, 'x, 'a) server \<Rightarrow> 's sys_event \<Rightarrow> ('s, 'x, 'a) sys \<Rightarrow> ('s, 'x, 'a) sys" where
  "sys_step S ev sy = (case ev of
     Signal b \<Rightarrow> if phase sy = Accepting \<and> b then sy\<lparr>phase := Draining\<rparr> else sy
   | Accept_tcp \<Rightarrow> if phase sy = Accepting then accept_tcp S sy else sy
   | Accept_uds \<Rightarrow>
       if phase sy = Accepting \<and> ls_uds (listeners sy)
       then spawn (start_conn S (sv_rate_limit S (world (shared sy))) sy) else sy
   | Accept_error \<Rightarrow> sy
   | Handshake_done i ok \<Rightarrow> if phase sy = Stopped then sy else with_task i (step_task S ev) sy
   | At i cev \<Rightarrow> if phase sy = Stopped then sy else with_task i (step_task S ev) sy
   | Exec i \<Rightarrow> if phase sy = Stopped then sy else with_task i (step_task S ev) sy
   | Join i \<Rightarrow> if phase sy = Draining then with_task i (\<lambda>t sy. case t of Ended \<Rightarrow> (Joined, sy) | _ \<Rightarrow> (t, sy)) sy else sy
   | Drained \<Rightarrow> if phase sy = Draining \<and> no_tasks sy then sy\<lparr>phase := Stopped\<rparr> else sy
   | Drain_timeout \<Rightarrow> if phase sy = Draining then sy\<lparr>phase := Stopped\<rparr> else sy
   | Dropped i \<Rightarrow> if phase sy = Stopped then with_task i drop_task sy else sy
   | Background f \<Rightarrow> sy\<lparr>shared := f (shared sy)\<rparr>)"

definition sys_run :: "('s, 'x, 'a) server \<Rightarrow> 's sys_event list \<Rightarrow> ('s, 'x, 'a) sys \<Rightarrow> ('s, 'x, 'a) sys" where
  "sys_run S evs sy = fold (sys_step S) evs sy"

lemma sys_run_simps [simp]:
  "sys_run S [] sy = sy"
  "sys_run S (ev # evs) sy = sys_run S evs (sys_step S ev sy)"
  "sys_run S (evs @ evs') sy = sys_run S evs' (sys_run S evs sy)"
  by (simp_all add: sys_run_def)

section \<open>What a step of a task keeps\<close>

text \<open>A task inside \<open>handle_connection\<close>.\<close>

definition live :: "('x, 'a) task \<Rightarrow> bool" where
  "live t = (case t of Serving _ \<Rightarrow> True | Executing _ _ _ _ \<Rightarrow> True | _ \<Rightarrow> False)"

lemma live_simps [simp]:
  "\<not> live (Handshake l)" "live (Serving c)" "live (Executing c w f m)" "\<not> live Ended" "\<not> live Joined"
  by (simp_all add: live_def)

text \<open>The parts of the state that a step of a task leaves alone, and its effect on the gauge.\<close>

definition keeps :: "('x, 'a) task \<Rightarrow> ('s, 'x, 'a) sys \<Rightarrow> ('x, 'a) task \<times> ('s, 'x, 'a) sys \<Rightarrow> bool" where
  "keeps t sy tsy \<longleftrightarrow> tasks (snd tsy) = tasks sy \<and> phase (snd tsy) = phase sy \<and>
     connections (snd tsy) = connections sy + of_bool (live (fst tsy)) - of_bool (live t)"

lemma next_iteration_keeps:
  "live t \<Longrightarrow> keeps t sy (next_iteration c (sy\<lparr>shared := st\<rparr>))"
  by (simp add: keeps_def next_iteration_def leave_conn_def)

lemma step_task_cases:
  obtains (handshake) i ok l where "ev = Handshake_done i ok" "t = Handshake l"
      "step_task S ev t sy = (if ok then start_conn S l sy else (Ended, sy))"
    | (serve) i cev c where "ev = At i cev" "t = Serving c" "step_task S ev t sy = serve_event S cev c sy"
    | (exec) i c w f m where "ev = Exec i" "t = Executing c w f m" "step_task S ev t sy = exec_event S c w f m sy"
    | (idle) "step_task S ev t sy = (t, sy)"
  by (cases ev; cases t) (auto simp: step_task_def)

lemma step_task_keeps: "keeps t sy (step_task S ev t sy)"
proof -
  have 1: "keeps (Serving c) sy (serve_event S cev c sy)" for c cev
    using next_iteration_keeps [of "Serving c" sy]
    by (auto simp: serve_event_def keeps_def split: option.split prod.split)
  have 2: "keeps (Executing c w f m) sy (exec_event S c w f m sy)" for c w f m
    using next_iteration_keeps [of "Executing c w f m" sy]
    by (auto simp: exec_event_def keeps_def split: machine.split prod.split)
  have 3: "keeps t sy (t, sy)" "keeps (Handshake l) sy (Ended, sy)" "keeps (Handshake l) sy (start_conn S l sy)" for l
    by (simp_all add: keeps_def start_conn_def)
  show ?thesis by (rule step_task_cases [of ev t S sy]) (simp_all add: 1 2 3)
qed

lemma drop_task_keeps: "keeps t sy (drop_task t sy)"
  by (simp add: keeps_def drop_task_def leave_conn_def split: task.split)

lemma join_keeps: "keeps t sy (case t of Ended \<Rightarrow> (Joined, sy) | _ \<Rightarrow> (t, sy))"
  by (simp add: keeps_def split: task.split)

definition gauge_ok :: "('s, 'x, 'a) sys \<Rightarrow> bool" where
  "gauge_ok sy \<longleftrightarrow> connections sy = int (length (filter live (tasks sy)))"

lemma gauge_ok_simps [simp]:
  "gauge_ok (sy\<lparr>phase := p\<rparr>) = gauge_ok sy" "gauge_ok (sy\<lparr>shared := st\<rparr>) = gauge_ok sy"
  by (simp_all add: gauge_ok_def)

lemma length_filter_update:
  "i < length xs \<Longrightarrow> int (length (filter P (xs[i := y]))) = int (length (filter P xs)) + of_bool (P y) - of_bool (P (xs ! i))"
proof (induction xs arbitrary: i)
  case (Cons x xs)
  then show ?case by (cases i) auto
qed simp

lemma with_task_gauge:
  assumes "gauge_ok sy" and "keeps (tasks sy ! i) sy (f (tasks sy ! i) sy)"
  shows "gauge_ok (with_task i f sy)"
  using assms length_filter_update [of i "tasks sy" live "fst (f (tasks sy ! i) sy)"]
  by (simp add: gauge_ok_def with_task_def set_task_def keeps_def case_prod_beta)

lemma sys_step_gauge: "gauge_ok sy \<Longrightarrow> gauge_ok (sys_step S ev sy)"
proof -
  assume ok: "gauge_ok sy"
  have w: "gauge_ok (with_task i (step_task S ev) sy)" "gauge_ok (with_task i drop_task sy)"
      "gauge_ok (with_task i (\<lambda>t sy. case t of Ended \<Rightarrow> (Joined, sy) | _ \<Rightarrow> (t, sy)) sy)" for i ev
    by (rule with_task_gauge [OF ok], rule step_task_keeps drop_task_keeps join_keeps)+
  have s: "gauge_ok (spawn (start_conn S l sy))" "gauge_ok (spawn (Handshake l, sy))" for l
    using ok by (simp_all add: gauge_ok_def spawn_def start_conn_def)
  show ?thesis using ok by (cases ev) (simp_all add: sys_step_def w s accept_tcp_def Let_def)
qed

section \<open>Who can change the store\<close>

text \<open>
  The contexts for which some connection presents a token during the run of \<open>evs\<close> from \<open>sy\<close> that the
  validator accepts at that moment.
\<close>

definition authenticated_by :: "('s, 'x, 'a) server \<Rightarrow> 's sys_event \<Rightarrow> ('s, 'x, 'a) sys \<Rightarrow> 'a set" where
  "authenticated_by S ev sy = {ctx. \<exists>i cev. ev = At i cev \<and> valid_auth S cev (world (shared sy)) ctx}"

fun authenticated :: "('s, 'x, 'a) server \<Rightarrow> 's sys_event list \<Rightarrow> ('s, 'x, 'a) sys \<Rightarrow> 'a set" where
  "authenticated S [] sy = {}"
| "authenticated S (ev # evs) sy = authenticated_by S ev sy \<union> authenticated S evs (sys_step S ev sy)"

definition background_steps :: "'s sys_event list \<Rightarrow> ('s \<times> 's) set" where
  "background_steps evs = {(s, s'). \<exists>f st. Background f \<in> set evs \<and> s = world st \<and> s' = world (f st)}"

definition client_steps :: "('s, 'x, 'a) server \<Rightarrow> 'a set \<Rightarrow> ('s \<times> 's) set" where
  "client_steps S V = (\<Union>ctx \<in> V. granted_steps S ctx)"

text \<open>A task acts for a context of \<open>V\<close>, or has none and executes nothing but \<open>PING\<close>.\<close>

definition task_auth :: "'a set \<Rightarrow> ('x, 'a) task \<Rightarrow> bool" where
  "task_auth V t = (case t of
     Serving c \<Rightarrow> set_option (auth c) \<subseteq> V
   | Executing c _ _ m \<Rightarrow> set_option (auth c) \<subseteq> V \<and> (auth c = None \<longrightarrow> machine_leaves m \<subseteq> {Ping})
   | _ \<Rightarrow> True)"

lemma task_auth_simps [simp]:
  "task_auth V (Handshake l)" "task_auth V Ended" "task_auth V Joined"
  "task_auth V (Serving c) \<longleftrightarrow> set_option (auth c) \<subseteq> V"
  "task_auth V (Executing c w f m) \<longleftrightarrow> set_option (auth c) \<subseteq> V \<and> (auth c = None \<longrightarrow> machine_leaves m \<subseteq> {Ping})"
  by (simp_all add: task_auth_def)

definition auth_inv :: "'a set \<Rightarrow> ('s, 'x, 'a) sys \<Rightarrow> bool" where
  "auth_inv V sy \<longleftrightarrow> (\<forall>t \<in> set (tasks sy). task_auth V t)"

lemma auth_inv_simps [simp]:
  "auth_inv V (sy\<lparr>phase := p\<rparr>) = auth_inv V sy" "auth_inv V (sy\<lparr>shared := st\<rparr>) = auth_inv V sy"
  by (simp_all add: auth_inv_def)

lemma entitled_client: "set_option a \<subseteq> V \<Longrightarrow> entitled S a \<subseteq> client_steps S V"
  by (auto simp: entitled_def client_steps_def split: option.splits)

lemma conn_step_auth_in:
  assumes "set_option (auth c) \<subseteq> V" and "\<And>ctx. valid_auth S ev (world st) ctx \<Longrightarrow> ctx \<in> V"
  shows "set_option (auth (fst (conn_step S ev (c, st)))) \<subseteq> V"
  using conn_step_auth [of S ev c st] assms by auto

lemma next_iteration_simps [simp]:
  "shared (snd (next_iteration c sy)) = shared sy"
  "task_auth V (fst (next_iteration c sy)) \<longleftrightarrow> mode c = Closed \<or> set_option (auth c) \<subseteq> V"
  by (simp_all add: next_iteration_def leave_conn_def)

lemma auth_finish_execute [simp]: "auth (finish_execute S res wok fok c) = auth c"
  by (simp add: finish_execute_def Let_def split: option.split)

lemma dispatch_eventD:
  assumes "dispatch_event S ev c s = Some (cmd, c', wok, fok)"
  shows "\<exists>f. ev = Frame (Inr (Some f)) wok fok \<and> mode c = Normal \<and> to_dispatch S f c s = Some (cmd, c')"
  using assms by (auto simp: dispatch_event_def split: conn_event.splits sum.splits option.splits if_splits)

lemma serve_event_auth:
  assumes "sv_auth_required S" and "set_option (auth c) \<subseteq> V" and "authenticated_by S (At i ev) sy \<subseteq> V"
  shows "task_auth V (fst (serve_event S ev c sy))"
proof (cases "dispatch_event S ev c (world (shared sy))")
  case None
  have "set_option (auth (fst (conn_step S ev (c, shared sy)))) \<subseteq> V"
    using assms(2,3) by (intro conn_step_auth_in) (auto simp: authenticated_by_def)
  then show ?thesis by (simp add: serve_event_def None case_prod_beta)
next
  case (Some x)
  obtain cmd c' wok fok where x: "x = (cmd, c', wok, fok)" by (cases x)
  then obtain f where "to_dispatch S f c (world (shared sy)) = Some (cmd, c')"
    using dispatch_eventD [OF Some [unfolded x]] by blast
  from to_dispatch_SomeD [OF this] assms(1,2) show ?thesis
    by (auto simp: serve_event_def Some x)
qed

lemma exec_event_auth:
  assumes "task_auth V (Executing c wok fok m)"
  shows "task_auth V (fst (exec_event S c wok fok m sy))"
proof -
  obtain m' st' where s: "machine_step (sv_dispatcher S) (auth c) (m, shared sy) = (m', st')" by fastforce
  then have "machine_leaves m' \<subseteq> machine_leaves m"
    using machine_step_leaves [of "sv_dispatcher S" "auth c" m "shared sy"] by simp
  then show ?thesis using assms by (cases m') (auto simp: exec_event_def s)
qed

lemma exec_event_world:
  assumes "task_auth V (Executing c wok fok m)"
  shows "(world (shared sy), world (shared (snd (exec_event S c wok fok m sy)))) \<in> (client_steps S V)\<^sup>*"
proof -
  obtain m' st' where s: "machine_step (sv_dispatcher S) (auth c) (m, shared sy) = (m', st')" by fastforce
  have w: "shared (snd (exec_event S c wok fok m sy)) = st'"
    by (simp add: exec_event_def s split: machine.split)
  consider (same) "world st' = world (shared sy)"
    | (leaf) cmd where "cmd \<in> machine_leaves m" "permitted (sv_dispatcher S) (auth c) cmd (world (shared sy))"
        "world st' = snd (dispatch (sv_dispatcher S) cmd (world (shared sy)))"
    using machine_step_world [of "sv_dispatcher S" "auth c" m "shared sy"] s by auto
  then show ?thesis
  proof cases
    case leaf
    show ?thesis
    proof (cases "auth c")
      case None
      then have "cmd = Ping" using assms leaf(1) by auto
      then show ?thesis using leaf(3) by (simp add: w)
    next
      case (Some ctx)
      then have "ctx \<in> V" using assms by simp
      then have "(world (shared sy), world st') \<in> client_steps S V"
        using leaf(2,3) Some by (auto simp: client_steps_def granted_steps_def)
      then show ?thesis by (simp add: w)
    qed
  qed (simp add: w)
qed

lemma serve_event_world:
  assumes "sv_auth_required S" and "set_option (auth c) \<subseteq> V"
  shows "(world (shared sy), world (shared (snd (serve_event S ev c sy)))) \<in> (client_steps S V)\<^sup>*"
proof -
  have "(world (shared sy), world (snd (conn_step S ev (c, shared sy)))) \<in> (entitled S (auth c))\<^sup>*"
    using assms(1) by (intro conn_step_world) simp
  then have "(world (shared sy), world (snd (conn_step S ev (c, shared sy)))) \<in> (client_steps S V)\<^sup>*"
    using rtrancl_mono [OF entitled_client [OF assms(2)]] by blast
  then show ?thesis by (auto simp: serve_event_def split: option.split prod.split)
qed

lemma step_task_auth:
  assumes "sv_auth_required S" and "task_auth V t" and "authenticated_by S ev sy \<subseteq> V"
  shows "task_auth V (fst (step_task S ev t sy)) \<and>
    (world (shared sy), world (shared (snd (step_task S ev t sy)))) \<in> (client_steps S V)\<^sup>*"
proof (cases rule: step_task_cases [of ev t S sy])
  case (handshake i ok l)
  then show ?thesis using assms(1) by (auto simp: start_conn_def conn_init_def)
next
  case (serve i cev c)
  then show ?thesis using assms serve_event_auth [of S c V i cev sy] serve_event_world [of S c V sy cev] by simp
next
  case (exec i c w f m)
  then show ?thesis using assms(2) exec_event_auth [of V c w f m S sy] exec_event_world [of V c w f m sy S] by simp
next
  case idle
  then show ?thesis using assms(2) by simp
qed

lemma with_task_inv:
  assumes "auth_inv V sy" and "\<And>t. task_auth V t \<Longrightarrow> task_auth V (fst (f t sy))"
    and "\<And>t. tasks (snd (f t sy)) = tasks sy"
  shows "auth_inv V (with_task i f sy)"
proof (cases "i < length (tasks sy)")
  case True
  then have "task_auth V (tasks sy ! i)" using assms(1) by (simp add: auth_inv_def)
  then show ?thesis using assms True
    by (auto simp: auth_inv_def with_task_def set_task_def case_prod_beta dest!: set_update_subset_insert [THEN subsetD])
qed (simp add: with_task_def assms(1))

lemma sys_step_inv:
  assumes "sv_auth_required S" and "auth_inv V sy" and "authenticated_by S ev sy \<subseteq> V"
  shows "auth_inv V (sys_step S ev sy)"
proof -
  have t: "auth_inv V (with_task i (step_task S ev) sy)" for i
    using step_task_auth [OF assms(1) _ assms(3)] step_task_keeps [of _ sy S ev]
    by (intro with_task_inv [OF assms(2)]) (auto simp: keeps_def)
  have d: "auth_inv V (with_task i drop_task sy)" for i
    by (rule with_task_inv [OF assms(2)]) (auto simp: drop_task_def leave_conn_def split: task.split)
  have j: "auth_inv V (with_task i (\<lambda>t sy. case t of Ended \<Rightarrow> (Joined, sy) | _ \<Rightarrow> (t, sy)) sy)" for i
    by (rule with_task_inv [OF assms(2)]) (auto split: task.splits)
  have s: "auth_inv V (spawn (start_conn S l sy))" "auth_inv V (spawn (Handshake l, sy))" for l
    using assms(1,2) by (simp_all add: auth_inv_def spawn_def start_conn_def conn_init_def)
  show ?thesis using assms(2)
    by (cases ev) (use t d j s in \<open>simp_all add: sys_step_def accept_tcp_def Let_def\<close>)
qed

lemma with_task_world:
  assumes "\<And>t. t \<in> set (tasks sy) \<Longrightarrow> (world (shared sy), world (shared (snd (f t sy)))) \<in> R\<^sup>*"
  shows "(world (shared sy), world (shared (with_task i f sy))) \<in> R\<^sup>*"
  using assms [OF nth_mem, of i] by (simp add: with_task_def set_task_def case_prod_beta)

lemma sys_step_world:
  assumes "sv_auth_required S" and "auth_inv V sy" and "authenticated_by S ev sy \<subseteq> V"
  shows "(world (shared sy), world (shared (sys_step S ev sy))) \<in> (client_steps S V \<union> background_steps [ev])\<^sup>*"
proof (cases "\<exists>f. ev = Background f")
  case True
  then obtain f where f: "ev = Background f" by blast
  have "(world (shared sy), world (shared (sys_step S ev sy))) \<in> background_steps [ev]"
    by (auto simp: f sys_step_def background_steps_def)
  then show ?thesis by blast
next
  case False
  have t: "(world (shared sy), world (shared (with_task i (step_task S ev) sy))) \<in> (client_steps S V)\<^sup>*" for i
    using step_task_auth [OF assms(1) _ assms(3)] assms(2) by (intro with_task_world) (auto simp: auth_inv_def)
  have d: "(world (shared sy), world (shared (with_task i drop_task sy))) \<in> (client_steps S V)\<^sup>*" for i
    by (rule with_task_world) (simp add: drop_task_def leave_conn_def split: task.split)
  have j: "(world (shared sy), world (shared (with_task i (\<lambda>t sy. case t of Ended \<Rightarrow> (Joined, sy) | _ \<Rightarrow> (t, sy)) sy))) \<in>
      (client_steps S V)\<^sup>*" for i
    by (rule with_task_world) (simp split: task.split)
  have "(world (shared sy), world (shared (sys_step S ev sy))) \<in> (client_steps S V)\<^sup>*"
    using False t d j by (cases ev) (simp_all add: sys_step_def spawn_def start_conn_def accept_tcp_def Let_def)
  then show ?thesis using rtrancl_mono [of "client_steps S V" "client_steps S V \<union> background_steps [ev]"] by blast
qed

lemma background_steps_Cons:
  "background_steps (ev # evs) = background_steps [ev] \<union> background_steps evs"
  by (auto simp: background_steps_def)

lemma sys_run_world:
  assumes "sv_auth_required S" and "auth_inv V sy" and "authenticated S evs sy \<subseteq> V"
  shows "(world (shared sy), world (shared (sys_run S evs sy))) \<in> (client_steps S V \<union> background_steps evs)\<^sup>*"
  using assms(2,3)
proof (induction evs arbitrary: sy)
  case (Cons ev evs)
  let ?R = "client_steps S V \<union> background_steps (ev # evs)"
  have sub: "authenticated_by S ev sy \<subseteq> V" "authenticated S evs (sys_step S ev sy) \<subseteq> V"
    using Cons.prems(2) by auto
  have "(world (shared sy), world (shared (sys_step S ev sy))) \<in> (client_steps S V \<union> background_steps [ev])\<^sup>*"
    by (rule sys_step_world [OF assms(1) Cons.prems(1) sub(1)])
  then have 1: "(world (shared sy), world (shared (sys_step S ev sy))) \<in> ?R\<^sup>*"
    by (rule rtrancl_mono [THEN subsetD, rotated]) (use background_steps_Cons [of ev evs] in blast)
  have "(world (shared (sys_step S ev sy)), world (shared (sys_run S (ev # evs) sy))) \<in>
      (client_steps S V \<union> background_steps evs)\<^sup>*"
    using Cons.IH [OF sys_step_inv [OF assms(1) Cons.prems(1) sub(1)] sub(2)] by simp
  then have "(world (shared (sys_step S ev sy)), world (shared (sys_run S (ev # evs) sy))) \<in> ?R\<^sup>*"
    by (rule rtrancl_mono [THEN subsetD, rotated]) (use background_steps_Cons [of ev evs] in blast)
  with 1 show ?case by (rule rtrancl_trans)
qed simp

section \<open>Executing without interruption\<close>

lemma exec_alone:
  assumes "phase sy \<noteq> Stopped" and "i < length (tasks sy)" and "tasks sy ! i = Executing c wok fok m"
    and "machine_run (sv_dispatcher S) (auth c) n (m, shared sy) = (Done res, st')" and "\<And>r. m \<noteq> Done r"
  shows "sys_run S (replicate n (Exec i)) sy = set_task i (next_iteration (finish_execute S res wok fok c) (sy\<lparr>shared := st'\<rparr>))"
  using assms
proof (induction n arbitrary: m sy)
  case 0
  then show ?case by (simp add: machine_run_def)
next
  case (Suc n)
  obtain m' st1 where s: "machine_step (sv_dispatcher S) (auth c) (m, shared sy) = (m', st1)" by fastforce
  have run: "machine_run (sv_dispatcher S) (auth c) n (m', st1) = (Done res, st')"
    using Suc.prems(4) by (simp add: machine_run_def funpow_swap1 s)
  have one: "sys_step S (Exec i) sy = set_task i (exec_event S c wok fok m sy)"
    using Suc.prems by (simp add: sys_step_def with_task_def step_task_def)
  show ?case
  proof (cases "\<exists>r. m' = Done r")
    case True
    then obtain r where m': "m' = Done r" by blast
    have "machine_run (sv_dispatcher S) (auth c) k (Done r, st1) = (Done r, st1)" for k
      by (induction k) (simp_all add: machine_run_def)
    with run m' have r: "r = res" "st1 = st'" by auto
    let ?sy = "set_task i (next_iteration (finish_execute S res wok fok c) (sy\<lparr>shared := st'\<rparr>))"
    have "sys_step S (Exec i) ?sy = ?sy"
      using Suc.prems(1,2) list_update_id [of "tasks ?sy" i]
      by (simp add: sys_step_def with_task_def set_task_def next_iteration_def leave_conn_def step_task_def case_prod_beta)
    then have "sys_run S (replicate k (Exec i)) ?sy = ?sy" for k by (induction k) simp_all
    then show ?thesis using one by (simp add: exec_event_def s m' r)
  next
    case False
    let ?sy = "sy\<lparr>tasks := (tasks sy)[i := Executing c wok fok m'], shared := st1\<rparr>"
    have "sys_step S (Exec i) sy = ?sy"
      using one False by (cases m') (simp_all add: exec_event_def s set_task_def)
    moreover have "sys_run S (replicate n (Exec i)) ?sy =
        set_task i (next_iteration (finish_execute S res wok fok c) (?sy\<lparr>shared := st'\<rparr>))"
      by (rule Suc.IH [of _ m']) (use Suc.prems(1,2) run False in auto)
    ultimately show ?thesis
      by (simp add: set_task_def next_iteration_def leave_conn_def)
  qed
qed

section \<open>Shutdown\<close>

lemma phase_with_task:
  "(\<And>t. phase (snd (f t sy)) = phase sy) \<Longrightarrow> phase (with_task i f sy) = phase sy"
  by (simp add: with_task_def set_task_def case_prod_beta)

lemma stopped_step:
  assumes "phase sy = Stopped" and "\<And>f. ev \<noteq> Background f"
  shows "phase (sys_step S ev sy) = Stopped \<and> shared (sys_step S ev sy) = shared sy \<and>
    length (tasks (sys_step S ev sy)) = length (tasks sy)"
  using assms
  by (cases ev) (auto simp: sys_step_def with_task_def set_task_def drop_task_def leave_conn_def case_prod_beta split: task.split)

lemma stopped_run:
  "phase sy = Stopped \<Longrightarrow> (\<And>f. Background f \<notin> set evs) \<Longrightarrow>
     phase (sys_run S evs sy) = Stopped \<and> shared (sys_run S evs sy) = shared sy \<and>
     length (tasks (sys_run S evs sy)) = length (tasks sy)"
proof (induction evs arbitrary: sy)
  case (Cons ev evs)
  have "\<And>f. ev \<noteq> Background f" using Cons.prems(2) by auto
  from stopped_step [OF Cons.prems(1) this] show ?case using Cons.IH [of "sys_step S ev sy"] Cons.prems(2) by simp
qed simp

lemma not_accepting_step:
  assumes "phase sy \<noteq> Accepting"
  shows "phase (sys_step S ev sy) \<noteq> Accepting \<and> length (tasks (sys_step S ev sy)) = length (tasks sy)"
proof -
  have p: "phase (snd (step_task S ev t sy)) = phase sy" "tasks (snd (step_task S ev t sy)) = tasks sy" for t
    using step_task_keeps [of t sy S ev] by (simp_all add: keeps_def)
  show ?thesis using assms p
    by (cases ev) (auto simp: sys_step_def with_task_def set_task_def drop_task_def leave_conn_def case_prod_beta split: task.split)
qed

lemma not_accepting_run:
  "phase sy \<noteq> Accepting \<Longrightarrow> phase (sys_run S evs sy) \<noteq> Accepting \<and> length (tasks (sys_run S evs sy)) = length (tasks sy)"
proof (induction evs arbitrary: sy)
  case (Cons ev evs)
  then show ?case using not_accepting_step [OF Cons.prems, of S ev] by simp
qed simp

section \<open>Properties\<close>

text \<open>
  C2: who can change the store. In a server that requires authentication, for every interleaving of
  any number of connections, at the granularity of single commands and lookups inside pipelines, every
  change to the store is a step of a background task or a command (or subscription) that the access
  check allowed, at that moment, to a context for which a client had presented a token that the
  validator accepted when it was presented. In particular clients that present no valid token cannot change the store, whatever bytes
  they send.
\<close>

theorem server_store_changes:
  assumes "sv_auth_required S"
  shows "(world st, world (shared (sys_run S evs (sys_init ls st)))) \<in>
    (client_steps S (authenticated S evs (sys_init ls st)) \<union> background_steps evs)\<^sup>*"
proof -
  have "auth_inv (authenticated S evs (sys_init ls st)) (sys_init ls st)" by (simp add: auth_inv_def sys_init_def)
  from sys_run_world [OF assms this subset_refl] show ?thesis by (simp add: sys_init_def)
qed

theorem server_store_changes_witness:
  "(world demo_state, world (shared (sys_run demo_server
      [Accept_tcp, At 0 (cmd_frame [''PUT'', ''n'', ''k'', ''v''])] (sys_init \<lparr>ls_tls = False, ls_uds = True\<rparr> demo_state)))) \<in>
    (client_steps demo_server (authenticated demo_server [Accept_tcp, At 0 (cmd_frame [''PUT'', ''n'', ''k'', ''v''])]
        (sys_init \<lparr>ls_tls = False, ls_uds = True\<rparr> demo_state)) \<union>
     background_steps [Accept_tcp, At 0 (cmd_frame [''PUT'', ''n'', ''k'', ''v''])])\<^sup>*"
  by (rule server_store_changes) (simp add: demo_server_def)

text \<open>
  C19: the gauge of concurrent connections is exact. In every reachable state of the server, through
  handshakes that fail, connections that end or panic, the drain and the abort, the gauge equals the
  number of tasks that are inside \<open>handle_connection\<close>.
\<close>

theorem connection_gauge_exact:
  "connections (sys_run S evs (sys_init ls st)) = int (length (filter live (tasks (sys_run S evs (sys_init ls st)))))"
proof -
  have "gauge_ok (sys_run S evs sy)" if "gauge_ok sy" for sy
    using that by (induction evs arbitrary: sy) (simp_all add: sys_step_gauge)
  moreover have "gauge_ok (sys_init ls st)" by (simp add: gauge_ok_def sys_init_def)
  ultimately show ?thesis by (simp add: gauge_ok_def)
qed





end
