(* ===== verification/Scheduler.thy ===== *)
theory Scheduler
  imports Server
begin

text \<open>
  The background tasks, \<open>shroudb-server/src/scheduler.rs\<close>: what each does when its interval elapses,
  and the loop that they share. The storage engine is outside the repository: its operations that the
  tasks call are the fields of \<open>'s bg_engine\<close>. What a task reports to the metrics registry is its output,
  a list of names and values.
\<close>

section \<open>Definitions\<close>

record 's bg_engine =
  be_entries_since_snapshot :: "'s \<Rightarrow> u64"
  be_secs_since_snapshot :: "'s \<Rightarrow> u64"
  be_entry_threshold :: "'s \<Rightarrow> u64"
  be_time_threshold_secs :: "'s \<Rightarrow> u64"
  be_snapshot :: "'s \<Rightarrow> (string + unit) \<times> 's"
  be_flush_wal :: "'s \<Rightarrow> (string + unit) \<times> 's"
  be_sweep_tick :: "u64 \<Rightarrow> 's \<Rightarrow> (string + u64) \<times> 's"
  be_namespaces :: "'s \<Rightarrow> (string \<times> u64 option) list"
  be_find_expired :: "string \<Rightarrow> u64 \<Rightarrow> 's \<Rightarrow> bytes list"
  be_compact :: "string \<Rightarrow> bytes list \<Rightarrow> 's \<Rightarrow> (string + unit) \<times> 's"
  be_unix_secs :: "'s \<Rightarrow> u64 option"
  be_unix_millis :: "'s \<Rightarrow> u64 option"
  be_fsync_interval_ms :: "'s \<Rightarrow> u64 option"
  be_ttl_sweep_interval_ms :: "'s \<Rightarrow> u64"
  be_active_keys :: "'s \<Rightarrow> u64 list"
  be_cache :: "'s \<Rightarrow> (u64 \<times> u64 \<times> u64) option"

definition snapshot_tick :: "'s bg_engine \<Rightarrow> 's \<Rightarrow> 's" where
  "snapshot_tick E s =
     (if be_entry_threshold E s \<le> be_entries_since_snapshot E s \<or>
         be_time_threshold_secs E s \<le> be_secs_since_snapshot E s
      then snd (be_snapshot E s) else s)"

definition fsync_tick :: "'s bg_engine \<Rightarrow> 's \<Rightarrow> 's" where
  "fsync_tick E s = snd (be_flush_wal E s)"

definition reap_tick :: "('s, 'x, 'a) dispatcher \<Rightarrow> 's dstate \<Rightarrow> 's dstate" where
  "reap_tick D st = st\<lparr>idem_map := idempotency_prune (d_now D (world st)) (idem_map st)\<rparr>"

definition ttl_tick :: "'s bg_engine \<Rightarrow> 's \<Rightarrow> 's" where
  "ttl_tick E s = (case be_unix_millis E s of None \<Rightarrow> s | Some now_ms \<Rightarrow> snd (be_sweep_tick E now_ms s))"

text \<open>The counter that the sweeper increments: by how many entries, if any were swept.\<close>

definition ttl_swept :: "'s bg_engine \<Rightarrow> 's \<Rightarrow> (string \<times> u64) list" where
  "ttl_swept E s = (case be_unix_millis E s of
     None \<Rightarrow> []
   | Some now_ms \<Rightarrow> (case fst (be_sweep_tick E now_ms s) of
       Inr swept \<Rightarrow> if 0 < swept then [(''shroudb_ttl_swept_total'', swept)] else []
     | Inl _ \<Rightarrow> []))"

text \<open>
  The gauges that the metrics reporter sets: \<open>uptime\<close> is the time since it was started, in nanoseconds;
  \<open>be_active_keys\<close> gives the active keys of each namespace, \<open>be_cache\<close> the bytes, the keys and the budget
  of the cache, if there is one.
\<close>

definition metrics_tick :: "'s bg_engine \<Rightarrow> nat \<Rightarrow> 's \<Rightarrow> (string \<times> f64) list" where
  "metrics_tick E uptime s =
     [(''shroudb_uptime_seconds'', f64_of_nanos uptime),
      (''shroudb_wal_entries_since_snapshot'', f64_of_u64 (be_entries_since_snapshot E s)),
      (''shroudb_namespace_count'', f64_of_u64 (of_nat (length (be_active_keys E s)))),
      (''shroudb_active_keys_total'', f64_of_u64 (sum_list (be_active_keys E s)))] @
     (case be_cache E s of
        None \<Rightarrow> []
      | Some (total_bytes, len, budget_bytes) \<Rightarrow>
          [(''shroudb_cache_memory_bytes'', f64_of_u64 total_bytes),
           (''shroudb_cache_resident_keys'', f64_of_u64 len),
           (''shroudb_cache_budget_bytes'', f64_of_u64 budget_bytes)])"

definition saturating_sub :: "u64 \<Rightarrow> u64 \<Rightarrow> u64" where
  "saturating_sub a b = (if b \<le> a then a - b else 0)"

text \<open>One namespace of the loop of \<open>compact_tombstones\<close>, with its retention.\<close>

definition compact_namespace :: "'s bg_engine \<Rightarrow> u64 \<Rightarrow> string \<times> u64 option \<Rightarrow> 's \<Rightarrow> 's" where
  "compact_namespace E now entry s = (case entry of (ns_name, retention) \<Rightarrow>
     (case retention of
        None \<Rightarrow> s
      | Some secs \<Rightarrow>
          if secs = 0 then s
          else let expired = be_find_expired E ns_name (saturating_sub now secs) s in
            if expired = [] then s else snd (be_compact E ns_name expired s)))"

definition compact_tombstones :: "'s bg_engine \<Rightarrow> 's \<Rightarrow> 's" where
  "compact_tombstones E s = (case be_unix_secs E s of
     None \<Rightarrow> s
   | Some now \<Rightarrow> fold (compact_namespace E now) (be_namespaces E s) s)"

text \<open>The loop of a task: its tick until the shutdown signal; the result is the state when it ends.\<close>

datatype task_event = Task_signal bool | Task_tick

fun run_task :: "('t \<Rightarrow> 't) \<Rightarrow> task_event list \<Rightarrow> 't \<Rightarrow> 't" where
  "run_task f [] s = s"
| "run_task f (Task_signal b # evs) s = (if b then s else run_task f evs s)"
| "run_task f (Task_tick # evs) s = run_task f evs (f s)"

text \<open>The tasks that are spawned, with the period of each in milliseconds, and what a tick of each does.\<close>

datatype bg_task =
    SnapshotCompactor
  | FsyncBatcher
  | MetricsReporter
  | IdempotencyReaper
  | TombstoneCompactor
  | TtlSweeper

definition spawn_all :: "'s bg_engine \<Rightarrow> 's \<Rightarrow> (bg_task \<times> u64) list" where
  "spawn_all E s =
     [(SnapshotCompactor, 60 * 1000)] @
     (case be_fsync_interval_ms E s of Some interval_ms \<Rightarrow> [(FsyncBatcher, interval_ms)] | None \<Rightarrow> []) @
     [(MetricsReporter, 30 * 1000), (IdempotencyReaper, 60 * 1000), (TombstoneCompactor, 300 * 1000),
      (TtlSweeper, be_ttl_sweep_interval_ms E s)]"

definition bg_tick :: "('s, 'x, 'a) dispatcher \<Rightarrow> 's bg_engine \<Rightarrow> bg_task \<Rightarrow> 's dstate \<Rightarrow> 's dstate" where
  "bg_tick D E t st = (case t of
     SnapshotCompactor \<Rightarrow> st\<lparr>world := snapshot_tick E (world st)\<rparr>
   | FsyncBatcher \<Rightarrow> st\<lparr>world := fsync_tick E (world st)\<rparr>
   | MetricsReporter \<Rightarrow> st
   | IdempotencyReaper \<Rightarrow> reap_tick D st
   | TombstoneCompactor \<Rightarrow> st\<lparr>world := compact_tombstones E (world st)\<rparr>
   | TtlSweeper \<Rightarrow> st\<lparr>world := ttl_tick E (world st)\<rparr>)"

text \<open>
  A spawned task: \<open>tokio::time::interval\<close> panics when the period is zero, which ends the task before its
  first tick.
\<close>

definition run_spawned :: "('s, 'x, 'a) dispatcher \<Rightarrow> 's bg_engine \<Rightarrow> bg_task \<times> u64 \<Rightarrow> task_event list \<Rightarrow> 's dstate \<Rightarrow> 's dstate" where
  "run_spawned D E task evs st =
     (case task of (t, period_ms) \<Rightarrow> if period_ms = 0 then st else run_task (bg_tick D E t) evs st)"

section \<open>Spawned tasks\<close>

text \<open>With a batching interval of zero the write-ahead log is never flushed by the batcher.\<close>

lemma fsync_zero_never_flushes:
  "be_fsync_interval_ms E s = Some 0 \<Longrightarrow> (FsyncBatcher, p) \<in> set (spawn_all E s) \<Longrightarrow> run_spawned D E (FsyncBatcher, p) evs st = st"
  by (auto simp: spawn_all_def run_spawned_def)

lemma run_task_stops: "Task_signal True \<in> set evs \<Longrightarrow> run_task f (evs @ evs') s = run_task f evs s"
  by (induction f evs s rule: run_task.induct) auto

section \<open>Retention\<close>

lemma saturating_sub_le: "saturating_sub a b \<le> a"
  by (simp add: saturating_sub_def word_sub_le)

text \<open>
  What the compaction relies on: the engine finds only tombstones of the namespace that are not newer
  than the cutoff (\<open>time\<close> is the time of a key's tombstone, if it has one), and compaction removes the
  tombstones of the given keys only.
\<close>

definition tombstone_laws :: "'s bg_engine \<Rightarrow> ('s \<Rightarrow> string \<Rightarrow> bytes \<Rightarrow> u64 option) \<Rightarrow> bool" where
  "tombstone_laws E time \<longleftrightarrow>
     (\<forall>ns cutoff s key. key \<in> set (be_find_expired E ns cutoff s) \<longrightarrow> (\<exists>t. time s ns key = Some t \<and> t \<le> cutoff)) \<and>
     (\<forall>ns keys s ns' key. (ns', key) \<notin> {ns} \<times> set keys \<longrightarrow> time (snd (be_compact E ns keys s)) ns' key = time s ns' key)"

text \<open>A tombstone that the compaction must not touch: its namespace keeps tombstones longer.\<close>

definition retained :: "(string \<times> u64 option) list \<Rightarrow> u64 \<Rightarrow> string \<Rightarrow> u64 \<Rightarrow> bool" where
  "retained nss now ns t \<longleftrightarrow> 0 < t \<and> t \<le> now \<and>
     (\<forall>secs. (ns, Some secs) \<in> set nss \<longrightarrow> secs = 0 \<or> now - t < secs)"

lemma compact_namespace_keeps:
  assumes "tombstone_laws E time" and "retained [(n, r)] now ns t" and "time s ns key = Some t"
  shows "time (compact_namespace E now (n, r) s) ns key = Some t"
proof (cases "\<exists>secs. r = Some secs \<and> secs \<noteq> 0 \<and> n = ns")
  case True
  then obtain secs where r: "r = Some secs" "secs \<noteq> 0" "n = ns" by blast
  have t: "0 < t" "t \<le> now" "now - t < secs" using assms(2) r by (auto simp: retained_def)
  let ?c = "saturating_sub now secs"
  have "\<not> t \<le> ?c"
  proof (cases "secs \<le> now")
    case True
    have "unat now - unat t < unat secs" using t(2,3) by (simp add: word_less_nat_alt unat_sub)
    moreover have "unat (now - secs) = unat now - unat secs" using True by (rule unat_sub)
    ultimately show ?thesis using True t(2)
      by (auto simp: saturating_sub_def word_le_nat_alt)
  next
    case False
    then show ?thesis using t(1) by (simp add: saturating_sub_def)
  qed
  then have "key \<notin> set (be_find_expired E ns ?c s)"
    using assms(1,3) unfolding tombstone_laws_def by (metis option.inject)
  then show ?thesis using assms(1,3) r by (simp add: compact_namespace_def tombstone_laws_def Let_def)
next
  case False
  then show ?thesis using assms(1,3)
    by (auto simp: compact_namespace_def tombstone_laws_def Let_def split: option.split)
qed

lemma compact_fold_keeps:
  assumes "tombstone_laws E time" and "retained nss now ns t" and "time s ns key = Some t"
  shows "time (fold (compact_namespace E now) nss s) ns key = Some t"
  using assms(2,3)
proof (induction nss arbitrary: s)
  case (Cons e nss)
  obtain n r where e: "e = (n, r)" by (cases e)
  have "retained [(n, r)] now ns t" "retained nss now ns t" using Cons.prems(1) e by (auto simp: retained_def)
  then show ?case using Cons.IH compact_namespace_keeps [OF assms(1)] Cons.prems(2) e by simp
qed simp

text \<open>A concrete engine, for evaluation: tombstones with their times, and a clock that stands still.\<close>

definition demo_bg :: "(((string \<times> bytes) \<times> u64) list) bg_engine" where
  "demo_bg = \<lparr>be_entries_since_snapshot = (\<lambda>_. 0), be_secs_since_snapshot = (\<lambda>_. 0), be_entry_threshold = (\<lambda>_. 1),
     be_time_threshold_secs = (\<lambda>_. 1), be_snapshot = (\<lambda>s. (Inr (), s)), be_flush_wal = (\<lambda>s. (Inr (), s)),
     be_sweep_tick = (\<lambda>_ s. (Inr 0, s)), be_namespaces = (\<lambda>_. [(''n'', Some 100)]),
     be_find_expired = (\<lambda>ns cutoff s. map (snd \<circ> fst) (filter (\<lambda>((n, k), t). n = ns \<and> t \<le> cutoff \<and> map_of s (n, k) = Some t) s)),
     be_compact = (\<lambda>ns keys s. (Inr (), filter (\<lambda>((n, k), t). \<not> (n = ns \<and> k \<in> set keys)) s)),
     be_unix_secs = (\<lambda>_. Some 1000), be_unix_millis = (\<lambda>_. None), be_fsync_interval_ms = (\<lambda>_. Some 10),
     be_ttl_sweep_interval_ms = (\<lambda>_. 1000), be_active_keys = (\<lambda>s. [of_nat (length s)]), be_cache = (\<lambda>_. None)\<rparr>"

lemma map_of_filter_key: "(\<And>y. P (x, y)) \<Longrightarrow> map_of (filter P xs) x = map_of xs x"
  by (induction xs) auto

lemma demo_bg_laws: "tombstone_laws demo_bg (\<lambda>s ns key. map_of s (ns, key))"
  by (auto simp: tombstone_laws_def demo_bg_def intro!: map_of_filter_key)

section \<open>Properties\<close>

text \<open>
  C34: tombstone compaction respects the retention. A tombstone of a namespace that keeps its tombstones
  longer than the tombstone's age (or for ever) survives a run of the compaction, whatever it removes in
  this and in other namespaces; in particular a retention longer than the time since the epoch removes
  nothing.
\<close>

theorem compaction_respects_retention:
  assumes "tombstone_laws E time" and "be_unix_secs E s = Some now"
    and "retained (be_namespaces E s) now ns t" and "time s ns key = Some t"
  shows "time (compact_tombstones E s) ns key = Some t"
  using compact_fold_keeps [OF assms(1,3,4)] assms(2) by (simp add: compact_tombstones_def)

theorem compaction_respects_retention_witness:
  "map_of (compact_tombstones demo_bg [((''n'', ''old''), 900), ((''n'', ''new''), 901)]) (''n'', ''new'') = Some (901 :: u64)"
  by (rule compaction_respects_retention [OF demo_bg_laws, where now = 1000])
    (simp_all add: demo_bg_def retained_def)

end
