(* ===== verification/Startup.thy ===== *)
theory Startup
  imports Reload Backup Scheduler
begin

text \<open>
  The entry point of the server, \<open>shroudb-server/src/main.rs\<close>: the effective configuration, the chain of
  master key sources, the choice of a subcommand or a storage mode, what \<open>run_server\<close> derives from the
  configuration and starts, and the \<open>doctor\<close> subcommand. The file system, the address parser, the key
  sources and the storage engine are arguments. The command line is what the argument parser of the
  \<open>clap\<close> crate returns: a flag that is not given is read from its environment variable there.
\<close>

section \<open>The effective configuration\<close>

datatype sub_command =
    Doctor
  | Rekey string string
  | Export string string
  | Import string "string option"

record cli =
  cli_config :: string
  cli_bind :: "string option"
  cli_data_dir :: "string option"
  cli_log_level :: "string option"
  cli_command :: "sub_command option"

text \<open>
  \<open>files\<close> gives the text of a file that exists, with its read error if it cannot be read; \<open>None\<close> as the
  result is an expansion of environment variables that does not end.
\<close>

definition base_config :: "(string \<Rightarrow> string + shroudb_config) \<Rightarrow> (string \<Rightarrow> string) \<Rightarrow> (string \<Rightarrow> (string + string) option) \<Rightarrow>
    cli \<Rightarrow> (string + shroudb_config) option" where
  "base_config from_toml env files c = (case files (cli_config c) of
     Some file \<Rightarrow> map_option (map_err (\<lambda>_. ''loading config from '' @ cli_config c)) (load_config from_toml env file)
   | None \<Rightarrow>
       if cli_config c = ''config.toml'' then Some (Inr shroudb_config_default)
       else Some (Inl (''config file not found: '' @ cli_config c)))"

text \<open>The overrides; \<open>parse_addr\<close> parses and prints a socket address.\<close>

definition override_bind :: "(string \<Rightarrow> string + string) \<Rightarrow> cli \<Rightarrow> shroudb_config \<Rightarrow> string + shroudb_config" where
  "override_bind parse_addr c cfg = (case cli_bind c of
     None \<Rightarrow> Inr cfg
   | Some b \<Rightarrow> try_res (map_err (\<lambda>_. ''invalid bind address: '' @ b) (parse_addr b)) (\<lambda>addr.
       Inr (cfg\<lparr>cf_server := (cf_server cfg)\<lparr>sc_bind := addr\<rparr>\<rparr>)))"

definition override_data_dir :: "cli \<Rightarrow> shroudb_config \<Rightarrow> shroudb_config" where
  "override_data_dir c cfg = (case cli_data_dir c of
     None \<Rightarrow> cfg
   | Some d \<Rightarrow> cfg\<lparr>cf_storage := (cf_storage cfg)\<lparr>so_data_dir := d\<rparr>\<rparr>)"

definition effective_config :: "(string \<Rightarrow> string + shroudb_config) \<Rightarrow> (string \<Rightarrow> string) \<Rightarrow>
    (string \<Rightarrow> (string + string) option) \<Rightarrow> (string \<Rightarrow> string + string) \<Rightarrow> cli \<Rightarrow> (string + shroudb_config) option" where
  "effective_config from_toml env files parse_addr c =
     map_option (\<lambda>r. try_res r (\<lambda>cfg. try_res (override_bind parse_addr c cfg) (\<lambda>cfg. Inr (override_data_dir c cfg))))
       (base_config from_toml env files c)"

section \<open>Master key sources\<close>

datatype key_source = EnvMasterKey | FileMasterKey | EphemeralKey

text \<open>The chain, from the value of \<open>SHROUDB_REQUIRE_PERSISTENT_KEY\<close>.\<close>

definition key_sources :: "string option \<Rightarrow> key_source list" where
  "key_sources require =
     (let require_persistent = (case require of Some v \<Rightarrow> v = ''true'' \<or> v = ''1'' | None \<Rightarrow> False) in
      [EnvMasterKey, FileMasterKey] @ (if require_persistent then [] else [EphemeralKey]))"

section \<open>What is run\<close>

datatype startup =
    RunSubcommand sub_command shroudb_config "key_source list"
  | RunEmbedded shroudb_config engine_config "key_source list"
  | RunRemote shroudb_config string

definition startup_of :: "cli \<Rightarrow> string option \<Rightarrow> shroudb_config \<Rightarrow> string + startup" where
  "startup_of c require cfg =
     (let keys = key_sources require in
      case cli_command c of
        Some subcmd \<Rightarrow> Inr (RunSubcommand subcmd cfg keys)
      | None \<Rightarrow>
          if so_mode (cf_storage cfg) = ''embedded'' then Inr (RunEmbedded cfg (to_engine_config cfg) keys)
          else if so_mode (cf_storage cfg) = ''remote'' then
            (case so_uri (cf_storage cfg) of
               None \<Rightarrow> Inl ''remote mode requires storage.uri''
             | Some uri \<Rightarrow> Inr (RunRemote cfg uri))
          else Inl (''unknown store mode: '' @ so_mode (cf_storage cfg)))"

text \<open>
  \<open>run_server\<close>: the state it hands to the reloader and to the accept loop, and which tasks it starts;
  the scheduler and the webhook actors need the local engine.
\<close>

record 'v running =
  run_reload :: "'v reload_state"
  run_auth_required :: bool
  run_scheduler :: bool
  run_webhooks :: "webhook_config list"
  run_reloader :: bool

definition run_server :: "'v validator_ops \<Rightarrow> shroudb_config \<Rightarrow> bool \<Rightarrow> nat option \<Rightarrow> bool \<Rightarrow> 'v running" where
  "run_server V cfg config_exists mtime embedded =
     \<lparr>run_reload = \<lparr>rs_running = config_exists, rs_last_mtime = mtime, rs_validator = build_token_validator V cfg,
        rs_rate_limit = sc_rate_limit_per_second (cf_server cfg)\<rparr>,
      run_auth_required = auth_required cfg, run_scheduler = embedded,
      run_webhooks = (if embedded then cf_webhooks cfg else []), run_reloader = config_exists\<rparr>"

section \<open>The start-up banner\<close>

definition tee :: string where
  "tee = map char_of [0xE2, 0x94, 0x9C, 0xE2, 0x94, 0x80 :: nat]"

definition corner :: string where
  "corner = map char_of [0xE2, 0x94, 0x94, 0xE2, 0x94, 0x80 :: nat]"

definition auth_status :: "'v validator_ops \<Rightarrow> 'v running \<Rightarrow> string" where
  "auth_status V run =
     (if run_auth_required run then ''token ('' @ dec_of_nat (reloadable_len V (run_reload run)) @ '' tokens)'' else ''disabled'')"

definition tls_status :: "server_config \<Rightarrow> string" where
  "tls_status sc = (case sc_tls sc of
     Some tls \<Rightarrow> if tls_client_ca tls \<noteq> None then ''on (mTLS)'' else ''on''
   | None \<Rightarrow> ''off'')"

text \<open>\<open>env_set\<close>: whether an environment variable is set.\<close>

definition key_status :: "(string \<Rightarrow> bool) \<Rightarrow> bool \<Rightarrow> string" where
  "key_status env_set embedded =
     (if env_set ''SHROUDB_MASTER_KEY'' \<or> env_set ''SHROUDB_MASTER_KEY_FILE'' then ''configured''
      else if embedded then ''ephemeral (dev mode)'' else ''n/a (remote)'')"

definition banner :: "'v validator_ops \<Rightarrow> string \<Rightarrow> (string \<Rightarrow> bool) \<Rightarrow> shroudb_config \<Rightarrow> bool \<Rightarrow> 'v running \<Rightarrow> string list" where
  "banner V version env_set cfg embedded run =
     [[], ''ShrouDB v'' @ version,
      tee @ '' mode:     '' @ so_mode (cf_storage cfg),
      tee @ '' bind:     '' @ sc_bind (cf_server cfg)] @
     (if embedded then [tee @ '' data:     '' @ so_data_dir (cf_storage cfg)]
      else case so_uri (cf_storage cfg) of Some uri \<Rightarrow> [tee @ '' remote:   '' @ uri] | None \<Rightarrow> []) @
     [tee @ '' auth:     '' @ auth_status V run,
      tee @ '' tls:      '' @ tls_status (cf_server cfg),
      corner @ '' key:      '' @ key_status env_set embedded] @
     (case sc_metrics_bind (cf_server cfg) of Some b \<Rightarrow> [''   metrics:  '' @ b] | None \<Rightarrow> []) @
     [[], ''Ready.'']"

section \<open>From the start to the exit of the server\<close>

text \<open>
  What \<open>run_server\<close> does after \<open>server::run\<close> has returned: the handles that are aborted, in order, and
  the shutdown of the engine. An error of \<open>server::run\<close> returns at once.
\<close>

datatype exit_action = AbortTask bg_task | AbortWebhook webhook_config | AbortReloader | EngineShutdown

definition exit_actions :: "(bg_task \<times> u64) list \<Rightarrow> bool \<Rightarrow> 'v running \<Rightarrow> exit_action list" where
  "exit_actions scheduled embedded run =
     map (AbortTask \<circ> fst) scheduled @ map AbortWebhook (run_webhooks run) @
     (if run_reloader run then [AbortReloader] else []) @ (if embedded then [EngineShutdown] else [])"

record main_ext =
  mx_install_metrics :: "string \<Rightarrow> string + unit"
  mx_net :: net_ops
  mx_engine_shutdown :: "string + unit"

definition server_exit :: "main_ext \<Rightarrow> shroudb_config \<Rightarrow> (bg_task \<times> u64) list \<Rightarrow> bool \<Rightarrow> 'v running \<Rightarrow>
    (string + unit) \<times> exit_action list" where
  "server_exit M cfg scheduled embedded run =
     (case (case sc_metrics_bind (cf_server cfg) of
          None \<Rightarrow> Inr () | Some b \<Rightarrow> map_err (\<lambda>_. ''failed to install Prometheus metrics exporter'') (mx_install_metrics M b)) of
        Inl e \<Rightarrow> (Inl e, [])
      | Inr _ \<Rightarrow>
          (case listen (mx_net M) (cf_server cfg) of
             Inl e \<Rightarrow> (Inl e, [])
           | Inr _ \<Rightarrow> (if embedded then mx_engine_shutdown M else Inr (), exit_actions scheduled embedded run)))"

section \<open>The entry point\<close>

record telemetry_config =
  tm_service_name :: string
  tm_console :: bool
  tm_audit_file :: bool
  tm_data_dir :: "string option"
  tm_otel_endpoint :: "string option"

definition telemetry_config_of :: "shroudb_config \<Rightarrow> telemetry_config" where
  "telemetry_config_of cfg = \<lparr>tm_service_name = ''shroudb'', tm_console = True, tm_audit_file = True,
     tm_data_dir = Some (so_data_dir (cf_storage cfg)), tm_otel_endpoint = sc_otel_endpoint (cf_server cfg)\<rparr>"

text \<open>The value that \<open>SHROUDB_LOG_LEVEL\<close> gets.\<close>

definition log_level :: "cli \<Rightarrow> string" where
  "log_level c = (case cli_log_level c of Some l \<Rightarrow> l | None \<Rightarrow> ''info'')"

text \<open>
  \<open>main\<close> up to the choice of what to run, on a file system \<open>'f\<close>: the configuration is loaded, then the
  data directory is created and telemetry is initialised, whatever the subcommand.
\<close>

record 'f main_env =
  me_from_toml :: "string \<Rightarrow> string + shroudb_config"
  me_env :: "string \<Rightarrow> string"
  me_parse_addr :: "string \<Rightarrow> string + string"
  me_require :: "string option"
  me_files :: "'f \<Rightarrow> string \<Rightarrow> (string + string) option"
  me_dir_exists :: "'f \<Rightarrow> string \<Rightarrow> bool"
  me_create_dir_all :: "string \<Rightarrow> 'f \<Rightarrow> (string + unit) \<times> 'f"
  me_init_telemetry :: "telemetry_config \<Rightarrow> 'f \<Rightarrow> (string + unit) \<times> 'f"

definition main :: "'f main_env \<Rightarrow> cli \<Rightarrow> 'f \<Rightarrow> ((string + startup) \<times> 'f) option" where
  "main M c fs =
     map_option (\<lambda>r. case r of
         Inl e \<Rightarrow> (Inl e, fs)
       | Inr cfg \<Rightarrow>
           (case me_create_dir_all M (so_data_dir (cf_storage cfg)) fs of
              (Inl _, fs1) \<Rightarrow> (Inl (''creating data directory: '' @ so_data_dir (cf_storage cfg)), fs1)
            | (Inr _, fs1) \<Rightarrow>
                (case me_init_telemetry M (telemetry_config_of cfg) fs1 of
                   (Inl _, fs2) \<Rightarrow> (Inl ''failed to initialize telemetry'', fs2)
                 | (Inr _, fs2) \<Rightarrow> (startup_of c (me_require M) cfg, fs2))))
       (effective_config (me_from_toml M) (me_env M) (me_files M fs) (me_parse_addr M) c)"

text \<open>Opening the engine or connecting to the remote store; the result says whether the engine is local.\<close>

fun launch :: "(engine_config \<Rightarrow> key_source list \<Rightarrow> string + unit) \<Rightarrow> (string \<Rightarrow> string + unit) \<Rightarrow> startup \<Rightarrow>
    (string + shroudb_config \<times> bool) option" where
  "launch open_engine connect (RunSubcommand subcmd cfg keys) = None"
| "launch open_engine connect (RunEmbedded cfg engine_config keys) =
     Some (map_sum (\<lambda>_. ''failed to open storage engine'') (\<lambda>_. (cfg, True)) (open_engine engine_config keys))"
| "launch open_engine connect (RunRemote cfg uri) =
     Some (map_sum (\<lambda>_. ''failed to connect to remote store'') (\<lambda>_. (cfg, False)) (connect uri))"

section \<open>Doctor\<close>

datatype recovery_mode = Strict | Recover

record doctor_ext =
  dx_dir_exists :: "string \<Rightarrow> bool"
  dx_load_key :: "key_source list \<Rightarrow> string + string"
  dx_open :: "engine_config \<Rightarrow> recovery_mode \<Rightarrow> key_source list \<Rightarrow> string + u64 list"
  dx_shutdown :: "string + unit"

text \<open>
  \<open>run_doctor\<close>: the lines it prints and its result. Loading the key gives the name of the source; opening
  the engine gives the active keys of each namespace.
\<close>

definition auth_line :: "'v validator_ops \<Rightarrow> shroudb_config \<Rightarrow> string" where
  "auth_line V cfg =
     (if auth_required cfg then ''  auth:       enabled ('' @ dec_of_nat (vo_len V (build_token_validator V cfg)) @ '' tokens)''
      else ''  auth:       disabled'')"

definition run_doctor :: "doctor_ext \<Rightarrow> 'v validator_ops \<Rightarrow> shroudb_config \<Rightarrow> key_source list \<Rightarrow>
    string list \<times> (string + unit)" where
  "run_doctor D V cfg keys =
     (let dir = so_data_dir (cf_storage cfg);
          intro = [''ShrouDB doctor'', '''', ''  config:     ok'', ''  data dir:   '' @ dir @
            (if dx_dir_exists D dir then '' (exists)'' else '' (will be created on first run)'')] in
      case dx_load_key D keys of
        Inl e \<Rightarrow> (intro @ [''  master key: FAILED '' @ em_dash @ '' '' @ e], Inl ''master key check failed'')
      | Inr name \<Rightarrow>
          (let keyed = intro @ [''  master key: ok ('' @ name @ '')''] in
           case dx_open D (to_engine_config cfg) Strict keys of
             Inl e \<Rightarrow> (keyed @ [''  storage:    FAILED '' @ em_dash @ '' '' @ e], Inl ''storage check failed'')
           | Inr counts \<Rightarrow>
               (let opened = keyed @ [''  storage:    ok ('' @ dec_of_nat (length counts) @ '' namespaces, '' @
                      dec_of_nat (unat (sum_list counts)) @ '' active keys)''] in
                case dx_shutdown D of
                  Inl e \<Rightarrow> (opened, Inl e)
                | Inr _ \<Rightarrow> (opened @ [auth_line V cfg, '''', ''All checks passed.''], Inr ()))))"

section \<open>Lemmas\<close>

text \<open>The documented precedence: command line, then file, then default.\<close>

lemma effective_bind:
  assumes "effective_config from_toml env files parse_addr c = Some (Inr cfg)"
  shows "\<exists>base. base_config from_toml env files c = Some (Inr base) \<and>
    (case cli_bind c of None \<Rightarrow> sc_bind (cf_server cfg) = sc_bind (cf_server base) | Some b \<Rightarrow> parse_addr b = Inr (sc_bind (cf_server cfg))) \<and>
    so_data_dir (cf_storage cfg) = (case cli_data_dir c of None \<Rightarrow> so_data_dir (cf_storage base) | Some d \<Rightarrow> d) \<and>
    cf_auth cfg = cf_auth base \<and> so_mode (cf_storage cfg) = so_mode (cf_storage base)"
proof -
  obtain r where r: "base_config from_toml env files c = Some r"
      and rest: "try_res r (\<lambda>cfg. try_res (override_bind parse_addr c cfg) (\<lambda>cfg. Inr (override_data_dir c cfg))) = Inr cfg"
    using assms by (auto simp: effective_config_def)
  then obtain base where base: "r = Inr base" by (cases r) auto
  show ?thesis
    using r rest base
    by (cases "cli_bind c"; cases "cli_data_dir c"; cases "parse_addr (the (cli_bind c))")
      (auto simp: override_bind_def override_data_dir_def)
qed

lemma effective_default:
  assumes "files ''config.toml'' = None" and "cli_config c = ''config.toml''" and "cli_bind c = None" and "cli_data_dir c = None"
  shows "effective_config from_toml env files parse_addr c = Some (Inr shroudb_config_default)"
  using assms by (simp add: effective_config_def base_config_def override_bind_def override_data_dir_def)

text \<open>
  C33: after any sequence of reloads, the validator that connections use is the one built from a
  configuration that was loaded, either the one the server started with or a later content of the
  file that loaded without error. A file that is malformed or half written never takes effect.
\<close>

theorem tokens_in_force:
  "\<exists>cfg'. (cfg' = cfg \<or> (\<exists>mtime file. Reload_tick mtime file \<in> set evs \<and> load_config from_toml env file = Some (Inr cfg'))) \<and>
     rs_validator (fold (reload_step V from_toml env) evs (run_reload (run_server V cfg exists mtime0 embedded))) =
       build_token_validator V cfg'"
proof (induction evs rule: rev_induct)
  case (snoc ev evs)
  let ?rs = "fold (reload_step V from_toml env) evs (run_reload (run_server V cfg exists mtime0 embedded))"
  have "rs_validator (reload_step V from_toml env ev ?rs) = rs_validator ?rs \<or>
    (\<exists>mtime file cfg'. ev = Reload_tick mtime file \<and> load_config from_toml env file = Some (Inr cfg') \<and>
      rs_validator (reload_step V from_toml env ev ?rs) = build_token_validator V cfg')"
    by (auto simp: reload_step_def Let_def replace_validator_def split: reload_event.split option.split sum.split)
  then consider (same) "rs_validator (reload_step V from_toml env ev ?rs) = rs_validator ?rs"
    | (loaded) mtime raw cfg' where "ev = Reload_tick mtime raw" "load_config from_toml env raw = Some (Inr cfg')"
        "rs_validator (reload_step V from_toml env ev ?rs) = build_token_validator V cfg'" by blast
  then show ?case
  proof cases
    case same
    with snoc show ?thesis by auto
  next
    case loaded
    then show ?thesis by (intro exI [of _ cfg']) auto
  qed
qed (simp add: run_server_def)

text \<open>The doctor reports success exactly when the key loads and the store opens in strict mode.\<close>

lemma doctor_ok:
  "snd (run_doctor D V cfg keys) = Inr () \<longleftrightarrow>
     is_ok (dx_load_key D keys) \<and> is_ok (dx_open D (to_engine_config cfg) Strict keys) \<and> is_ok (dx_shutdown D)"
  by (cases "dx_load_key D keys"; cases "dx_open D (to_engine_config cfg) Strict keys"; cases "dx_shutdown D")
    (simp_all add: run_doctor_def Let_def is_ok_def)

lemma startup_persistent:
  "startup_of c (Some ''true'') cfg = Inr (RunEmbedded cfg' e keys) \<Longrightarrow> EphemeralKey \<notin> set keys"
  by (auto simp: startup_of_def key_sources_def Let_def split: option.splits if_splits)

text \<open>
  The documented behaviour of \<open>create_dir_all\<close>: after it has succeeded the directory exists; telemetry
  does not remove it.
\<close>

definition dir_laws :: "'f main_env \<Rightarrow> bool" where
  "dir_laws M \<longleftrightarrow>
     (\<forall>d fs fs'. me_create_dir_all M d fs = (Inr (), fs') \<longrightarrow> me_dir_exists M fs' d) \<and>
     (\<forall>tc fs d. me_dir_exists M fs d \<longrightarrow> me_dir_exists M (snd (me_init_telemetry M tc fs)) d)"

lemma main_creates_dir:
  assumes "dir_laws M" and "main M c fs = Some (Inr (RunSubcommand subcmd cfg keys), fs')"
  shows "me_dir_exists M fs' (so_data_dir (cf_storage cfg))"
proof -
  obtain r where r: "effective_config (me_from_toml M) (me_env M) (me_files M fs) (me_parse_addr M) c = Some r"
    using assms(2) by (auto simp: main_def)
  then obtain cfg1 where cfg1: "r = Inr cfg1" using assms(2) by (cases r) (auto simp: main_def)
  let ?d = "so_data_dir (cf_storage cfg1)"
  obtain fs1 where fs1: "me_create_dir_all M ?d fs = (Inr (), fs1)"
    using assms(2) r cfg1 by (cases "me_create_dir_all M ?d fs"; cases "fst (me_create_dir_all M ?d fs)") (auto simp: main_def)
  obtain t where t: "me_init_telemetry M (telemetry_config_of cfg1) fs1 = (t, fs')" and st: "startup_of c (me_require M) cfg1 = Inr (RunSubcommand subcmd cfg keys)"
    using assms(2) r cfg1 fs1 by (auto simp: main_def split: prod.splits sum.splits)
  have "cfg1 = cfg" using st by (auto simp: startup_of_def Let_def split: option.splits if_splits)
  then show ?thesis using assms(1) fs1 t by (metis dir_laws_def snd_conv)
qed

text \<open>The doctor, run by \<open>main\<close>, always finds its data directory: \<open>main\<close> has created it.\<close>

lemma doctor_finds_dir:
  assumes "dir_laws M" and "main M c fs = Some (Inr (RunSubcommand Doctor cfg keys), fs')"
    and "dx_dir_exists D = me_dir_exists M fs'"
  shows "fst (run_doctor D V cfg keys) ! 3 = ''  data dir:   '' @ so_data_dir (cf_storage cfg) @ '' (exists)''"
  using main_creates_dir [OF assms(1,2)] assms(3)
  by (simp add: run_doctor_def Let_def split: sum.split)

text \<open>The engine is shut down unless the metrics exporter or a listener cannot be started.\<close>

lemma engine_shutdown_reached:
  "EngineShutdown \<in> set (snd (server_exit M cfg scheduled embedded run)) \<longleftrightarrow>
     embedded \<and> (case sc_metrics_bind (cf_server cfg) of None \<Rightarrow> True | Some b \<Rightarrow> is_ok (mx_install_metrics M b)) \<and>
     is_ok (listen (mx_net M) (cf_server cfg))"
  by (cases "sc_metrics_bind (cf_server cfg)"; cases "mx_install_metrics M (the (sc_metrics_bind (cf_server cfg)))";
      cases "listen (mx_net M) (cf_server cfg)") (auto simp: server_exit_def exit_actions_def is_ok_def)

end
