(* ===== verification/Deployment.thy ===== *)
theory Deployment
  imports Startup
begin

text \<open>
  The server as \<open>run_server\<close> of \<open>shroudb-server/src/main.rs\<close> puts it together: the connection tasks with
  the reloadable validator and rate limit, the configuration reloader and the background tasks, all on
  one shared state. The state is a pair: what the reloader owns, and the data of the store and the
  engine. Commands and background tasks act on the data, the reloader on the rest.
\<close>

section \<open>Definitions\<close>

text \<open>Operations of the store and the engine as operations on the pair.\<close>

definition on_data :: "('d \<Rightarrow> 'r \<times> 'd) \<Rightarrow> 'w \<times> 'd \<Rightarrow> 'r \<times> 'w \<times> 'd" where
  "on_data f s = (case f (snd s) of (r, d) \<Rightarrow> (r, (fst s, d)))"

definition lift_store :: "('d, 'x) store \<Rightarrow> ('w \<times> 'd, 'x) store" where
  "lift_store S =
     \<lparr>st_put_with_options = (\<lambda>ns key val opts. on_data (st_put_with_options S ns key val opts)),
      st_get = (\<lambda>ns key version. on_data (st_get S ns key version)),
      st_delete = (\<lambda>ns key. on_data (st_delete S ns key)),
      st_put_if_version = (\<lambda>ns key val m expected. on_data (st_put_if_version S ns key val m expected)),
      st_delete_if_version = (\<lambda>ns key expected. on_data (st_delete_if_version S ns key expected)),
      st_delete_prefix = (\<lambda>ns pre. on_data (st_delete_prefix S ns pre)),
      st_list = (\<lambda>ns pre cursor limit. on_data (st_list S ns pre cursor limit)),
      st_versions = (\<lambda>ns key limit frm. on_data (st_versions S ns key limit frm)),
      st_namespace_create = (\<lambda>ns cfg. on_data (st_namespace_create S ns cfg)),
      st_namespace_drop = (\<lambda>ns force. on_data (st_namespace_drop S ns force)),
      st_namespace_list = (\<lambda>cursor limit. on_data (st_namespace_list S cursor limit)),
      st_namespace_info = (\<lambda>ns. on_data (st_namespace_info S ns)),
      st_namespace_alter = (\<lambda>ns cfg. on_data (st_namespace_alter S ns cfg)),
      st_namespace_validate = (\<lambda>ns. on_data (st_namespace_validate S ns))\<rparr>"

definition lift_engine :: "'d engine \<Rightarrow> ('w \<times> 'd) engine" where
  "lift_engine E =
     \<lparr>en_config_get = (\<lambda>key s. en_config_get E key (snd s)),
      en_config_validate = (\<lambda>key val s. en_config_validate E key val (snd s)),
      en_apply_config_changed = (\<lambda>ns key val. on_data (en_apply_config_changed E ns key val)),
      en_config_set = (\<lambda>key val t. on_data (en_config_set E key val t)),
      en_begin_rekey = (\<lambda>key. on_data (en_begin_rekey E key)),
      en_rekey_status = (\<lambda>s. en_rekey_status E (snd s)),
      en_unix_secs = (\<lambda>s. en_unix_secs E (snd s))\<rparr>"

definition lift_dispatcher :: "('d, 'x, 'a) dispatcher \<Rightarrow> ('w \<times> 'd, 'x, 'a) dispatcher" where
  "lift_dispatcher D =
     \<lparr>d_ext = d_ext D, d_store = lift_store (d_store D), d_engine = map_option lift_engine (d_engine D),
      d_check = (\<lambda>ctx r s. d_check D ctx r (snd s)), d_actor = d_actor D, d_now = (\<lambda>s. d_now D (snd s))\<rparr>"

text \<open>
  The server with its configuration: authentication is required or not for good, tokens are validated
  and the rate limit of a new connection is read from the reloader's state at that moment.
\<close>

definition deployed :: "('d, 'x, 'a) server \<Rightarrow> 'v validator_ops \<Rightarrow> (token \<Rightarrow> 'a) \<Rightarrow> shroudb_config \<Rightarrow>
    ('v reload_state \<times> 'd, 'x, 'a) server" where
  "deployed S V into_context cfg =
     \<lparr>sv_dispatcher = lift_dispatcher (sv_dispatcher S), sv_auth_required = auth_required cfg, sv_rnd = sv_rnd S,
      sv_validate = (\<lambda>raw s. map_sum id into_context (reloadable_validate V (fst s) raw)),
      sv_platform = sv_platform S, sv_is_expired = sv_is_expired S, sv_unix_secs = (\<lambda>s. sv_unix_secs S (snd s)),
      sv_subscribe = (\<lambda>ns filt. on_data (sv_subscribe S ns filt)), sv_rate_limit = (\<lambda>s. rs_rate_limit (fst s))\<rparr>"

text \<open>A change of the state of the dispatcher that concerns the data only.\<close>

definition on_dstate :: "('d dstate \<Rightarrow> 'd dstate) \<Rightarrow> ('w \<times> 'd) dstate \<Rightarrow> ('w \<times> 'd) dstate" where
  "on_dstate f st =
     (let st' = f \<lparr>world = snd (world st), idem_map = idem_map st, telemetry = telemetry st\<rparr> in
      \<lparr>world = (fst (world st), world st'), idem_map = idem_map st', telemetry = telemetry st'\<rparr>)"

text \<open>
  What happens in a deployment: an event of the server itself, an iteration of the reloader, a tick of a
  background task, the passing of time.
\<close>

datatype ('v, 'd) deploy_event =
    On_server "('v reload_state \<times> 'd) sys_event"
  | On_reloader reload_event
  | On_task bg_task
  | On_clock

text \<open>The parts of a deployment that do not change while it runs.\<close>

record ('d, 'x, 'a, 'v) deployment =
  dp_server :: "('d, 'x, 'a) server"
  dp_validator :: "'v validator_ops"
  dp_into_context :: "token \<Rightarrow> 'a"
  dp_engine :: "'d bg_engine"
  dp_from_toml :: "string \<Rightarrow> string + shroudb_config"
  dp_env :: "string \<Rightarrow> string"
  dp_clock :: "'d \<Rightarrow> 'd"
  dp_config :: shroudb_config

definition dp_deployed :: "('d, 'x, 'a, 'v) deployment \<Rightarrow> ('v reload_state \<times> 'd, 'x, 'a) server" where
  "dp_deployed P = deployed (dp_server P) (dp_validator P) (dp_into_context P) (dp_config P)"

definition deploy_sys :: "('d, 'x, 'a, 'v) deployment \<Rightarrow> ('v, 'd) deploy_event \<Rightarrow> ('v reload_state \<times> 'd) sys_event list" where
  "deploy_sys P ev = (case ev of
     On_server (Background _) \<Rightarrow> []
   | On_server e \<Rightarrow> [e]
   | On_reloader e \<Rightarrow> [Background (\<lambda>st. st\<lparr>world :=
       (reload_step (dp_validator P) (dp_from_toml P) (dp_env P) e (fst (world st)), snd (world st))\<rparr>)]
   | On_task t \<Rightarrow> [Background (on_dstate (bg_tick (sv_dispatcher (dp_server P)) (dp_engine P) t))]
   | On_clock \<Rightarrow> [Background (on_dstate (\<lambda>st. st\<lparr>world := dp_clock P (world st)\<rparr>))])"

definition deploy_run :: "('d, 'x, 'a, 'v) deployment \<Rightarrow> ('v, 'd) deploy_event list \<Rightarrow>
    ('v reload_state \<times> 'd, 'x, 'a) sys \<Rightarrow> ('v reload_state \<times> 'd, 'x, 'a) sys" where
  "deploy_run P evs sy = sys_run (dp_deployed P) (concat (map (deploy_sys P) evs)) sy"

text \<open>The state in which the server starts: \<open>run_server\<close> with the data \<open>d\<close> of the engine.\<close>

definition deploy_init :: "('d, 'x, 'a, 'v) deployment \<Rightarrow> listener_set \<Rightarrow> bool \<Rightarrow> nat option \<Rightarrow> bool \<Rightarrow> 'd \<Rightarrow>
    ('v reload_state \<times> 'd, 'x, 'a) sys" where
  "deploy_init P ls config_exists mtime embedded d =
     sys_init ls \<lparr>world = (run_reload (run_server (dp_validator P) (dp_config P) config_exists mtime embedded), d),
       idem_map = idempotency_new, telemetry = []\<rparr>"

lemma deploy_sys_cases:
  obtains "deploy_sys P ev = []" | e where "deploy_sys P ev = [e]"
proof (cases ev)
  case (On_server x)
  then show ?thesis using that by (cases x) (simp_all add: deploy_sys_def)
qed (use that in \<open>simp_all add: deploy_sys_def\<close>)

section \<open>Commands on the pair\<close>

lemma on_data_simps [simp]: "snd (snd (on_data f s)) = snd (f (snd s))" "fst (snd (on_data f s)) = fst s"
  "fst (on_data f s) = fst (f (snd s))"
  by (simp_all add: on_data_def case_prod_beta)

lemmas handler_defs = handle_put_def handle_get_def handle_delete_def handle_put_if_def handle_del_if_def
  handle_del_prefix_def handle_list_def handle_versions_def handle_create_def handle_drop_def
  handle_namespace_list_def handle_info_def handle_alter_def handle_validate_def handle_config_get_def
  handle_config_set_def handle_rekey_status_def

lemma dispatch_lift: "dispatch (lift_dispatcher D) c s = on_data (dispatch D c) s"
  by (cases c)
    (simp_all add: lift_dispatcher_def lift_store_def lift_engine_def handler_defs handle_rekey_def with_engine_def
      no_panic_def call_def on_data_def case_prod_beta split: option.split sum.split)

section \<open>What changes what\<close>

text \<open>A step that concerns the data only, as seen on the data.\<close>

definition data_step :: "('d \<times> 'd) set \<Rightarrow> (('w \<times> 'd) \<times> ('w \<times> 'd)) set" where
  "data_step R = {(s, s'). fst s' = fst s \<and> (snd s, snd s') \<in> R}"

lemma data_step_rtrancl: "(s, s') \<in> (data_step R)\<^sup>* \<Longrightarrow> fst s' = fst s \<and> (snd s, snd s') \<in> R\<^sup>*"
  by (induction rule: rtrancl_induct) (auto simp: data_step_def)

lemma deployed_simps [simp]:
  "sv_dispatcher (deployed S V ic cfg) = lift_dispatcher (sv_dispatcher S)"
  "sv_auth_required (deployed S V ic cfg) = auth_required cfg"
  "sv_validate (deployed S V ic cfg) raw s = map_sum id ic (reloadable_validate V (fst s) raw)"
  "sv_subscribe (deployed S V ic cfg) ns filt = on_data (sv_subscribe S ns filt)"
  by (simp_all add: deployed_def)

lemma lift_simps [simp]:
  "d_check (lift_dispatcher D) ctx r s = d_check D ctx r (snd s)" "d_ext (lift_dispatcher D) = d_ext D"
  by (simp_all add: lift_dispatcher_def)

lemma granted_lift: "granted_steps (deployed S V ic cfg) ctx \<subseteq> data_step (granted_steps S ctx)"
proof (rule subrelI)
  fix s s' assume "(s, s') \<in> granted_steps (deployed S V ic cfg) ctx"
  then consider (command) c where "permitted (sv_dispatcher S) (Some ctx) c (snd s)" "s' = snd (on_data (dispatch (sv_dispatcher S) c) s)"
    | (subscribe) ns key events where "is_ok (d_check (sv_dispatcher S) ctx (AclNamespace ns Read None) (snd s))"
        "s' = snd (on_data (sv_subscribe S ns \<lparr>sf_key = key, sf_events = event_filter events\<rparr>) s)"
    by (auto simp: granted_steps_def permitted_def dispatch_lift)
  then show "(s, s') \<in> data_step (granted_steps S ctx)"
  proof cases
    case command
    then show ?thesis by (auto simp: data_step_def granted_steps_def)
  next
    case subscribe
    then have "(snd s, snd s') \<in> granted_steps S ctx"
      unfolding granted_steps_def by (intro UnI2 CollectI case_prodI exI [of _ ns] exI [of _ key] exI [of _ events]) simp
    then show ?thesis using subscribe by (simp add: data_step_def)
  qed
qed

lemma client_lift: "client_steps (deployed S V ic cfg) A \<subseteq> data_step (client_steps S A)"
  using granted_lift by (fastforce simp: client_steps_def data_step_def)

lemma client_deployed: "client_steps (dp_deployed P) A \<subseteq> data_step (client_steps (dp_server P) A)"
  unfolding dp_deployed_def by (rule client_lift)

text \<open>What the background tasks and the clock do to the data.\<close>

definition task_steps :: "('d, 'x, 'a, 'v) deployment \<Rightarrow> ('d \<times> 'd) set" where
  "task_steps P = {(d, d'). d' \<in> {snapshot_tick (dp_engine P) d, fsync_tick (dp_engine P) d,
     compact_tombstones (dp_engine P) d, ttl_tick (dp_engine P) d, dp_clock P d}}"

lemma bg_tick_world: "world (bg_tick D E t st) = world st \<or>
   world (bg_tick D E t st) \<in> {snapshot_tick E (world st), fsync_tick E (world st), compact_tombstones E (world st), ttl_tick E (world st)}"
  by (cases t) (simp_all add: bg_tick_def reap_tick_def)

lemma on_dstate_world [simp]:
  "fst (world (on_dstate f st)) = fst (world st)"
  "snd (world (on_dstate f st)) = world (f \<lparr>world = snd (world st), idem_map = idem_map st, telemetry = telemetry st\<rparr>)"
  by (simp_all add: on_dstate_def Let_def)

text \<open>An event of the deployment, on both parts of the state.\<close>

lemma background_deploy:
  assumes "e \<in> set (deploy_sys P ev)" and "(s, s') \<in> background_steps [e]"
  shows "(snd s, snd s') \<in> (task_steps P)\<^sup>* \<and>
    (fst s' = fst s \<or> (\<exists>r. ev = On_reloader r \<and> fst s' = reload_step (dp_validator P) (dp_from_toml P) (dp_env P) r (fst s)))"
proof (cases ev)
  case (On_server x)
  then show ?thesis using assms by (cases x) (auto simp: deploy_sys_def background_steps_def)
next
  case (On_reloader r)
  then show ?thesis using assms by (auto simp: deploy_sys_def background_steps_def)
next
  case (On_task t)
  then obtain st where s: "s = world st" "s' = world (on_dstate (bg_tick (sv_dispatcher (dp_server P)) (dp_engine P) t) st)"
    using assms by (auto simp: deploy_sys_def background_steps_def)
  have "(snd s, snd s') \<in> (task_steps P)\<^sup>*"
    using bg_tick_world [of "sv_dispatcher (dp_server P)" "dp_engine P" t
      "\<lparr>world = snd (world st), idem_map = idem_map st, telemetry = telemetry st\<rparr>"]
    by (auto simp: s task_steps_def)
  then show ?thesis by (simp add: s)
next
  case On_clock
  then show ?thesis using assms by (auto simp: deploy_sys_def background_steps_def task_steps_def)
qed

section \<open>Where the tokens come from\<close>

text \<open>The configurations that are loaded: the one the server starts with, and those of the reloader.\<close>

definition loaded :: "('d, 'x, 'a, 'v) deployment \<Rightarrow> ('v, 'd) deploy_event list \<Rightarrow> shroudb_config set" where
  "loaded P evs = {dp_config P} \<union>
     {cfg. \<exists>mtime raw. On_reloader (Reload_tick mtime raw) \<in> set evs \<and> load_config (dp_from_toml P) (dp_env P) raw = Some (Inr cfg)}"

text \<open>The contexts of the tokens that a set of configurations lists.\<close>

definition configured_contexts :: "('d, 'x, 'a, 'v) deployment \<Rightarrow> shroudb_config set \<Rightarrow> 'a set" where
  "configured_contexts P C =
     {dp_into_context P (token_of_config tc) | raw tc cfg. cfg \<in> C \<and> (raw, tc) \<in> set (configured_tokens cfg)}"

definition built_from :: "('d, 'x, 'a, 'v) deployment \<Rightarrow> shroudb_config set \<Rightarrow> 'v reload_state \<Rightarrow> bool" where
  "built_from P C rs \<longleftrightarrow> (\<exists>cfg \<in> C. rs_validator rs = build_token_validator (dp_validator P) cfg)"

lemma reload_built_from:
  assumes "built_from P C rs" and "\<And>cfg mtime raw. r = Reload_tick mtime raw \<Longrightarrow>
      load_config (dp_from_toml P) (dp_env P) raw = Some (Inr cfg) \<Longrightarrow> cfg \<in> C"
  shows "built_from P C (reload_step (dp_validator P) (dp_from_toml P) (dp_env P) r rs)"
  using assms
  by (auto simp: built_from_def reload_step_def Let_def replace_validator_def split: reload_event.split option.split sum.split)

text \<open>The state of the reloader after a step of the server.\<close>

lemma sys_step_reload_state:
  assumes "auth_required (dp_config P)" and "auth_inv UNIV sy" and "e \<in> set (deploy_sys P ev)"
  shows "fst (world (shared (sys_step (dp_deployed P) e sy))) = fst (world (shared sy)) \<or>
    (\<exists>r. ev = On_reloader r \<and> fst (world (shared (sys_step (dp_deployed P) e sy))) =
      reload_step (dp_validator P) (dp_from_toml P) (dp_env P) r (fst (world (shared sy))))"
proof (cases "\<exists>f. e = Background f")
  case True
  then obtain f where "e = Background f" by blast
  then have "(world (shared sy), world (shared (sys_step (dp_deployed P) e sy))) \<in> background_steps [e]"
    by (auto simp: sys_step_def background_steps_def)
  from background_deploy [OF assms(3) this] show ?thesis by blast
next
  case False
  then have "background_steps [e] = {}" by (auto simp: background_steps_def)
  then have "(world (shared sy), world (shared (sys_step (dp_deployed P) e sy))) \<in> (client_steps (dp_deployed P) UNIV)\<^sup>*"
    using sys_step_world [of "dp_deployed P" UNIV sy e] assms(1,2) by (simp add: dp_deployed_def)
  then have "(world (shared sy), world (shared (sys_step (dp_deployed P) e sy))) \<in> (data_step (client_steps (dp_server P) UNIV))\<^sup>*"
    using rtrancl_mono [OF client_deployed] by blast
  from data_step_rtrancl [OF this] show ?thesis by simp
qed

lemma authenticated_configured:
  assumes "validator_laws (dp_validator P)" and "auth_required (dp_config P)"
    and "\<And>cfg. cfg \<in> C \<Longrightarrow> distinct (map fst (configured_tokens cfg))"
  shows "built_from P C (fst (world (shared sy))) \<Longrightarrow> auth_inv UNIV sy \<Longrightarrow> loaded P evs \<subseteq> C \<Longrightarrow>
    authenticated (dp_deployed P) (concat (map (deploy_sys P) evs)) sy \<subseteq> configured_contexts P C"
proof (induction evs arbitrary: sy)
  case (Cons ev evs)
  let ?S = "dp_deployed P"
  have by_e: "authenticated_by ?S e sy \<subseteq> configured_contexts P C" for e
  proof
    fix ctx assume "ctx \<in> authenticated_by ?S e sy"
    then obtain raw where "sv_validate ?S raw (world (shared sy)) = Inr ctx"
      by (auto simp: authenticated_by_def valid_auth_def)
    then obtain t where t: "reloadable_validate (dp_validator P) (fst (world (shared sy))) raw = Inr t" "ctx = dp_into_context P t"
      by (cases "reloadable_validate (dp_validator P) (fst (world (shared sy))) raw") (auto simp: dp_deployed_def)
    from Cons.prems(1) obtain cfg where cfg: "cfg \<in> C" "rs_validator (fst (world (shared sy))) = build_token_validator (dp_validator P) cfg"
      by (auto simp: built_from_def)
    then have "\<exists>tc. (raw, tc) \<in> set (configured_tokens cfg) \<and> t = token_of_config tc"
      using t(1) validate_built [OF assms(1) assms(3) [OF cfg(1)], of raw t] by (simp add: reloadable_validate_def)
    then show "ctx \<in> configured_contexts P C" using t(2) cfg(1) by (auto simp: configured_contexts_def)
  qed
  have load: "loaded P evs \<subseteq> C" using Cons.prems(3) by (auto simp: loaded_def)
  consider "deploy_sys P ev = []" | e where "deploy_sys P ev = [e]"
    by (rule deploy_sys_cases)
  then show ?case
  proof cases
    case 1
    then show ?thesis using Cons.IH [OF Cons.prems(1,2) load] by simp
  next
    case (2 e)
    let ?sy = "sys_step ?S e sy"
    have r: "built_from P C (reload_step (dp_validator P) (dp_from_toml P) (dp_env P) r (fst (world (shared sy))))"
      if "ev = On_reloader r" for r
      using Cons.prems(3) that by (intro reload_built_from [OF Cons.prems(1)]) (auto simp: loaded_def)
    have "built_from P C (fst (world (shared ?sy)))"
      using sys_step_reload_state [OF assms(2) Cons.prems(2), of e ev] 2 Cons.prems(1) r by auto
    moreover have "auth_inv UNIV ?sy"
      using sys_step_inv [of ?S UNIV sy e] assms(2) Cons.prems(2) by (simp add: dp_deployed_def)
    ultimately show ?thesis using Cons.IH [OF _ _ load] by_e 2 by simp
  qed
qed simp

section \<open>Properties\<close>

lemma deploy_run_data:
  assumes "auth_required (dp_config P)" and "auth_inv A sy"
    and "authenticated (dp_deployed P) (concat (map (deploy_sys P) evs)) sy \<subseteq> A"
  shows "(snd (world (shared sy)), snd (world (shared (deploy_run P evs sy)))) \<in> (client_steps (dp_server P) A \<union> task_steps P)\<^sup>*"
proof -
  let ?es = "concat (map (deploy_sys P) evs)" and ?R = "client_steps (dp_server P) A \<union> task_steps P"
  have run: "(world (shared sy), world (shared (deploy_run P evs sy))) \<in> (client_steps (dp_deployed P) A \<union> background_steps ?es)\<^sup>*"
    using sys_run_world [of "dp_deployed P" A sy ?es] assms by (simp add: deploy_run_def dp_deployed_def)
  have one: "(snd s, snd s') \<in> ?R\<^sup>*" if "(s, s') \<in> client_steps (dp_deployed P) A \<union> background_steps ?es" for s s'
  proof (cases "(s, s') \<in> client_steps (dp_deployed P) A")
    case True
    then have "(snd s, snd s') \<in> client_steps (dp_server P) A" using client_deployed by (fastforce simp: data_step_def)
    then show ?thesis by blast
  next
    case False
    with that obtain f st where f: "Background f \<in> set ?es" "s = world st" "s' = world (f st)"
      by (auto simp: background_steps_def)
    then obtain ev where "ev \<in> set evs" and e: "Background f \<in> set (deploy_sys P ev)" by auto
    have "(s, s') \<in> background_steps [Background f]" using f by (auto simp: background_steps_def)
    with background_deploy [OF e] have "(snd s, snd s') \<in> (task_steps P)\<^sup>*" by blast
    then show ?thesis using rtrancl_mono [of "task_steps P" ?R] by blast
  qed
  have "(snd s, snd s') \<in> ?R\<^sup>*" if "(s, s') \<in> (client_steps (dp_deployed P) A \<union> background_steps ?es)\<^sup>*" for s s'
    using that
  proof (induction rule: rtrancl_induct)
    case (step y z)
    show ?case by (rule rtrancl_trans [OF step.IH one [OF step.hyps(2)]])
  qed simp
  with run show ?thesis by blast
qed

text \<open>A deployment on the in-memory store, for evaluation.\<close>

definition mem_bg :: "mem bg_engine" where
  "mem_bg = \<lparr>be_entries_since_snapshot = (\<lambda>_. 0), be_secs_since_snapshot = (\<lambda>_. 0), be_entry_threshold = (\<lambda>_. 1),
     be_time_threshold_secs = (\<lambda>_. 1), be_snapshot = (\<lambda>s. (Inr (), s)), be_flush_wal = (\<lambda>s. (Inr (), s)),
     be_sweep_tick = (\<lambda>_ s. (Inr 0, s)), be_namespaces = (\<lambda>_. []), be_find_expired = (\<lambda>_ _ _. []),
     be_compact = (\<lambda>_ _ s. (Inr (), s)), be_unix_secs = (\<lambda>_. None), be_unix_millis = (\<lambda>_. None),
     be_fsync_interval_ms = (\<lambda>_. None), be_ttl_sweep_interval_ms = (\<lambda>_. 1000), be_active_keys = (\<lambda>_. []),
     be_cache = (\<lambda>_. None)\<rparr>"

definition demo_deployment :: "(mem, string, string, (string \<times> token) list) deployment" where
  "demo_deployment = \<lparr>dp_server = demo_server, dp_validator = list_validator, dp_into_context = tk_actor,
     dp_engine = mem_bg, dp_from_toml = (\<lambda>_. Inr demo_config), dp_env = (\<lambda>_. []),
     dp_clock = (\<lambda>m. m\<lparr>m_clock := m_clock m + 1\<rparr>), dp_config = demo_config\<rparr>"

text \<open>
  C3: from the configuration file to the data. In a server that is started from a configuration which
  requires authentication, whatever clients send, in any interleaving of connections, reloads of the
  configuration, background tasks and the passing of time, every change to the data is made by a
  background task or by a command (or subscription) that the access check allowed, at that moment, to the
  context of a token listed in a configuration that was loaded: the initial one, or a later content of
  the file.
\<close>

theorem deployment_data_changes:
  assumes "validator_laws (dp_validator P)" and "auth_required (dp_config P)"
    and "\<And>cfg. cfg \<in> loaded P evs \<Longrightarrow> distinct (map fst (configured_tokens cfg))"
  shows "(d, snd (world (shared (deploy_run P evs (deploy_init P ls config_exists mtime embedded d))))) \<in>
    (client_steps (dp_server P) (configured_contexts P (loaded P evs)) \<union> task_steps P)\<^sup>*"
proof -
  let ?sy = "deploy_init P ls config_exists mtime embedded d"
  have inv: "auth_inv A ?sy" for A by (simp add: deploy_init_def sys_init_def auth_inv_def)
  have "built_from P (loaded P evs) (fst (world (shared ?sy)))"
    by (auto simp: deploy_init_def sys_init_def run_server_def built_from_def loaded_def)
  from authenticated_configured [OF assms(1,2,3) this inv subset_refl]
  have "authenticated (dp_deployed P) (concat (map (deploy_sys P) evs)) ?sy \<subseteq> configured_contexts P (loaded P evs)" .
  from deploy_run_data [OF assms(2) inv this] show ?thesis by (simp add: deploy_init_def sys_init_def)
qed

theorem deployment_data_changes_witness:
  "(mem_empty, snd (world (shared (deploy_run demo_deployment
      [On_server Accept_tcp, On_server (At 0 (cmd_frame [''AUTH'', ''t1''])), On_reloader (Reload_tick (Some 2) (Inr [])), On_clock]
      (deploy_init demo_deployment \<lparr>ls_tls = False, ls_uds = False\<rparr> True (Some 1) True mem_empty))))) \<in>
    (client_steps (dp_server demo_deployment) (configured_contexts demo_deployment (loaded demo_deployment
      [On_server Accept_tcp, On_server (At 0 (cmd_frame [''AUTH'', ''t1''])), On_reloader (Reload_tick (Some 2) (Inr [])), On_clock]))
     \<union> task_steps demo_deployment)\<^sup>*"
proof (rule deployment_data_changes)
  show "validator_laws (dp_validator demo_deployment)" by (simp add: demo_deployment_def list_validator_laws)
  show "auth_required (dp_config demo_deployment)" by (simp add: demo_deployment_def demo_config_def auth_required_def)
  show "distinct (map fst (configured_tokens cfg))" if "cfg \<in> loaded demo_deployment
      [On_server Accept_tcp, On_server (At 0 (cmd_frame [''AUTH'', ''t1''])), On_reloader (Reload_tick (Some 2) (Inr [])), On_clock]" for cfg
    using that demo_tokens load_demo by (auto simp: loaded_def demo_deployment_def)
qed

end
