(* ===== verification/Webhooks.thy ===== *)
theory Webhooks
  imports Config Connection
begin

text \<open>
  The webhook actors, \<open>shroudb-server/src/webhooks.rs\<close>. What an actor does is its list of actions:
  HTTP requests and pauses. The serialiser of events, the HMAC and its hexadecimal text come from
  other crates and are arguments; so is the outcome of every request.
\<close>

section \<open>Definitions\<close>

definition event_type_str :: "event_type \<Rightarrow> string" where
  "event_type_str e = (case e of EvPut \<Rightarrow> ''put'' | EvDelete \<Rightarrow> ''delete'')"

definition matches_filter :: "webhook_config \<Rightarrow> subscription_event \<Rightarrow> bool" where
  "matches_filter config event =
     (if wc_events config \<noteq> [] \<and>
         \<not> list_ex (\<lambda>e. eq_ignore_ascii_case e (event_type_str (se_event event))) (wc_events config) then False
      else if wc_namespaces config \<noteq> [] \<and>
         \<not> list_ex (\<lambda>pattern. case strip_suffix ''*'' pattern of
               Some pre \<Rightarrow> prefix pre (se_namespace event)
             | None \<Rightarrow> se_namespace event = pattern) (wc_namespaces config) then False
      else True)"

record post_request =
  pq_url :: string
  pq_headers :: "(string \<times> string) list"
  pq_body :: bytes

datatype webhook_action = Post post_request | Sleep nat

record webhook_ext =
  wx_to_vec :: "subscription_event \<Rightarrow> string + bytes"
  wx_hmac_hex :: "string \<Rightarrow> bytes \<Rightarrow> string"

text \<open>The loop over the attempts \<open>k\<close> up to \<open>mx\<close>; \<open>ok k\<close> says whether attempt \<open>k\<close> got a success status.\<close>

function deliver_from :: "(nat \<Rightarrow> bool) \<Rightarrow> nat \<Rightarrow> post_request \<Rightarrow> nat \<Rightarrow> webhook_action list" where
  "deliver_from ok mx req k =
     (if mx < k then []
      else Post req #
        (if ok k then []
         else (if k < mx then [Sleep (2 ^ min k 3)] else []) @ deliver_from ok mx req (Suc k)))"
  by pat_completeness auto
termination
  by (relation "measure (\<lambda>(ok, mx, req, k). Suc mx - k)") auto

declare deliver_from.simps [simp del]

definition webhook_request :: "webhook_ext \<Rightarrow> webhook_config \<Rightarrow> subscription_event \<Rightarrow> bytes \<Rightarrow> post_request" where
  "webhook_request W config event body =
     \<lparr>pq_url = wc_url config,
      pq_headers = [(''Content-Type'', ''application/json''),
        (''X-ShrouDB-Signature-256'', ''sha256='' @ wx_hmac_hex W (wc_secret config) body),
        (''X-ShrouDB-Event'', event_type_str (se_event event))],
      pq_body = body\<rparr>"

definition deliver_with_retry :: "webhook_ext \<Rightarrow> webhook_config \<Rightarrow> (nat \<Rightarrow> bool) \<Rightarrow> subscription_event \<Rightarrow>
    webhook_action list" where
  "deliver_with_retry W config ok event = (case wx_to_vec W event of
     Inl _ \<Rightarrow> []
   | Inr body \<Rightarrow> deliver_from ok (unat (wc_max_retries config)) (webhook_request W config event body) 0)"

text \<open>
  The loop of \<open>run_webhook\<close>: what its \<open>select!\<close> yields, and the actions until it ends. The outcomes of
  the attempts to deliver an event come with the event.
\<close>

datatype webhook_event =
    Webhook_signal bool
  | Webhook_recv subscription_event "nat \<Rightarrow> bool"
  | Webhook_lagged nat
  | Webhook_closed

fun run_webhook :: "webhook_ext \<Rightarrow> webhook_config \<Rightarrow> webhook_event list \<Rightarrow> webhook_action list" where
  "run_webhook W config [] = []"
| "run_webhook W config (Webhook_signal b # evs) = (if b then [] else run_webhook W config evs)"
| "run_webhook W config (Webhook_recv event ok # evs) =
     (if matches_filter config event then deliver_with_retry W config ok event else []) @ run_webhook W config evs"
| "run_webhook W config (Webhook_lagged n # evs) = run_webhook W config evs"
| "run_webhook W config (Webhook_closed # evs) = []"

section \<open>Lemmas\<close>

lemma deliver_from_until:
  assumes "k \<le> n" and "n \<le> mx" and "\<And>j. k \<le> j \<Longrightarrow> j < n \<Longrightarrow> \<not> ok j" and "ok n \<or> n = mx"
  shows "deliver_from ok mx req k = concat (map (\<lambda>j. [Post req, Sleep (2 ^ min j 3)]) [k..<n]) @ [Post req]"
  using assms
proof (induction "n - k" arbitrary: k)
  case 0
  then have "k = n" by simp
  then show ?case using "0.prems"
    by (auto simp: deliver_from.simps [of ok mx req n] deliver_from.simps [of ok mx req "Suc n"])
next
  case (Suc d)
  then have "deliver_from ok mx req (Suc k) =
      concat (map (\<lambda>j. [Post req, Sleep (2 ^ min j 3)]) [Suc k..<n]) @ [Post req]" by simp
  moreover have "\<not> ok k" "k < mx" "k < n" using Suc by auto
  ultimately show ?case by (simp add: deliver_from.simps [of ok mx req k] upt_conv_Cons)
qed

section \<open>Properties\<close>

text \<open>
  C35: webhook delivery. An event that matches the filter is posted until the first success, at most
  once plus \<open>max_retries\<close> times; every attempt is the same request, with the signature of its body under
  the endpoint's secret, and consecutive attempts are separated by pauses of 1, 2, 4, 8, 8, ... seconds.
\<close>

theorem webhook_delivery:
  assumes "wx_to_vec W event = Inr body" and "n \<le> unat (wc_max_retries config)"
    and "\<And>j. j < n \<Longrightarrow> \<not> ok j" and "ok n \<or> n = unat (wc_max_retries config)"
  shows "run_webhook W config (Webhook_recv event ok # evs) =
    (if matches_filter config event
     then concat (map (\<lambda>j. [Post (webhook_request W config event body), Sleep (2 ^ min j 3)]) [0..<n]) @
       [Post (webhook_request W config event body)]
     else []) @ run_webhook W config evs"
  using deliver_from_until [of 0 n "unat (wc_max_retries config)" ok "webhook_request W config event body"] assms
  by (simp add: deliver_with_retry_def)

definition demo_hook :: webhook_config where
  "demo_hook = \<lparr>wc_url = ''http://h'', wc_secret = ''s'', wc_events = [''PUT''], wc_namespaces = [''app.*''],
     wc_max_retries = default_max_retries, wc_timeout_ms = default_webhook_timeout_ms\<rparr>"

definition demo_event :: subscription_event where
  "demo_event = \<lparr>se_event = EvPut, se_namespace = ''app.x'', se_key = ''k'', se_version = 1, se_actor = ''a'', se_timestamp = 0\<rparr>"

definition demo_wx :: webhook_ext where
  "demo_wx = \<lparr>wx_to_vec = (\<lambda>e. Inr (se_key e)), wx_hmac_hex = (\<lambda>s b. s @ b)\<rparr>"

theorem webhook_delivery_witness:
  "run_webhook demo_wx demo_hook [Webhook_recv demo_event (\<lambda>k. k = 2)] =
    (if matches_filter demo_hook demo_event
     then concat (map (\<lambda>j. [Post (webhook_request demo_wx demo_hook demo_event ''k''), Sleep (2 ^ min j 3)]) [0..<2]) @
       [Post (webhook_request demo_wx demo_hook demo_event ''k'')]
     else []) @ run_webhook demo_wx demo_hook []"
  by (rule webhook_delivery) (simp_all add: demo_wx_def demo_event_def demo_hook_def default_max_retries_def)

end
