(* ===== verification/Poll.thy ===== *)
theory Poll
  imports Resp3
begin

text \<open>
  The frame reader as the runtime drives it. \<open>read_frame\<close> of \<open>resp3/reader.rs\<close> is an asynchronous
  function: a poll consumes the bytes that have arrived and is pending when they do not make up a
  frame. When the \<open>select\<close> around it takes another branch, the suspended call is dropped, and the bytes it
  has taken from the buffer are dropped with it. \<open>poll_frame\<close> is the reader on the bytes that have
  arrived so far; \<open>wire_step\<close> is a reader that is polled, dropped and started again.
\<close>

section \<open>Polling\<close>

text \<open>\<open>None\<close> is a pending read: one of the reads underneath needs more bytes.\<close>

definition poll_try :: "('e + 'a) option \<Rightarrow> ('a \<Rightarrow> ('e + 'b) option) \<Rightarrow> ('e + 'b) option" where
  "poll_try p k = (case p of None \<Rightarrow> None | Some (Inl e) \<Rightarrow> Some (Inl e) | Some (Inr x) \<Rightarrow> k x)"

lemma poll_try_simps [simp]:
  "poll_try None k = None" "poll_try (Some (Inl e)) k = Some (Inl e)" "poll_try (Some (Inr x)) k = k x"
  by (simp_all add: poll_try_def)

lemma poll_try_cong [fundef_cong]:
  "p = p' \<Longrightarrow> (\<And>x. p' = Some (Inr x) \<Longrightarrow> k x = k' x) \<Longrightarrow> poll_try p k = poll_try p' k'"
  by (auto simp: poll_try_def split: option.split sum.split)

definition poll_line :: "bytes \<Rightarrow> (protocol_error + string \<times> bytes) option" where
  "poll_line s = (if LF \<in> set s then Some (read_line s) else None)"

definition poll_len :: "string \<Rightarrow> nat \<Rightarrow> bytes \<Rightarrow> (protocol_error + nat \<times> bytes) option" where
  "poll_len what limit s =
     poll_try (poll_line s) (\<lambda>(line, r). Some (
     try_res (map_err (\<lambda>e. InvalidFormat (''bad '' @ what @ '' length: '' @ parse_int_error_to_string e))
                (parse_usize line)) (\<lambda>n.
     if limit < unat n then Inl (FrameTooLarge n) else Inr (unat n, r))))"

definition poll_integer :: "bytes \<Rightarrow> (protocol_error + i64 \<times> bytes) option" where
  "poll_integer s =
     poll_try (poll_line s) (\<lambda>(line, r). Some (
     try_res (map_err (\<lambda>e. InvalidFormat (''bad integer: '' @ parse_int_error_to_string e))
                (parse_i64 line)) (\<lambda>n. Inr (n, r))))"

definition poll_exact :: "nat \<Rightarrow> bytes \<Rightarrow> (protocol_error + bytes \<times> bytes) option" where
  "poll_exact n s = (if n \<le> length s then Some (read_exact n s) else None)"

definition poll_crlf :: "string \<Rightarrow> bytes \<Rightarrow> (protocol_error + unit \<times> bytes) option" where
  "poll_crlf after s = (if 2 \<le> length s then Some (map_sum id (Pair ()) (read_crlf after s)) else None)"

definition poll_bulk :: "bytes \<Rightarrow> (protocol_error + bytes \<times> bytes) option" where
  "poll_bulk s =
     poll_try (poll_len ''bulk'' MAX_BULK_SIZE s) (\<lambda>(n, r).
     poll_try (poll_exact n r) (\<lambda>(buf, r').
     poll_try (poll_crlf ''bulk string'' r') (\<lambda>(_, r''). Some (Inr (buf, r'')))))"

function (sequential)
  poll_frame_depth :: "nat \<Rightarrow> bytes \<Rightarrow> (protocol_error + resp3_frame \<times> bytes) option"
  and poll_frames :: "nat \<Rightarrow> nat \<Rightarrow> bytes \<Rightarrow> (protocol_error + resp3_frame list \<times> bytes) option"
  and poll_pairs :: "nat \<Rightarrow> nat \<Rightarrow> bytes \<Rightarrow> (protocol_error + (resp3_frame \<times> resp3_frame) list \<times> bytes) option"
where
  "poll_frame_depth depth s =
     (if MAX_DEPTH < depth then Some (Inl NestingTooDeep)
      else case s of
        [] \<Rightarrow> None
      | type_byte # s1 \<Rightarrow>
          if type_byte = CHR ''+'' then
            poll_try (poll_line s1) (\<lambda>(line, r). Some (Inr (SimpleString line, r)))
          else if type_byte = CHR ''-'' then
            poll_try (poll_line s1) (\<lambda>(line, r). Some (Inr (SimpleError line, r)))
          else if type_byte = CHR '':'' then
            poll_try (poll_integer s1) (\<lambda>(n, r). Some (Inr (Integer n, r)))
          else if type_byte = CHR ''$'' then
            poll_try (poll_bulk s1) (\<lambda>(buf, r). Some (Inr (BulkString buf, r)))
          else if type_byte = CHR ''*'' then
            poll_try (poll_len ''array'' MAX_COLLECTION_SIZE s1) (\<lambda>(count, r).
            poll_try (poll_frames (Suc depth) count r) (\<lambda>(fs, r'). Some (Inr (Array fs, r'))))
          else if type_byte = CHR ''%'' then
            poll_try (poll_len ''map'' MAX_COLLECTION_SIZE s1) (\<lambda>(count, r).
            poll_try (poll_pairs (Suc depth) count r) (\<lambda>(ps, r'). Some (Inr (Map ps, r'))))
          else if type_byte = CHR ''>'' then
            poll_try (poll_len ''push'' MAX_COLLECTION_SIZE s1) (\<lambda>(count, r).
            poll_try (poll_frames (Suc depth) count r) (\<lambda>(fs, r'). Some (Inr (Push fs, r'))))
          else if type_byte = CHR ''_'' then
            poll_try (poll_crlf ''null'' s1) (\<lambda>(_, r). Some (Inr (Null, r)))
          else Some (Inl (InvalidTypeByte type_byte)))"
| "poll_frames depth 0 s = Some (Inr ([], s))"
| "poll_frames depth (Suc n) s =
     poll_try (poll_frame_depth depth s) (\<lambda>(f, r).
     poll_try (poll_frames depth n r) (\<lambda>(fs, r'). Some (Inr (f # fs, r'))))"
| "poll_pairs depth 0 s = Some (Inr ([], s))"
| "poll_pairs depth (Suc n) s =
     poll_try (poll_frame_depth depth s) (\<lambda>(k, r).
     poll_try (poll_frame_depth depth r) (\<lambda>(v, r').
     poll_try (poll_pairs depth n r') (\<lambda>(ps, r''). Some (Inr ((k, v) # ps, r'')))))"
  by pat_completeness auto
termination
  by (relation "measures
       [\<lambda>x. case x of Inl (d, s) \<Rightarrow> 10 - d | Inr (Inl (d, n, s)) \<Rightarrow> 10 - d | Inr (Inr (d, n, s)) \<Rightarrow> 10 - d,
        \<lambda>x. case x of Inl _ \<Rightarrow> 0 | Inr (Inl (d, n, s)) \<Rightarrow> Suc n | Inr (Inr (d, n, s)) \<Rightarrow> Suc n]")
    (auto simp: MAX_DEPTH_def)

declare poll_frame_depth.simps [simp del]

definition poll_frame :: "bytes \<Rightarrow> (protocol_error + resp3_frame option \<times> bytes) option" where
  "poll_frame s = map_option (map_sum id (apfst Some)) (poll_frame_depth 0 s)"

section \<open>Polling and reading agree\<close>

text \<open>
  \<open>agrees g p q t\<close>: what the poll found, if it is not pending, is what the read \<open>q\<close> finds when \<open>t\<close>
  follows; \<open>t\<close> is left unread.
\<close>

definition agrees :: "('a \<Rightarrow> 'b) \<Rightarrow> ('e + 'a \<times> bytes) option \<Rightarrow> 'e + 'b \<times> bytes \<Rightarrow> bytes \<Rightarrow> bool" where
  "agrees g p q t = (case p of None \<Rightarrow> True | Some (Inl e) \<Rightarrow> q = Inl e | Some (Inr (x, r)) \<Rightarrow> q = Inr (g x, r @ t))"

lemma agrees_simps [simp]:
  "agrees g None q t" "agrees g (Some (Inl e)) q t \<longleftrightarrow> q = Inl e" "agrees g (Some (Inr (x, r))) q t \<longleftrightarrow> q = Inr (g x, r @ t)"
  by (simp_all add: agrees_def)

lemma agrees_try:
  assumes "agrees g p q t" and "\<And>x r. p = Some (Inr (x, r)) \<Longrightarrow> agrees h (k (x, r)) (k' (g x, r @ t)) t"
  shows "agrees h (poll_try p k) (try_res q k') t"
proof (cases p)
  case (Some a)
  then show ?thesis using assms by (cases a) auto
qed simp

lemma split_line_more: "LF \<in> set s \<Longrightarrow> split_line (s @ t) = apsnd (\<lambda>r. r @ t) (split_line s)"
  by (induction s) (auto split: prod.split)

lemma agrees_line: "agrees id (poll_line s) (read_line (s @ t)) t"
  by (auto simp: poll_line_def read_line_def split_line_more split: prod.split)

lemma agrees_pure: "agrees id (Some (try_res q (\<lambda>n. if b n then Inl (e n) else Inr (h n, r)))) (try_res q (\<lambda>n. if b n then Inl (e n) else Inr (h n, r @ t))) t"
  by (cases q) simp_all

lemma agrees_len: "agrees id (poll_len what limit s) (read_len what limit (s @ t)) t"
  unfolding poll_len_def read_len_def by (rule agrees_try [OF agrees_line]) (simp add: agrees_pure del: try_res_simps)

lemma agrees_integer: "agrees id (poll_integer s) (read_integer (s @ t)) t"
  unfolding poll_integer_def read_integer_def
  by (rule agrees_try [OF agrees_line]) (simp add: agrees_pure [where b = "\<lambda>_. False", simplified])

lemma agrees_exact: "agrees id (poll_exact n s) (read_exact n (s @ t)) t"
  by (simp add: poll_exact_def read_exact_def)

lemma agrees_crlf: "agrees id (poll_crlf after s) (map_sum id (Pair ()) (read_crlf after (s @ t))) t"
  by (simp add: poll_crlf_def read_crlf_def read_exact_def)

lemma agrees_crlf_try:
  "(\<And>r. agrees h (k ((), r)) (k' (r @ t)) t) \<Longrightarrow> agrees h (poll_try (poll_crlf after s) k) (try_res (read_crlf after (s @ t)) k') t"
  by (auto simp: poll_crlf_def read_crlf_def read_exact_def)

lemma agrees_bulk: "agrees id (poll_bulk s) (read_bulk (s @ t)) t"
  unfolding poll_bulk_def read_bulk_def
  by (auto intro!: agrees_try [OF agrees_len] agrees_try [OF agrees_exact] agrees_crlf_try)

lemma poll_frame_depth_kind:
  assumes "d \<le> MAX_DEPTH"
  shows
    "poll_frame_depth d (CHR ''+'' # s) = poll_try (poll_line s) (\<lambda>(l, r). Some (Inr (SimpleString l, r)))"
    "poll_frame_depth d (CHR ''-'' # s) = poll_try (poll_line s) (\<lambda>(l, r). Some (Inr (SimpleError l, r)))"
    "poll_frame_depth d (CHR '':'' # s) = poll_try (poll_integer s) (\<lambda>(n, r). Some (Inr (Integer n, r)))"
    "poll_frame_depth d (CHR ''$'' # s) = poll_try (poll_bulk s) (\<lambda>(b, r). Some (Inr (BulkString b, r)))"
    "poll_frame_depth d (CHR ''*'' # s) =
       poll_try (poll_len ''array'' MAX_COLLECTION_SIZE s) (\<lambda>(n, r).
       poll_try (poll_frames (Suc d) n r) (\<lambda>(fs, r'). Some (Inr (Array fs, r'))))"
    "poll_frame_depth d (CHR ''%'' # s) =
       poll_try (poll_len ''map'' MAX_COLLECTION_SIZE s) (\<lambda>(n, r).
       poll_try (poll_pairs (Suc d) n r) (\<lambda>(ps, r'). Some (Inr (Map ps, r'))))"
    "poll_frame_depth d (CHR ''>'' # s) =
       poll_try (poll_len ''push'' MAX_COLLECTION_SIZE s) (\<lambda>(n, r).
       poll_try (poll_frames (Suc d) n r) (\<lambda>(fs, r'). Some (Inr (Push fs, r'))))"
    "poll_frame_depth d (CHR ''_'' # s) = poll_try (poll_crlf ''null'' s) (\<lambda>(_, r). Some (Inr (Null, r)))"
  using assms by (simp_all add: poll_frame_depth.simps)

text \<open>One frame, given the agreement for the elements of a collection.\<close>

lemma agrees_depth:
  assumes "\<And>n r what. agrees id (poll_frames (Suc d) n r) (read_frames (Suc d) what n (r @ t)) t"
    and "\<And>n r. agrees id (poll_pairs (Suc d) n r) (read_pairs (Suc d) n (r @ t)) t"
    and "d \<le> MAX_DEPTH"
  shows "agrees Some (poll_frame_depth d s) (read_frame_depth d (s @ t)) t"
proof (cases s)
  case Nil
  then show ?thesis using assms(3) by (simp add: poll_frame_depth.simps)
next
  case (Cons b s1)
  note kinds = poll_frame_depth_kind [OF assms(3)] read_frame_depth_kind [OF assms(3)]
  have "b \<in> set ''+-:$*%>_'' \<or> b \<notin> set ''+-:$*%>_''" by blast
  then consider "b = CHR ''+''" | "b = CHR ''-''" | "b = CHR '':''" | "b = CHR ''$''" | "b = CHR ''*''" | "b = CHR ''%''" | "b = CHR ''>''"
    | "b = CHR ''_''" | "b \<notin> set ''+-:$*%>_''"
    by (simp only: list.set insert_iff empty_iff) blast
  then show ?thesis
  proof cases
    case 1 show ?thesis unfolding Cons 1 append_Cons kinds by (rule agrees_try [OF agrees_line]) simp
  next
    case 2 show ?thesis unfolding Cons 2 append_Cons kinds by (rule agrees_try [OF agrees_line]) simp
  next
    case 3 show ?thesis unfolding Cons 3 append_Cons kinds by (rule agrees_try [OF agrees_integer]) simp
  next
    case 4 show ?thesis unfolding Cons 4 append_Cons kinds by (rule agrees_try [OF agrees_bulk]) simp
  next
    case 5 show ?thesis unfolding Cons 5 append_Cons kinds
      by (rule agrees_try [OF agrees_len], simp, rule agrees_try [OF assms(1)], simp)
  next
    case 6 show ?thesis unfolding Cons 6 append_Cons kinds
      by (rule agrees_try [OF agrees_len], simp, rule agrees_try [OF assms(2)], simp)
  next
    case 7 show ?thesis unfolding Cons 7 append_Cons kinds
      by (rule agrees_try [OF agrees_len], simp, rule agrees_try [OF assms(1)], simp)
  next
    case 8 show ?thesis unfolding Cons 8 append_Cons kinds by (rule agrees_crlf_try) simp
  next
    case 9
    then show ?thesis using assms(3) by (simp add: Cons poll_frame_depth.simps read_frame_depth.simps)
  qed
qed

lemma agrees_frames:
  assumes "\<And>s. agrees Some (poll_frame_depth d s) (read_frame_depth d (s @ t)) t"
  shows "agrees id (poll_frames d n s) (read_frames d what n (s @ t)) t"
proof (induction n arbitrary: s)
  case (Suc n)
  show ?case unfolding poll_frames.simps read_frames.simps
    by (rule agrees_try [OF assms], simp, rule agrees_try [OF Suc], simp)
qed simp

lemma agrees_pairs:
  assumes "\<And>s. agrees Some (poll_frame_depth d s) (read_frame_depth d (s @ t)) t"
  shows "agrees id (poll_pairs d n s) (read_pairs d n (s @ t)) t"
proof (induction n arbitrary: s)
  case (Suc n)
  show ?case unfolding poll_pairs.simps read_pairs.simps
    by (rule agrees_try [OF assms], simp, rule agrees_try [OF assms], simp, rule agrees_try [OF Suc], simp)
qed simp

text \<open>By induction on the depth that is left.\<close>

lemma agrees_frame: "agrees Some (poll_frame_depth d s) (read_frame_depth d (s @ t)) t"
proof (induction "Suc MAX_DEPTH - d" arbitrary: d s)
  case 0
  then have "MAX_DEPTH < d" by simp
  then show ?case by (simp add: poll_frame_depth.simps read_frame_depth.simps)
next
  case (Suc k)
  have deeper: "agrees Some (poll_frame_depth (Suc d) s) (read_frame_depth (Suc d) (s @ t)) t" for s
    using Suc.hyps(2) by (intro Suc.hyps(1)) simp
  have "d \<le> MAX_DEPTH" using Suc.hyps(2) by simp
  then show ?case by (rule agrees_depth [OF agrees_frames [OF deeper] agrees_pairs [OF deeper]])
qed

section \<open>A written frame is complete\<close>

lemma poll_line_written:
  "line_ok l \<Longrightarrow> poll_line (l @ CR # LF # r) = Some (Inr (l, r))"
  "poll_integer (i64_to_string n @ CR # LF # r) = Some (Inr (n, r))"
  "poll_crlf after (CR # LF # r) = Some (Inr ((), r))"
  by (simp_all add: poll_line_def poll_integer_def poll_crlf_def wire_simps)

lemma poll_len_written:
  assumes "n \<le> limit" and "limit < 2 ^ 64"
  shows "poll_len w limit (dec_of_nat n @ CR # LF # r) = Some (Inr (n, r))"
proof -
  have "unat (of_nat n :: 64 word) = n" using assms by (simp add: unsigned_of_nat take_bit_nat_eq_self)
  then show ?thesis using assms by (simp add: poll_len_def poll_line_written parse_usize_dec_of_nat)
qed

lemma poll_bulk_written:
  "length data \<le> MAX_BULK_SIZE \<Longrightarrow>
    poll_bulk (dec_of_nat (length data) @ CR # LF # data @ CR # LF # r) = Some (Inr (data, r))"
  using limits_small by (simp add: poll_bulk_def poll_len_written poll_exact_def read_exact_def poll_line_written)

lemmas poll_written = poll_line_written poll_len_written poll_bulk_written

lemma poll_frames_written:
  assumes "\<And>f r. f \<in> set fs \<Longrightarrow> poll_frame_depth d (write_frame f @ r) = Some (Inr (f, r))"
  shows "poll_frames d (length fs) (concat (map write_frame fs) @ r) = Some (Inr (fs, r))"
  using assms by (induction fs) simp_all

lemma poll_pairs_written:
  assumes "\<And>k v r. (k, v) \<in> set ps \<Longrightarrow> poll_frame_depth d (write_frame k @ r) = Some (Inr (k, r)) \<and>
      poll_frame_depth d (write_frame v @ r) = Some (Inr (v, r))"
  shows "poll_pairs d (length ps) (concat (map (\<lambda>(k, v). write_frame k @ write_frame v) ps) @ r) = Some (Inr (ps, r))"
  using assms
proof (induction ps)
  case (Cons p ps)
  obtain k v where p: "p = (k, v)" by force
  have "poll_frame_depth d (write_frame k @ t) = Some (Inr (k, t))" "poll_frame_depth d (write_frame v @ t) = Some (Inr (v, t))" for t
    using Cons.prems [of k v t] p by simp_all
  moreover have "poll_pairs d (length ps) (concat (map (\<lambda>(k, v). write_frame k @ write_frame v) ps) @ r) = Some (Inr (ps, r))"
    by (rule Cons.IH) (rule Cons.prems, simp)
  ultimately show ?case using p by simp
qed simp

lemma poll_frame_depth_written: "frame_ok d f \<Longrightarrow> poll_frame_depth d (write_frame f @ r) = Some (Inr (f, r))"
proof (induction f arbitrary: d r rule: write_frame.induct)
  case (5 frames)
  then have "poll_frames (Suc d) (length frames) (concat (map write_frame frames) @ r) = Some (Inr (frames, r))"
    by (intro poll_frames_written) simp
  with 5 limits_small show ?case by (simp add: poll_frame_depth_kind poll_written)
next
  case (6 pairs)
  have "poll_pairs (Suc d) (length pairs) (concat (map (\<lambda>(k, v). write_frame k @ write_frame v) pairs) @ r) = Some (Inr (pairs, r))"
  proof (rule poll_pairs_written)
    fix k v r assume kv: "(k, v) \<in> set pairs"
    with "6.prems" have "frame_ok (Suc d) k" "frame_ok (Suc d) v" by auto
    with kv "6.IH" [OF kv refl]
    show "poll_frame_depth (Suc d) (write_frame k @ r) = Some (Inr (k, r)) \<and>
          poll_frame_depth (Suc d) (write_frame v @ r) = Some (Inr (v, r))" by simp
  qed
  with 6 limits_small show ?case by (simp add: poll_frame_depth_kind poll_written)
next
  case (7 frames)
  then have "poll_frames (Suc d) (length frames) (concat (map write_frame frames) @ r) = Some (Inr (frames, r))"
    by (intro poll_frames_written) simp
  with 7 limits_small show ?case by (simp add: poll_frame_depth_kind poll_written)
qed (simp_all add: poll_frame_depth_kind poll_written)

section \<open>The contract of a polled reader\<close>

text \<open>
  A reader of a stream of messages that can be polled: a poll is pending on an empty buffer, what it finds is what the
  reader finds in any longer stream, and a whole message is found.
\<close>

locale polled_codec = wire_codec +
  fixes poll :: "bytes \<Rightarrow> ('c + 'b \<times> bytes) option"
  assumes poll_Nil: "poll [] = None"
    and poll_found: "poll s = Some (Inr (y, r)) \<Longrightarrow> dec (s @ t) = Inr (y, r @ t)"
    and poll_failed: "poll s = Some (Inl e) \<Longrightarrow> dec (s @ t) = Inl e"
    and poll_enc: "ok x \<Longrightarrow> poll (enc x @ rest) = Some (Inr (view x, rest))"
begin

text \<open>On a part of a stream of messages, a poll is pending or finds the first message.\<close>

lemma poll_stream:
  assumes "s @ t = concat (map enc xs)" and "\<And>x. x \<in> set xs \<Longrightarrow> ok x"
  shows "poll s = None \<or> (\<exists>x xs' r. xs = x # xs' \<and> poll s = Some (Inr (view x, r)) \<and> r @ t = concat (map enc xs'))"
proof (cases xs)
  case Nil
  then show ?thesis using assms(1) poll_Nil by simp
next
  case (Cons x xs')
  then have d: "dec (s @ t) = Inr (view x, concat (map enc xs'))" using assms dec_enc [of x] by simp
  show ?thesis
  proof (cases "poll s")
    case (Some p)
    then show ?thesis using d Cons poll_failed [of s _ t] poll_found [of s _ _ t] by (cases p) auto
  qed simp
qed

text \<open>Nothing is found in a message that is cut short.\<close>

lemma cut_pending:
  assumes "ok x" and "enc x = s @ t" and "t \<noteq> []"
  shows "poll s = None"
  using poll_stream [of s t "[x]"] assms by auto

lemma poll_first:
  assumes "s = concat (map enc (x # xs))" and "ok x"
  shows "poll s = Some (Inr (view x, concat (map enc xs)))"
  using assms poll_enc by simp

end

lemma poll_frame_stream:
  "poll_frame s = Some (Inr (y, r)) \<Longrightarrow> read_frame (s @ t) = Inr (y, r @ t)"
  "poll_frame s = Some (Inl e) \<Longrightarrow> read_frame (s @ t) = Inl e"
proof -
  have *: "case map_sum id (apfst Some) z of Inl e \<Rightarrow> read_frame (s @ t) = Inl e | Inr (y, r) \<Rightarrow> read_frame (s @ t) = Inr (y, r @ t)"
    if "poll_frame_depth 0 s = Some z" for z
    using agrees_frame [of 0 s t] that by (cases z) (auto simp: read_frame_def)
  show "poll_frame s = Some (Inr (y, r)) \<Longrightarrow> read_frame (s @ t) = Inr (y, r @ t)"
    "poll_frame s = Some (Inl e) \<Longrightarrow> read_frame (s @ t) = Inl e"
    by (auto simp: poll_frame_def dest!: *)
qed

interpretation polled_wire: polled_codec write_frame read_frame Some "frame_ok 0" poll_frame
proof
  show "poll_frame [] = None" by (simp add: poll_frame_def poll_frame_depth.simps)
  show "frame_ok 0 f \<Longrightarrow> poll_frame (write_frame f @ rest) = Some (Inr (Some f, rest))" for f rest
    by (simp add: poll_frame_def poll_frame_depth_written)
qed (rule poll_frame_stream, assumption)+

section \<open>The reader of a connection\<close>

text \<open>
  \<open>taken\<close> are the bytes that the suspended call has read, \<open>unread\<close> those that have arrived and are in the
  socket or the buffer of the reader; \<open>hung_up\<close> says that no more will come.
\<close>

record wire =
  taken :: bytes
  unread :: bytes
  hung_up :: bool

definition fresh_wire :: wire where
  "fresh_wire = \<lparr>taken = [], unread = [], hung_up = False\<rparr>"

text \<open>
  Bytes arrive; the peer hangs up; the call is polled; the \<open>select\<close> takes another branch, which drops the
  call.
\<close>

datatype wire_event = Arrive bytes | Hang_up | Poll | Cancel

text \<open>What a call returns is \<open>Inr None\<close> at the end of the stream, a frame, or an error.\<close>

definition wire_poll :: "wire \<Rightarrow> (protocol_error + resp3_frame option) list \<times> wire" where
  "wire_poll w =
     (let s = taken w @ unread w in
      case poll_frame s of
        Some (Inr (f, r)) \<Rightarrow> ([Inr f], w\<lparr>taken := [], unread := r\<rparr>)
      | Some (Inl e) \<Rightarrow> ([Inl e], w\<lparr>taken := [], unread := []\<rparr>)
      | None \<Rightarrow>
          if hung_up w then ([map_sum id fst (read_frame s)], w\<lparr>taken := [], unread := []\<rparr>)
          else ([], w\<lparr>taken := s, unread := []\<rparr>))"

fun wire_step :: "wire_event \<Rightarrow> wire \<Rightarrow> (protocol_error + resp3_frame option) list \<times> wire" where
  "wire_step (Arrive bs) w = ([], w\<lparr>unread := unread w @ bs\<rparr>)"
| "wire_step Hang_up w = ([], w\<lparr>hung_up := True\<rparr>)"
| "wire_step Poll w = wire_poll w"
| "wire_step Cancel w = ([], w\<lparr>taken := []\<rparr>)"

fun wire_run :: "wire_event list \<Rightarrow> wire \<Rightarrow> (protocol_error + resp3_frame option) list \<times> wire" where
  "wire_run [] w = ([], w)"
| "wire_run (ev # evs) w = (case wire_step ev w of (o1, w1) \<Rightarrow> (case wire_run evs w1 of (o2, w2) \<Rightarrow> (o1 @ o2, w2)))"

text \<open>The bytes that arrive in a schedule; schedules that never drop a call that has taken bytes.\<close>

fun arrived :: "wire_event list \<Rightarrow> bytes" where
  "arrived [] = []"
| "arrived (Arrive bs # evs) = bs @ arrived evs"
| "arrived (_ # evs) = arrived evs"

fun uninterrupted :: "wire_event list \<Rightarrow> wire \<Rightarrow> bool" where
  "uninterrupted [] w = True"
| "uninterrupted (ev # evs) w =
     ((ev = Cancel \<longrightarrow> taken w = []) \<and> ev \<noteq> Hang_up \<and> uninterrupted evs (snd (wire_step ev w)))"

lemma wire_run_append:
  "wire_run (evs @ evs') w = (case wire_run evs w of (o1, w1) \<Rightarrow> (case wire_run evs' w1 of (o2, w2) \<Rightarrow> (o1 @ o2, w2)))"
  by (induction evs arbitrary: w) (simp_all split: prod.split)

lemma wire_poll_stream:
  assumes "taken w @ unread w @ t = concat (map write_frame fs)" and "list_all (frame_ok 0) fs" and "\<not> hung_up w"
  shows "wire_poll w = ([], w\<lparr>taken := taken w @ unread w, unread := []\<rparr>) \<or>
    (\<exists>f fs' r. fs = f # fs' \<and> wire_poll w = ([Inr (Some f)], w\<lparr>taken := [], unread := r\<rparr>) \<and> r @ t = concat (map write_frame fs'))"
  using polled_wire.poll_stream [of "taken w @ unread w" t fs] assms
  by (auto simp: wire_poll_def list_all_iff)

lemma wire_run_stream:
  assumes "taken w @ unread w @ arrived evs @ t = concat (map write_frame fs)" and "list_all (frame_ok 0) fs"
    and "\<not> hung_up w" and "uninterrupted evs w" and "wire_run evs w = (rs, w')"
  shows "\<exists>k \<le> length fs. rs = map (\<lambda>f. Inr (Some f)) (take k fs) \<and> \<not> hung_up w' \<and>
    taken w' @ unread w' @ t = concat (map write_frame (drop k fs))"
  using assms
proof (induction evs arbitrary: w fs rs)
  case Nil
  then show ?case by (intro exI [of _ 0]) simp
next
  case (Cons ev evs)
  obtain o1 w1 o2 where step: "wire_step ev w = (o1, w1)" and run: "wire_run evs w1 = (o2, w')" and rs: "rs = o1 @ o2"
    using Cons.prems(5) by (auto split: prod.splits)
  have un: "uninterrupted evs w1" using Cons.prems(4) step by simp
  have rest: ?case if "o1 = map (\<lambda>f. Inr (Some f)) (take j fs)" and "j \<le> length fs" and "\<not> hung_up w1"
      and "taken w1 @ unread w1 @ arrived evs @ t = concat (map write_frame (drop j fs))" for j
  proof -
    have "list_all (frame_ok 0) (drop j fs)" using Cons.prems(2) by (auto simp: list_all_iff dest: in_set_dropD)
    from Cons.IH [OF that(4) this that(3) un run] obtain k where k: "k \<le> length (drop j fs)"
        "o2 = map (\<lambda>f. Inr (Some f)) (take k (drop j fs))" "\<not> hung_up w'"
        "taken w' @ unread w' @ t = concat (map write_frame (drop k (drop j fs)))" by auto
    then show ?case using that rs by (intro exI [of _ "j + k"]) (simp add: take_add add.commute)
  qed
  show ?case
  proof (cases ev)
    case Poll
    from wire_poll_stream [of w "arrived evs @ t" fs] Cons.prems Poll
    consider "wire_poll w = ([], w\<lparr>taken := taken w @ unread w, unread := []\<rparr>)"
      | f fs' r where "fs = f # fs'" "wire_poll w = ([Inr (Some f)], w\<lparr>taken := [], unread := r\<rparr>)"
          "r @ arrived evs @ t = concat (map write_frame fs')" by auto
    then show ?thesis
      by cases (use Poll step Cons.prems rest [of 0] rest [of 1] in auto)
  qed (use step Cons.prems rest [of 0] in auto)
qed

text \<open>Once the whole stream is there, each poll returns the next frame.\<close>

lemma wire_run_polls:
  assumes "taken w @ unread w = concat (map write_frame fs)" and "list_all (frame_ok 0) fs" and "length fs \<le> n" and "\<not> hung_up w"
  shows "\<exists>w'. wire_run (replicate n Poll) w = (map (\<lambda>f. Inr (Some f)) fs, w') \<and> taken w' @ unread w' = []"
  using assms
proof (induction n arbitrary: w fs)
  case (Suc n)
  show ?case
  proof (cases fs)
    case Nil
    then show ?thesis using Suc.prems Suc.IH [of "w\<lparr>taken := [], unread := []\<rparr>" "[]"]
      by (auto simp: wire_poll_def polled_wire.poll_Nil)
  next
    case (Cons f fs')
    have "poll_frame (taken w @ unread w) = Some (Inr (Some f, concat (map write_frame fs')))"
      using Suc.prems Cons by (intro polled_wire.poll_first) simp_all
    then have "wire_poll w = ([Inr (Some f)], w\<lparr>taken := [], unread := concat (map write_frame fs')\<rparr>)"
      by (simp add: wire_poll_def)
    then show ?thesis using Suc.prems Suc.IH [of "w\<lparr>taken := [], unread := concat (map write_frame fs')\<rparr>" fs'] Cons
      by auto
  qed
qed simp

text \<open>
  A frame that is read in part when the call is dropped is lost: the bytes read are gone, and the next call
  starts in the middle of the frame.
\<close>

lemma interrupted_frame_lost:
  assumes "frame_ok 0 f" and "write_frame f = a @ b" and "b \<noteq> []"
  shows "wire_run [Arrive a, Poll, Cancel, Arrive b] fresh_wire = ([], fresh_wire\<lparr>unread := b\<rparr>)"
  using polled_wire.cut_pending [OF assms] by (simp add: fresh_wire_def wire_poll_def)

text \<open>
  How the bytes are cut up does not matter. The frames that a client has written arrive in pieces of
  any size, and between them the reader is polled and dropped at any time except in the middle of a frame:
  then the calls return exactly the frames that were written, in order, and when everything has arrived
  as many further polls as there are frames return all of them, leaving no byte behind.
\<close>

lemma frames_survive_chunking:
  assumes "list_all (frame_ok 0) fs" and "arrived evs = concat (map write_frame fs)" and "uninterrupted evs fresh_wire"
  shows "\<exists>k w. fst (wire_run evs fresh_wire) = map (\<lambda>f. Inr (Some f)) (take k fs) \<and>
    wire_run (evs @ replicate (length fs) Poll) fresh_wire = (map (\<lambda>f. Inr (Some f)) fs, w) \<and> taken w @ unread w = []"
proof -
  obtain rs w1 where run: "wire_run evs fresh_wire = (rs, w1)" by fastforce
  from wire_run_stream [of fresh_wire evs "[]" fs, OF _ assms(1) _ assms(3) run] assms(2)
  obtain k where k: "rs = map (\<lambda>f. Inr (Some f)) (take k fs)" "\<not> hung_up w1" "taken w1 @ unread w1 = concat (map write_frame (drop k fs))"
    by (auto simp: fresh_wire_def)
  moreover have "list_all (frame_ok 0) (drop k fs)" using assms(1) by (auto simp: list_all_iff dest: in_set_dropD)
  ultimately obtain w' where "wire_run (replicate (length fs) Poll) w1 = (map (\<lambda>f. Inr (Some f)) (drop k fs), w')" "taken w' @ unread w' = []"
    using wire_run_polls [of w1 "drop k fs" "length fs"] by auto
  then show ?thesis using run k by (auto simp: wire_run_append simp flip: map_append)
qed

end
