(* ===== verification/Command_Syntax.thy ===== *)
theory Command_Syntax
  imports Parse_Command
begin

text \<open>
  The concrete syntax of commands as the doc comments of \<open>shroudb-protocol/src/command.rs\<close> give it: a
  frame for every command, with all optional parts written out. The parser inverts it.
\<close>

section \<open>Definitions\<close>

definition opt_arg :: "string \<Rightarrow> string option \<Rightarrow> string list" where
  "opt_arg keyword a = (case a of None \<Rightarrow> [] | Some s \<Rightarrow> [keyword, s])"

definition flag :: "string \<Rightarrow> bool \<Rightarrow> string list" where
  "flag keyword b = (if b then [keyword] else [])"

text \<open>The words of a command that is no pipeline.\<close>

fun command_args :: "'x ext \<Rightarrow> 'x command \<Rightarrow> string list" where
  "command_args X (Auth token) = [''AUTH'', token]"
| "command_args X Ping = [''PING'']"
| "command_args X (Put ns key val meta ttl) = [''PUT'', ns, key, ''VALUE'', val] @
     opt_arg ''META'' (map_option (json_to_string X) meta) @ opt_arg ''TTL'' (map_option u64_to_string ttl)"
| "command_args X (Get ns key version meta) = [''GET'', ns, key] @
     opt_arg ''VERSION'' (map_option u64_to_string version) @ flag ''META'' meta"
| "command_args X (Delete ns key) = [''DELETE'', ns, key]"
| "command_args X (PutIf ns key val meta expected) = [''PUTIF'', ns, key, val, ''EXPECT'', u64_to_string expected] @
     opt_arg ''META'' (map_option (json_to_string X) meta)"
| "command_args X (DelIf ns key expected) = [''DELIF'', ns, key, ''EXPECT'', u64_to_string expected]"
| "command_args X (DelPrefix ns pre) = [''DELPREFIX'', ns, pre]"
| "command_args X (List ns pre cursor limit) = [''LIST'', ns] @ opt_arg ''PREFIX'' pre @ opt_arg ''CURSOR'' cursor @
     opt_arg ''LIMIT'' (map_option u64_to_string limit)"
| "command_args X (Versions ns key limit frm) = [''VERSIONS'', ns, key] @
     opt_arg ''LIMIT'' (map_option u64_to_string limit) @ opt_arg ''FROM'' (map_option u64_to_string frm)"
| "command_args X (NamespaceCreate name schema mv tr) = [''NAMESPACE'', ''CREATE'', name] @
     opt_arg ''SCHEMA'' (map_option (json_to_string X) schema) @ opt_arg ''MAX_VERSIONS'' (map_option u64_to_string mv) @
     opt_arg ''TOMBSTONE_RETENTION'' (map_option u64_to_string tr)"
| "command_args X (NamespaceDrop name force) = [''NAMESPACE'', ''DROP'', name] @ flag ''FORCE'' force"
| "command_args X (NamespaceList cursor limit) = [''NAMESPACE'', ''LIST''] @ opt_arg ''CURSOR'' cursor @
     opt_arg ''LIMIT'' (map_option u64_to_string limit)"
| "command_args X (NamespaceInfo name) = [''NAMESPACE'', ''INFO'', name]"
| "command_args X (NamespaceAlter name schema mv tr) = [''NAMESPACE'', ''ALTER'', name] @
     opt_arg ''SCHEMA'' (map_option (json_to_string X) schema) @ opt_arg ''MAX_VERSIONS'' (map_option u64_to_string mv) @
     opt_arg ''TOMBSTONE_RETENTION'' (map_option u64_to_string tr)"
| "command_args X (NamespaceValidate name) = [''NAMESPACE'', ''VALIDATE'', name]"
| "command_args X (Pipeline cmds rid) = []"
| "command_args X (Subscribe ns key events) = [''SUBSCRIBE'', ns] @ opt_arg ''KEY'' key @
     (if events = [] then [] else ''EVENTS'' # events)"
| "command_args X Unsubscribe = [''UNSUBSCRIBE'']"
| "command_args X Health = [''HEALTH'']"
| "command_args X (ConfigGet key) = [''CONFIG'', ''GET'', key]"
| "command_args X (ConfigSet key val) = [''CONFIG'', ''SET'', key, val]"
| "command_args X CommandList = [''COMMAND'', ''LIST'']"
| "command_args X (Rekey new_key_hex) = [''REKEY'', new_key_hex]"
| "command_args X RekeyStatus = [''REKEY'', ''STATUS'']"

fun command_frame :: "'x ext \<Rightarrow> 'x command \<Rightarrow> resp3_frame" where
  "command_frame X (Pipeline cmds rid) =
     Array (BulkString ''PIPELINE'' # request_id_frames rid @ map (command_frame X) cmds)"
| "command_frame X c = Array (map BulkString (command_args X c))"

text \<open>All its texts are UTF-8, which is all that the parser accepts in an argument.\<close>

fun utf8_command :: "'x ext \<Rightarrow> 'x command \<Rightarrow> bool" where
  "utf8_command X (Pipeline cmds rid) = (pred_option utf8_valid rid \<and> list_all (utf8_command X) cmds)"
| "utf8_command X c = list_all utf8_valid (command_args X c)"

text \<open>The documented behaviour of the JSON library on the values of a command: what it prints it reads back.\<close>

definition json_laws :: "'x ext \<Rightarrow> 'x command \<Rightarrow> bool" where
  "json_laws X c \<longleftrightarrow> (\<forall>j \<in> set_command c. json_from_str X (json_to_string X j) = Inr j)"

section \<open>The parser inverts the syntax\<close>

lemma upper_keywords [simp]:
  "to_ascii_uppercase ''AUTH'' = ''AUTH''" "to_ascii_uppercase ''PING'' = ''PING''" "to_ascii_uppercase ''PUT'' = ''PUT''"
  "to_ascii_uppercase ''GET'' = ''GET''" "to_ascii_uppercase ''DELETE'' = ''DELETE''" "to_ascii_uppercase ''PUTIF'' = ''PUTIF''"
  "to_ascii_uppercase ''DELIF'' = ''DELIF''" "to_ascii_uppercase ''DELPREFIX'' = ''DELPREFIX''"
  "to_ascii_uppercase ''LIST'' = ''LIST''" "to_ascii_uppercase ''VERSIONS'' = ''VERSIONS''"
  "to_ascii_uppercase ''NAMESPACE'' = ''NAMESPACE''" "to_ascii_uppercase ''SUBSCRIBE'' = ''SUBSCRIBE''"
  "to_ascii_uppercase ''UNSUBSCRIBE'' = ''UNSUBSCRIBE''" "to_ascii_uppercase ''HEALTH'' = ''HEALTH''"
  "to_ascii_uppercase ''CONFIG'' = ''CONFIG''" "to_ascii_uppercase ''COMMAND'' = ''COMMAND''"
  "to_ascii_uppercase ''REKEY'' = ''REKEY''" "to_ascii_uppercase ''PIPELINE'' = ''PIPELINE''"
  "to_ascii_uppercase ''VALUE'' = ''VALUE''" "to_ascii_uppercase ''META'' = ''META''" "to_ascii_uppercase ''TTL'' = ''TTL''"
  "to_ascii_uppercase ''VERSION'' = ''VERSION''" "to_ascii_uppercase ''EXPECT'' = ''EXPECT''"
  "to_ascii_uppercase ''PREFIX'' = ''PREFIX''" "to_ascii_uppercase ''CURSOR'' = ''CURSOR''"
  "to_ascii_uppercase ''LIMIT'' = ''LIMIT''" "to_ascii_uppercase ''FROM'' = ''FROM''"
  "to_ascii_uppercase ''CREATE'' = ''CREATE''" "to_ascii_uppercase ''DROP'' = ''DROP''" "to_ascii_uppercase ''INFO'' = ''INFO''"
  "to_ascii_uppercase ''ALTER'' = ''ALTER''" "to_ascii_uppercase ''VALIDATE'' = ''VALIDATE''"
  "to_ascii_uppercase ''SCHEMA'' = ''SCHEMA''" "to_ascii_uppercase ''MAX_VERSIONS'' = ''MAX_VERSIONS''"
  "to_ascii_uppercase ''TOMBSTONE_RETENTION'' = ''TOMBSTONE_RETENTION''" "to_ascii_uppercase ''FORCE'' = ''FORCE''"
  "to_ascii_uppercase ''KEY'' = ''KEY''" "to_ascii_uppercase ''EVENTS'' = ''EVENTS''" "to_ascii_uppercase ''SET'' = ''SET''"
  "to_ascii_uppercase ''STATUS'' = ''STATUS''"
  by code_simp+

lemma opt_arg_simps [simp]: "opt_arg k None = []" "opt_arg k (Some a) = [k, a]" "flag k True = [k]" "flag k False = []"
  by (simp_all add: opt_arg_def flag_def)

lemma parse_args_simps [simp]:
  "parse_u64_arg m (u64_to_string n) = Inr n" "parse_usize_arg m (u64_to_string n) = Inr n"
  "json_from_str X (json_to_string X j) = Inr j \<Longrightarrow> parse_json_arg X what (json_to_string X j) = Inr j"
  by (simp_all add: parse_u64_arg_def parse_usize_arg_def parse_json_arg_def)

lemma rekey_not_status: "length hex = 64 \<Longrightarrow> \<not> eq_ignore_ascii_case hex ''STATUS''"
  by (auto simp: eq_ignore_ascii_case_def to_ascii_lowercase_def dest: arg_cong [where f = length])

lemma subscribe_loop_events:
  assumes "list_all (\<lambda>e. to_ascii_uppercase e = e \<and> e \<noteq> ''KEY'') events"
  shows "subscribe_loop (''EVENTS'' # events) key [] = (key, events)"
proof -
  have t: "takeWhile (\<lambda>e. to_ascii_uppercase e \<noteq> ''KEY'') events = events"
      and d: "dropWhile (\<lambda>e. to_ascii_uppercase e \<noteq> ''KEY'') events = []"
      and m: "map to_ascii_uppercase events = events"
    using assms by (induction events) auto
  show ?thesis unfolding subscribe_loop.simps Let_def t d m by simp
qed

lemma parse_flat_args:
  assumes "json_laws X c" and "command_wf c" and "pipeline_depth c = 0"
  shows "parse_flat X (command_args X c) = Inr c"
proof (cases c)
  case (Subscribe ns key events)
  then show ?thesis using assms(2) subscribe_loop_events [of events]
    by (cases key; cases "events = []") (simp_all add: parse_flat_def parse_subscribe_def require_args_def Let_def)
next
  case (Put ns key val meta ttl)
  then show ?thesis using assms
    by (cases meta; cases ttl) (simp_all add: parse_flat_def parse_put_def require_args_def Let_def json_laws_def)
qed (use assms in \<open>auto simp: parse_flat_def parser_defs namespace_parser_defs parse_namespace_def require_args_def Let_def
    rekey_not_status slice_get_def opt_arg_def flag_def json_laws_def split: option.split\<close>)

lemma collect_bulk: "list_all utf8_valid args \<Longrightarrow> collect_res frame_to_string (map BulkString args) = Inr args"
  by (induction args) (auto simp: frame_to_string_def)

lemma command_args_verb:
  "pipeline_depth c = 0 \<Longrightarrow> command_args X c = hd (command_args X c) # tl (command_args X c) \<and>
     \<not> eq_ignore_ascii_case (hd (command_args X c)) ''PIPELINE''"
  by (cases c) (simp_all add: eq_ignore_ascii_case_upper)

lemma parse_flat_command:
  assumes "json_laws X c" and "command_wf c" and "pipeline_depth c = 0" and "list_all utf8_valid (command_args X c)"
  shows "parse_command X (Array (map BulkString (command_args X c))) = Inr c"
proof -
  obtain v as where args: "command_args X c = v # as" and v: "\<not> eq_ignore_ascii_case v ''PIPELINE''"
    using command_args_verb [OF assms(3), of X] by (metis list.sel(1))
  have "parse_command X (Array (map BulkString (v # as))) = parse_flat X (v # as)"
    using assms(4) v by (simp add: args frame_to_string_def collect_bulk)
  then show ?thesis using parse_flat_args [OF assms(1-3)] by (simp add: args)
qed

lemma flat_frame:
  "pipeline_depth c = 0 \<Longrightarrow> command_frame X c = Array (map BulkString (command_args X c))"
  "pipeline_depth c = 0 \<Longrightarrow> utf8_command X c = list_all utf8_valid (command_args X c)"
  by (cases c; simp)+

lemma parse_frame_of_command:
  "json_laws X c \<Longrightarrow> command_wf c \<Longrightarrow> utf8_command X c \<Longrightarrow> parse_command X (command_frame X c) = Inr c"
proof (induction c)
  case (Pipeline cmds rid)
  let ?fs = "map (command_frame X) cmds"
  have "is_array (command_frame X c)" for c by (cases c) (simp_all add: is_array_def)
  then have fs: "?fs \<noteq> []" "is_array (hd ?fs)" using Pipeline.prems(2) by (cases cmds; simp)+
  have "parse_command X (command_frame X c) = Inr c" if "c \<in> set cmds" for c
    using Pipeline that by (auto simp: list_all_iff json_laws_def)
  then have "collect_res (parse_command X) ?fs = Inr cmds" by (induction cmds) auto
  then have "parse_subcommands X 0 ?fs = Inr cmds" by (simp add: parse_subcommands_ok)
  then show ?case using parse_pipeline_eq [OF _ fs, of rid X] Pipeline.prems(3) by simp
qed (metis parse_flat_command flat_frame pipeline_depth.simps)+

text \<open>A command with an argument that is not UTF-8, such as a binary value, is refused.\<close>

lemma binary_argument_refused:
  fixes X :: "'x ext"
  assumes "utf8_valid v" and "\<not> eq_ignore_ascii_case v ''PIPELINE''" and "\<not> list_all utf8_valid args"
  shows "parse_command X (Array (map BulkString (v # args))) = Inl (BadArg ''invalid UTF-8 in argument'')"
proof -
  have "collect_res frame_to_string (map BulkString args) = Inl (BadArg ''invalid UTF-8 in argument'' :: 'x command_error)"
    using assms(3) by (induction args) (auto simp: frame_to_string_def)
  then show ?thesis using assms(1,2) by (simp add: frame_to_string_def)
qed

section \<open>Properties\<close>

text \<open>
  C7: every command can be sent, and the parser reads it back. For each command that satisfies the checks
  of the parser and whose texts are UTF-8, with any combination of its options and pipelines nested in any
  way, the parser accepts its frame and returns exactly that command.
\<close>

theorem parse_command_frame:
  assumes "json_laws X c" and "command_wf c" and "utf8_command X c"
  shows "parse_command X (command_frame X c) = Inr c"
  by (rule parse_frame_of_command [OF assms])

theorem parse_command_frame_witness:
  "parse_command text_ext (command_frame text_ext
      (Pipeline [Put ''n'' ''k'' ''v'' (Some ''{}'') (Some 5), Pipeline [Subscribe ''n'' (Some ''k'') [''PUT'']] None] (Some ''r''))) =
    Inr (Pipeline [Put ''n'' ''k'' ''v'' (Some ''{}'') (Some 5), Pipeline [Subscribe ''n'' (Some ''k'') [''PUT'']] None] (Some ''r''))"
proof (rule parse_command_frame)
  show "json_laws text_ext (Pipeline [Put ''n'' ''k'' ''v'' (Some ''{}'') (Some 5), Pipeline [Subscribe ''n'' (Some ''k'') [''PUT'']] None] (Some ''r''))"
    by (simp add: json_laws_def text_ext_def)
  show "command_wf (Pipeline [Put ''n'' ''k'' ''v'' (Some ''{}'') (Some 5), Pipeline [Subscribe ''n'' (Some ''k'') [''PUT'']] None] (Some ''r'') :: string command)"
    by simp
  show "utf8_command text_ext (Pipeline [Put ''n'' ''k'' ''v'' (Some ''{}'') (Some 5), Pipeline [Subscribe ''n'' (Some ''k'') [''PUT'']] None] (Some ''r''))"
    by (simp add: text_ext_def)
qed

end
