(* ===== verification/Byte_Conn.thy ===== *)
theory Byte_Conn
  imports Connection Poll Command_Syntax
begin

text \<open>
  A connection task of \<open>shroudb-server/src/connection.rs\<close> on the bytes of its socket: the \<open>select\<close> of
  \<open>handle_connection\<close> and of \<open>handle_subscription\<close> over the shutdown signal, the subscription and the
  frame reader. A branch that is taken while the reader is suspended drops the reader.
\<close>

section \<open>The task\<close>

text \<open>
  Bytes arrive; the peer closes; the reader is polled, no other branch being ready; the subscription
  delivers (or ends); the shutdown signal changes. The flags say whether writing and flushing succeed.
\<close>

datatype io_event =
    Bytes_in bytes
  | Peer_closes
  | Readable bool bool
  | Notify "subscription_event option" bool bool
  | Signalled bool

definition byte_step :: "('s, 'x, 'a) server \<Rightarrow> io_event \<Rightarrow> wire \<times> 'a conn \<times> 's dstate \<Rightarrow> wire \<times> 'a conn \<times> 's dstate" where
  "byte_step S ev wcst = (case wcst of (w, cst) \<Rightarrow>
     (case ev of
        Bytes_in bs \<Rightarrow> (snd (wire_step (Arrive bs) w), cst)
      | Peer_closes \<Rightarrow> (snd (wire_step Hang_up w), cst)
      | Readable wok fok \<Rightarrow>
          (case wire_step Poll w of (rs, w') \<Rightarrow> (w', fold (\<lambda>r. conn_step S (Frame r wok fok)) rs cst))
      | Notify m wok fok \<Rightarrow>
          if mode (fst cst) = Subscribed then (snd (wire_step Cancel w), conn_step S (Message m wok fok) cst) else (w, cst)
      | Signalled b \<Rightarrow> (snd (wire_step Cancel w), conn_step S (Shutdown b) cst)))"

definition byte_run :: "('s, 'x, 'a) server \<Rightarrow> io_event list \<Rightarrow> wire \<times> 'a conn \<times> 's dstate \<Rightarrow> wire \<times> 'a conn \<times> 's dstate" where
  "byte_run S evs = fold (byte_step S) evs"

text \<open>The events of the reader in a schedule without notifications and signals.\<close>

fun wire_events :: "io_event list \<Rightarrow> wire_event list" where
  "wire_events [] = []"
| "wire_events (Bytes_in bs # evs) = Arrive bs # wire_events evs"
| "wire_events (Readable wok fok # evs) = Poll # wire_events evs"
| "wire_events (_ # evs) = wire_events evs"

definition quiet :: "io_event \<Rightarrow> bool" where
  "quiet ev = (case ev of Bytes_in _ \<Rightarrow> True | Readable wok fok \<Rightarrow> wok \<and> fok | _ \<Rightarrow> False)"

lemma quiet_run:
  "list_all quiet evs \<Longrightarrow>
    byte_run S evs (w, cst) = (case wire_run (wire_events evs) w of (rs, w') \<Rightarrow>
      (w', fold (\<lambda>r. conn_step S (Frame r True True)) rs cst))"
proof (induction evs arbitrary: w cst)
  case (Cons ev evs)
  then show ?case
    by (cases ev) (auto simp: byte_run_def byte_step_def quiet_def split: prod.split)
qed (simp add: byte_run_def)

lemma quiet_uninterrupted: "list_all quiet evs \<Longrightarrow> uninterrupted (wire_events evs) w"
  by (induction evs arbitrary: w rule: wire_events.induct) (simp_all add: quiet_def)

lemma polls_events: "wire_events (replicate n (Readable True True)) = replicate n Poll"
  by (induction n) simp_all

lemma parse_unsubscribe: "parse_command X (Array [BulkString ''UNSUBSCRIBE'']) = Inr Unsubscribe"
  using parse_frame_of_command [of X Unsubscribe] by (simp add: json_laws_def utf8_valid_ascii)

section \<open>Properties\<close>

text \<open>
  C12: the bytes of a client's commands become its commands. Whatever the pieces in which they arrive and
  whenever the task is scheduled, if the write side works and no other event intervenes, the task does
  what the frame-level connection does on a prefix of the client's frames; once everything has arrived, one poll per
  frame completes them all.
\<close>

theorem byte_level_refines:
  assumes "list_all (frame_ok 0) fs" and "arrived (wire_events evs) = concat (map write_frame fs)" and "list_all quiet evs"
  shows "(\<exists>k. snd (byte_run S evs (fresh_wire, cst)) = fold (\<lambda>f. conn_step S (Frame (Inr (Some f)) True True)) (take k fs) cst) \<and>
    snd (byte_run S (evs @ replicate (length fs) (Readable True True)) (fresh_wire, cst)) =
      fold (\<lambda>f. conn_step S (Frame (Inr (Some f)) True True)) fs cst"
proof -
  have q: "list_all quiet (evs @ replicate (length fs) (Readable True True))" using assms(3) by (auto simp: quiet_def list_all_iff)
  have w: "wire_events (evs @ replicate n (Readable True True)) = wire_events evs @ replicate n Poll" for n
    by (induction evs rule: wire_events.induct) (simp_all add: polls_events)
  from frames_survive_chunking [OF assms(1,2) quiet_uninterrupted [OF assms(3)]] obtain k w'
    where "fst (wire_run (wire_events evs) fresh_wire) = map (\<lambda>f. Inr (Some f)) (take k fs)"
      and "wire_run (wire_events evs @ replicate (length fs) Poll) fresh_wire = (map (\<lambda>f. Inr (Some f)) fs, w')" by auto
  then show ?thesis unfolding quiet_run [OF assms(3)] quiet_run [OF q] w
    by (auto simp: fold_map comp_def split: prod.split)
qed

definition unsubscribe_bytes :: bytes where
  "unsubscribe_bytes = write_frame (Array [BulkString ''UNSUBSCRIBE''])"

lemma unsubscribe_bytes: "unsubscribe_bytes = ''*1'' @ CRLF @ ''$11'' @ CRLF @ ''UNSUBSCRIBE'' @ CRLF"
  unfolding unsubscribe_bytes_def by code_simp

theorem byte_level_refines_witness:
  "(\<exists>k. snd (byte_run demo_server [Bytes_in (take 7 unsubscribe_bytes), Readable True True, Bytes_in (drop 7 unsubscribe_bytes)]
        (fresh_wire, \<lparr>mode = Subscribed, auth = None, limiter = None, out = []\<rparr>, demo_state)) =
      fold (\<lambda>f. conn_step demo_server (Frame (Inr (Some f)) True True)) (take k [Array [BulkString ''UNSUBSCRIBE'']]) (\<lparr>mode = Subscribed, auth = None, limiter = None, out = []\<rparr>, demo_state)) \<and>
    snd (byte_run demo_server ([Bytes_in (take 7 unsubscribe_bytes), Readable True True, Bytes_in (drop 7 unsubscribe_bytes)] @
        replicate (length [Array [BulkString ''UNSUBSCRIBE'']]) (Readable True True)) (fresh_wire, \<lparr>mode = Subscribed, auth = None, limiter = None, out = []\<rparr>, demo_state)) =
      fold (\<lambda>f. conn_step demo_server (Frame (Inr (Some f)) True True)) [Array [BulkString ''UNSUBSCRIBE'']] (\<lparr>mode = Subscribed, auth = None, limiter = None, out = []\<rparr>, demo_state)"
proof (rule byte_level_refines)
  have "take 7 unsubscribe_bytes @ drop 7 unsubscribe_bytes = unsubscribe_bytes" by simp
  then show "arrived (wire_events [Bytes_in (take 7 unsubscribe_bytes), Readable True True, Bytes_in (drop 7 unsubscribe_bytes)]) =
      concat (map write_frame [Array [BulkString ''UNSUBSCRIBE'']])" by (simp only: unsubscribe_bytes_def arrived.simps wire_events.simps list.map concat.simps append_Nil2)
qed (simp_all add: quiet_def MAX_DEPTH_def MAX_COLLECTION_SIZE_def MAX_BULK_SIZE_def)



end
