(* ===== verification/Client_Conn.thy ===== *)
theory Client_Conn
  imports Resp3
begin

text \<open>
  The client's end of the wire, \<open>shroudb-client/src/connection.rs\<close>: the response reader
  \<open>read_value\<close>, the command writer \<open>write_command\<close> and the command prefix of Moat mode, with the
  types of \<open>response.rs\<close> and \<open>error.rs\<close>. A panic of the client is the failure \<open>Panics\<close>; allocation
  is assumed to succeed below the address space.
\<close>

section \<open>Types\<close>

datatype response =
    RString string
  | RError string
  | RInteger i64
  | RNull
  | RArray "response list"
  | RMap "(response \<times> response) list"

datatype client_error =
    Connection io_error
  | Server string
  | Protocol string
  | AuthRequired
  | Serialization string
  | ResponseFormat string
  | Timeout

datatype failure = Fails client_error | Panics

section \<open>Reader\<close>

function trim_end_matches :: "string \<Rightarrow> string \<Rightarrow> string" where
  "trim_end_matches p s =
     (if p = [] then s else case strip_suffix p s of None \<Rightarrow> s | Some r \<Rightarrow> trim_end_matches p r)"
  by pat_completeness auto
termination
  by (relation "measure (length \<circ> snd)") (auto simp: strip_suffix_eq_Some)

declare trim_end_matches.simps [simp del]

text \<open>
  The line of a response without its terminator; a line is never empty here, so no bytes read means
  that the connection is closed.
\<close>

definition client_line :: "bytes \<Rightarrow> failure + string \<times> bytes" where
  "client_line s =
     (case split_line s of (l, r) \<Rightarrow>
        if \<not> utf8_valid l then Inl (Fails (Connection InvalidData))
        else if l = [] then Inl (Fails (Protocol ''connection closed''))
        else let line = trim_end_matches [LF] (trim_end_matches CRLF l) in
          if line = [] then Inl (Fails (Protocol ''empty response'')) else Inr (line, r))"

definition parse_i64_or :: "string \<Rightarrow> string \<Rightarrow> failure + i64" where
  "parse_i64_or what payload =
     map_err (\<lambda>e. Fails (Protocol (''invalid '' @ what @ '': '' @ parse_int_error_to_string e))) (parse_i64 payload)"

text \<open>\<open>Vec::with_capacity(count as usize)\<close>: a negative count is beyond the address space.\<close>

definition reserve :: "i64 \<Rightarrow> failure + nat" where
  "reserve count = (if sint count < 0 then Inl Panics else Inr (nat (sint count)))"

definition client_read_exact :: "nat \<Rightarrow> bytes \<Rightarrow> failure + bytes \<times> bytes" where
  "client_read_exact n s =
     (if length s < n then Inl (Fails (Connection UnexpectedEof)) else Inr (take n s, drop n s))"

definition bad_type :: "char \<Rightarrow> string" where
  "bad_type c = ''unsupported RESP3 type: '' @ [CHR 0x27, c, CHR 0x27] @ '' (0x'' @ hex_byte_to_string c @ '')''"

lemma client_line_shorter: "client_line s = Inr (line, r) \<Longrightarrow> length r < length s"
  using split_line_concat [of s]
  by (auto simp: client_line_def Let_def split: prod.splits if_splits)

text \<open>
  What the first line of a response (and the body of a bulk string) announces: a complete value, or
  the number of values or of entries that follow. \<open>&line[1..]\<close> panics when the first character takes
  more than one byte.
\<close>

datatype head = Complete response | Items nat | Entries nat

definition client_head :: "bytes \<Rightarrow> failure + head \<times> bytes" where
  "client_head s =
     try_res (client_line s) (\<lambda>(line, r).
       let type_byte = hd line; payload = tl line in
       if payload \<noteq> [] \<and> is_cont (hd payload) then Inl Panics
       else if type_byte = CHR ''+'' then Inr (Complete (RString payload), r)
       else if type_byte = CHR ''-'' then Inr (Complete (RError payload), r)
       else if type_byte = CHR '':'' then
         try_res (parse_i64_or ''integer'' payload) (\<lambda>n. Inr (Complete (RInteger n), r))
       else if type_byte = CHR ''_'' then Inr (Complete RNull, r)
       else if type_byte = CHR ''$'' then
         try_res (parse_i64_or ''bulk length'' payload) (\<lambda>len.
           if sint len < 0 then Inr (Complete RNull, r)
           else try_res (client_read_exact (unat len + 2) r) (\<lambda>(buf, r').
             Inr (Complete (RString (from_utf8_lossy (take (unat len) buf))), r')))
       else if type_byte = CHR ''*'' then
         try_res (parse_i64_or ''array length'' payload) (\<lambda>count.
           if sint count < 0 then Inr (Complete RNull, r) else Inr (Items (nat (sint count)), r))
       else if type_byte = CHR ''%'' then
         try_res (parse_i64_or ''map length'' payload) (\<lambda>count.
         try_res (reserve count) (\<lambda>n. Inr (Entries n, r)))
       else if type_byte = CHR ''#'' then
         (if payload = ''t'' then Inr (Complete (RString ''true''), r)
          else if payload = ''f'' then Inr (Complete (RString ''false''), r)
          else Inl (Fails (Protocol (''invalid boolean value: '' @ payload))))
       else if type_byte = CHR '','' then Inr (Complete (RString payload), r)
       else if type_byte = CHR ''>'' then
         try_res (parse_i64_or ''push length'' payload) (\<lambda>count.
         try_res (reserve count) (\<lambda>n. Inr (Items n, r)))
       else if type_byte = CHR 0x7E then
         try_res (parse_i64_or ''set length'' payload) (\<lambda>count.
         try_res (reserve count) (\<lambda>n. Inr (Items n, r)))
       else Inl (Fails (Protocol (bad_type type_byte))))"

lemma client_head_shorter: "client_head s = Inr (h, r) \<Longrightarrow> length r < length s"
  by (auto simp: client_head_def Let_def client_read_exact_def split: if_split_asm dest!: client_line_shorter)

text \<open>\<open>read_values\<close> and \<open>read_entries\<close> are the \<open>for _ in 0..count\<close> loops.\<close>

function (sequential)
  read_value :: "bytes \<Rightarrow> failure + response \<times> bytes"
  and read_values :: "nat \<Rightarrow> bytes \<Rightarrow> failure + response list \<times> bytes"
  and read_entries :: "nat \<Rightarrow> bytes \<Rightarrow> failure + (response \<times> response) list \<times> bytes"
where
  "read_value s =
     try_res (client_head s) (\<lambda>(h, r).
       case h of
         Complete v \<Rightarrow> Inr (v, r)
       | Items n \<Rightarrow> try_res (read_values n r) (\<lambda>(items, r'). Inr (RArray items, r'))
       | Entries n \<Rightarrow> try_res (read_entries n r) (\<lambda>(entries, r'). Inr (RMap entries, r')))"
| "read_values 0 s = Inr ([], s)"
| "read_values (Suc n) s =
     try_res (read_value s) (\<lambda>(v, r).
     try_res (read_values n r) (\<lambda>(vs, r'). Inr (v # vs, r')))"
| "read_entries 0 s = Inr ([], s)"
| "read_entries (Suc n) s =
     try_res (read_value s) (\<lambda>(k, r).
     try_res (read_value r) (\<lambda>(v, r').
     try_res (read_entries n r') (\<lambda>(es, r''). Inr ((k, v) # es, r''))))"
  by pat_completeness auto

termination
proof -
  let ?dom = "read_value_read_values_read_entries_dom"
  have consumes: "?dom (Inl s) \<Longrightarrow> read_value s = Inr (v, r) \<Longrightarrow> length r < length s"
    and "?dom (Inr (Inl (n, s))) \<Longrightarrow> read_values n s = Inr (vs, r) \<Longrightarrow> length r \<le> length s"
    and "?dom (Inr (Inr (n, s))) \<Longrightarrow> read_entries n s = Inr (es, r) \<Longrightarrow> length r \<le> length s"
    for s v r n vs es
  proof (induction s and n s and n s arbitrary: v r and vs r and es r rule: read_value_read_values_read_entries.pinduct)
    case (1 s)
    then obtain h t where h: "client_head s = Inr (h, t)" by (auto simp: read_value.psimps)
    have "length r \<le> length t"
      using "1.prems" "1.IH" [OF h refl] h by (cases h) (auto simp: read_value.psimps [OF "1.hyps"])
    then show ?case using client_head_shorter [OF h] by simp
  next
    case (3 n s)
    then show ?case by (fastforce simp: read_values.psimps)
  next
    case (5 n s)
    then show ?case by (fastforce simp: read_entries.psimps)
  qed (simp_all add: read_values.psimps read_entries.psimps)
  show ?thesis
    by (relation "inv_image (less_than <*lex*> less_than)
      (\<lambda>x. case x of Inl s \<Rightarrow> (length s, 0) | Inr (Inl (n, s)) \<Rightarrow> (length s, Suc n) | Inr (Inr (n, s)) \<Rightarrow> (length s, Suc n))")
      (auto dest!: client_head_shorter consumes)
qed

declare read_value.simps [simp del]

lemma read_consumes:
  "read_value s = Inr (v, r) \<Longrightarrow> length r < length s"
  "read_values n s = Inr (vs, r) \<Longrightarrow> length r \<le> length s"
  "read_entries n s = Inr (es, r) \<Longrightarrow> length r \<le> length s"
proof (induction s and n s and n s arbitrary: v r and vs r and es r rule: read_value_read_values_read_entries.induct)
  case (1 s)
  then obtain h t where h: "client_head s = Inr (h, t)" by (auto simp: read_value.simps [of s])
  have "length r \<le> length t"
    using "1.prems" "1.IH" [OF h refl] h by (cases h) (auto simp: read_value.simps [of s])
  then show ?case using client_head_shorter [OF h] by simp
qed fastforce+

section \<open>Writer\<close>

definition write_command :: "string list \<Rightarrow> bytes" where
  "write_command args =
     CHR ''*'' # dec_of_nat (length args) @ CRLF @
     concat (map (\<lambda>arg. CHR ''$'' # dec_of_nat (length arg) @ CRLF @ arg @ CRLF) args)"

text \<open>\<open>send_command\<close> prepends the prefix of Moat mode, \<open>send_meta_command_strs\<close> does not.\<close>

definition send_command_args :: "string option \<Rightarrow> string list \<Rightarrow> string list" where
  "send_command_args command_prefix args =
     (case command_prefix of Some pre \<Rightarrow> pre # args | None \<Rightarrow> args)"

definition connect_moat_prefix :: "string \<Rightarrow> string option" where
  "connect_moat_prefix pre = Some (to_ascii_uppercase pre)"

section \<open>The two ends agree\<close>

text \<open>What the client sees of a frame, and the frames that reach it whole.\<close>

fun client_view :: "resp3_frame \<Rightarrow> response" where
  "client_view (SimpleString s) = RString s"
| "client_view (SimpleError e) = RError e"
| "client_view (Integer n) = RInteger n"
| "client_view (BulkString data) = RString (from_utf8_lossy data)"
| "client_view (Array frames) = RArray (map client_view frames)"
| "client_view (Map pairs) = RMap (map (\<lambda>(k, v). (client_view k, client_view v)) pairs)"
| "client_view (Push frames) = RArray (map client_view frames)"
| "client_view Null = RNull"

fun client_ok :: "resp3_frame \<Rightarrow> bool" where
  "client_ok (SimpleString s) = line_ok s"
| "client_ok (SimpleError s) = line_ok s"
| "client_ok (Integer n) = True"
| "client_ok (BulkString data) = (length data < 2 ^ 63)"
| "client_ok (Array frames) = (length frames < 2 ^ 63 \<and> (\<forall>f \<in> set frames. client_ok f))"
| "client_ok (Map pairs) = (length pairs < 2 ^ 63 \<and> (\<forall>(k, v) \<in> set pairs. client_ok k \<and> client_ok v))"
| "client_ok (Push frames) = (length frames < 2 ^ 63 \<and> (\<forall>f \<in> set frames. client_ok f))"
| "client_ok Null = True"

lemma trim_end_matches_none: "strip_suffix p s = None \<Longrightarrow> trim_end_matches p s = s"
  by (subst trim_end_matches.simps) simp

lemma strip_suffix_None: "(\<And>r. s \<noteq> r @ p) \<Longrightarrow> strip_suffix p s = None"
  using strip_suffix_eq_Some [of p s] by (cases "strip_suffix p s") auto

lemma trim_line: "LF \<notin> set l \<Longrightarrow> trim_end_matches [LF] (trim_end_matches CRLF (l @ CRLF)) = l"
proof -
  assume "LF \<notin> set l"
  then have n: "strip_suffix CRLF l = None" "strip_suffix [LF] l = None"
    by (auto intro!: strip_suffix_None)
  have "trim_end_matches CRLF (l @ CRLF) = l"
    by (subst trim_end_matches.simps) (simp add: trim_end_matches_none n)
  then show ?thesis by (simp add: trim_end_matches_none n)
qed

lemma client_line_line [wire_simps]:
  assumes "line_ok l" and "l \<noteq> []"
  shows "client_line (l @ CR # LF # r) = Inr (l, r)"
proof -
  have "split_line ((l @ [CR]) @ LF # r) = ((l @ [CR]) @ [LF], r)"
    using assms by (intro split_line_append) (auto simp: line_ok_def)
  then have "split_line (l @ CR # LF # r) = (l @ CRLF, r)" by simp
  moreover have "utf8_valid (l @ CRLF)" using assms by (simp add: line_ok_def utf8_valid_append)
  moreover have "trim_end_matches [LF] (trim_end_matches CRLF (l @ CRLF)) = l"
    using assms by (intro trim_line) (simp add: line_ok_def)
  ultimately show ?thesis using assms(2) by (simp add: client_line_def)
qed

lemma sint_of_nat_small: "n < 2 ^ 63 \<Longrightarrow> sint (of_nat n :: i64) = int n"
  by (simp add: signed_of_nat signed_take_bit_int_eq_self)

lemma parse_i64_dec_of_nat:
  assumes "n < 2 ^ 63"
  shows "parse_i64 (dec_of_nat n) = Inr (of_nat n)"
proof -
  have "i64_to_string (of_nat n) = dec_of_nat n"
    using sint_of_nat_small [OF assms] by (simp add: i64_to_string_def dec_of_int_def)
  then show ?thesis using parse_i64_to_string [of "of_nat n"] by simp
qed

lemma unat_of_nat_small: "n < 2 ^ 63 \<Longrightarrow> unat (of_nat n :: 64 word) = n"
  by (simp add: unsigned_of_nat take_bit_nat_eq_self)

lemma utf8_valid_Cons: "utf8_valid (c # s) \<Longrightarrow> \<not> is_cont c"
  by (subst (asm) utf8_valid.simps)
    (auto simp: utf8_next_def utf8_char_width_def is_cont_def Let_def split: if_splits)

lemma utf8_valid_hd: "utf8_valid s \<Longrightarrow> \<not> (s \<noteq> [] \<and> is_cont (hd s))"
  by (cases s) (auto dest: utf8_valid_Cons)

lemma line_ok_Cons: "byte c < 128 \<Longrightarrow> c \<noteq> LF \<Longrightarrow> line_ok l \<Longrightarrow> line_ok (c # l)"
  by (simp add: line_ok_def utf8_valid_Cons_ascii)

text \<open>The reader on the first line of each kind of frame.\<close>

lemma client_head_line:
  assumes "line_ok p" and "byte c < 128" and "c \<noteq> LF"
  shows "client_line (c # p @ CR # LF # r) = Inr (c # p, r)"
proof -
  have "client_line ((c # p) @ CR # LF # r) = Inr (c # p, r)"
    using assms by (intro client_line_line line_ok_Cons) simp_all
  then show ?thesis by simp
qed

lemma line_ok_hd: "line_ok p \<Longrightarrow> \<not> (p \<noteq> [] \<and> is_cont (hd p))"
  using utf8_valid_hd by (simp add: line_ok_def)

lemma client_head_kind:
  assumes "line_ok p"
  shows
    "client_head (CHR ''+'' # p @ CR # LF # r) = Inr (Complete (RString p), r)"
    "client_head (CHR ''-'' # p @ CR # LF # r) = Inr (Complete (RError p), r)"
    "client_head (CHR '':'' # p @ CR # LF # r) = try_res (parse_i64_or ''integer'' p) (\<lambda>n. Inr (Complete (RInteger n), r))"
    "client_head (CHR ''$'' # p @ CR # LF # r) =
       try_res (parse_i64_or ''bulk length'' p) (\<lambda>len.
         if sint len < 0 then Inr (Complete RNull, r)
         else try_res (client_read_exact (unat len + 2) r) (\<lambda>(buf, r').
           Inr (Complete (RString (from_utf8_lossy (take (unat len) buf))), r')))"
    "client_head (CHR ''*'' # p @ CR # LF # r) =
       try_res (parse_i64_or ''array length'' p) (\<lambda>count.
         if sint count < 0 then Inr (Complete RNull, r) else Inr (Items (nat (sint count)), r))"
    "client_head (CHR ''%'' # p @ CR # LF # r) =
       try_res (parse_i64_or ''map length'' p) (\<lambda>count. try_res (reserve count) (\<lambda>n. Inr (Entries n, r)))"
    "client_head (CHR ''>'' # p @ CR # LF # r) =
       try_res (parse_i64_or ''push length'' p) (\<lambda>count. try_res (reserve count) (\<lambda>n. Inr (Items n, r)))"
  using client_head_line [OF assms] line_ok_hd [OF assms] by (cases "p = []"; simp add: client_head_def Let_def)+

lemma client_head_Null [wire_simps]: "client_head (CHR ''_'' # CR # LF # r) = Inr (Complete RNull, r)"
  using client_head_line [of "[]" "CHR ''_''" r] by (simp add: client_head_def Let_def line_ok_def)

lemma parse_i64_or_nat [wire_simps]: "n < 2 ^ 63 \<Longrightarrow> parse_i64_or w (dec_of_nat n) = Inr (of_nat n)"
  by (simp add: parse_i64_or_def parse_i64_dec_of_nat)

lemma client_head_counts [wire_simps]:
  assumes "n < 2 ^ 63"
  shows "client_head (CHR ''*'' # dec_of_nat n @ CR # LF # r) = Inr (Items n, r)"
    and "client_head (CHR ''%'' # dec_of_nat n @ CR # LF # r) = Inr (Entries n, r)"
    and "client_head (CHR ''>'' # dec_of_nat n @ CR # LF # r) = Inr (Items n, r)"
  using parse_i64_or_nat [OF assms] sint_of_nat_small [OF assms] by (simp_all add: client_head_kind reserve_def)

lemma client_head_bulk [wire_simps]:
  assumes "length data < 2 ^ 63"
  shows "client_head (CHR ''$'' # dec_of_nat (length data) @ CR # LF # data @ CR # LF # r) =
    Inr (Complete (RString (from_utf8_lossy data)), r)"
  using parse_i64_or_nat [OF assms] sint_of_nat_small [OF assms] unat_of_nat_small [OF assms]
  by (simp add: client_head_kind client_read_exact_def)

lemma read_values_write:
  assumes "\<And>f r. f \<in> set fs \<Longrightarrow> read_value (write_frame f @ r) = Inr (client_view f, r)"
  shows "read_values (length fs) (concat (map write_frame fs) @ r) = Inr (map client_view fs, r)"
  using assms by (induction fs) simp_all

lemma read_entries_write:
  assumes "\<And>k v r. (k, v) \<in> set ps \<Longrightarrow>
      read_value (write_frame k @ r) = Inr (client_view k, r) \<and> read_value (write_frame v @ r) = Inr (client_view v, r)"
  shows "read_entries (length ps) (concat (map (\<lambda>(k, v). write_frame k @ write_frame v) ps) @ r) =
    Inr (map (\<lambda>(k, v). (client_view k, client_view v)) ps, r)"
  using assms
proof (induction ps)
  case (Cons p ps)
  obtain k v where p: "p = (k, v)" by force
  have "read_value (write_frame k @ t) = Inr (client_view k, t)"
    "read_value (write_frame v @ t) = Inr (client_view v, t)" for t
    using Cons.prems [of k v t] p by simp_all
  moreover have "read_entries (length ps) (concat (map (\<lambda>(k, v). write_frame k @ write_frame v) ps) @ r) =
      Inr (map (\<lambda>(k, v). (client_view k, client_view v)) ps, r)"
    by (rule Cons.IH) (rule Cons.prems, simp)
  ultimately show ?case using p by simp
qed simp

lemma read_value_write:
  "client_ok f \<Longrightarrow> read_value (write_frame f @ r) = Inr (client_view f, r)"
proof (induction f arbitrary: r rule: write_frame.induct)
  case (3 n)
  then show ?case by (simp add: read_value.simps [of "CHR '':'' # _"] client_head_kind parse_i64_or_def)
next
  case (5 frames)
  then have "read_values (length frames) (concat (map write_frame frames) @ r) = Inr (map client_view frames, r)"
    by (intro read_values_write) simp
  with 5 show ?case by (simp add: read_value.simps [of "CHR ''*'' # _"] wire_simps)
next
  case (6 pairs)
  have "read_entries (length pairs) (concat (map (\<lambda>(k, v). write_frame k @ write_frame v) pairs) @ r) =
      Inr (map (\<lambda>(k, v). (client_view k, client_view v)) pairs, r)"
  proof (rule read_entries_write)
    fix k v r assume kv: "(k, v) \<in> set pairs"
    with "6.prems" have "client_ok k" "client_ok v" by auto
    with "6.IH" [OF kv refl]
    show "read_value (write_frame k @ r) = Inr (client_view k, r) \<and>
          read_value (write_frame v @ r) = Inr (client_view v, r)" by simp
  qed
  with 6 show ?case by (simp add: read_value.simps [of "CHR ''%'' # _"] wire_simps)
next
  case (7 frames)
  then have "read_values (length frames) (concat (map write_frame frames) @ r) = Inr (map client_view frames, r)"
    by (intro read_values_write) simp
  with 7 show ?case by (simp add: read_value.simps [of "CHR ''>'' # _"] wire_simps)
qed (simp_all add: read_value.simps [of "_ # _"] client_head_kind(1,2) wire_simps)

interpretation client_wire: wire_codec write_frame read_value client_view client_ok
  by unfold_locales (rule read_value_write)

text \<open>The commands that the client writes reach the server's reader.\<close>

definition command_ok :: "string list \<Rightarrow> bool" where
  "command_ok args \<longleftrightarrow> length args \<le> MAX_COLLECTION_SIZE \<and> (\<forall>a \<in> set args. length a \<le> MAX_BULK_SIZE)"

lemma write_command_frame: "write_command args = write_frame (Array (map BulkString args))"
  by (simp add: write_command_def comp_def)

interpretation command_wire: wire_codec write_command read_frame "\<lambda>args. Some (Array (map BulkString args))" command_ok
proof
  fix args rest
  assume "command_ok args"
  then have "frame_ok 0 (Array (map BulkString args))" by (simp add: command_ok_def MAX_DEPTH_def)
  from server_wire.dec_enc [OF this]
  show "read_frame (write_command args @ rest) = Inr (Some (Array (map BulkString args)), rest)"
    by (simp only: write_command_frame)
qed

section \<open>Properties\<close>



text \<open>
  C26: every command the client writes within the server's limits is read by the server as exactly that
  array of bulk strings, whatever bytes the arguments contain (so no argument can inject a command),
  also when commands follow each other back to back.
\<close>

theorem read_frame_write_command:
  assumes "\<And>args. args \<in> set cmds \<Longrightarrow> command_ok args"
  shows "read_n read_frame (length cmds) (concat (map write_command cmds) @ rest) =
    Inr (map (\<lambda>args. Some (Array (map BulkString args))) cmds, rest)"
  using assms by (rule command_wire.stream_roundtrip)

theorem read_frame_write_command_witness:
  "read_n read_frame (length [[''PING''], [''PUT'', ''n'', CRLF, []]])
      (concat (map write_command [[''PING''], [''PUT'', ''n'', CRLF, []]]) @ ''*'') =
    Inr (map (\<lambda>args. Some (Array (map BulkString args))) [[''PING''], [''PUT'', ''n'', CRLF, []]], ''*'')"
  by (rule read_frame_write_command) (auto simp: command_ok_def MAX_COLLECTION_SIZE_def MAX_BULK_SIZE_def)



end
