(* ===== verification/Client_Response.thy ===== *)
theory Client_Response
  imports Client_Conn
begin

text \<open>
  The accessors and printers of responses, \<open>shroudb-client/src/response.rs\<close>. The constructors of the
  JSON crate are the fields of \<open>'j json_ops\<close>.
\<close>

section \<open>Accessors\<close>

definition as_str :: "response \<Rightarrow> string option" where
  "as_str r = (case r of RString s \<Rightarrow> Some s | _ \<Rightarrow> None)"

definition as_int :: "response \<Rightarrow> i64 option" where
  "as_int r = (case r of RInteger n \<Rightarrow> Some n | _ \<Rightarrow> None)"

definition is_error :: "response \<Rightarrow> bool" where
  "is_error r = (case r of RError _ \<Rightarrow> True | _ \<Rightarrow> False)"

definition is_null :: "response \<Rightarrow> bool" where
  "is_null r = (case r of RNull \<Rightarrow> True | _ \<Rightarrow> False)"

definition type_name :: "response \<Rightarrow> string" where
  "type_name r = (case r of
     RString _ \<Rightarrow> ''String'' | RError _ \<Rightarrow> ''Error'' | RInteger _ \<Rightarrow> ''Integer''
   | RNull \<Rightarrow> ''Null'' | RArray _ \<Rightarrow> ''Array'' | RMap _ \<Rightarrow> ''Map'')"

definition to_display_string :: "response \<Rightarrow> string" where
  "to_display_string r = (case r of
     RString s \<Rightarrow> s
   | RError e \<Rightarrow> ''(error) '' @ e
   | RInteger n \<Rightarrow> i64_to_string n
   | RNull \<Rightarrow> ''(nil)''
   | RArray _ \<Rightarrow> ''(array)''
   | RMap _ \<Rightarrow> ''(map)'')"

record 'j json_ops =
  js_string :: "string \<Rightarrow> 'j"
  js_int :: "i64 \<Rightarrow> 'j"
  js_null :: 'j
  js_array :: "'j list \<Rightarrow> 'j"
  js_object :: "(string \<times> 'j) list \<Rightarrow> 'j"

fun to_json :: "'j json_ops \<Rightarrow> response \<Rightarrow> 'j" where
  "to_json J (RString s) = js_string J s"
| "to_json J (RError e) = js_object J [(''error'', js_string J e)]"
| "to_json J (RInteger n) = js_int J n"
| "to_json J RNull = js_null J"
| "to_json J (RArray items) = js_array J (map (to_json J) items)"
| "to_json J (RMap entries) = js_object J (map (\<lambda>(k, v). (to_display_string k, to_json J v)) entries)"

definition get_field :: "response \<Rightarrow> string \<Rightarrow> response option" where
  "get_field r key = (case r of
     RMap entries \<Rightarrow> map_option snd (find (\<lambda>(k, _). to_display_string k = key) entries)
   | _ \<Rightarrow> None)"

definition get_string_field :: "response \<Rightarrow> string \<Rightarrow> string option" where
  "get_string_field r key = Option.bind (get_field r key) as_str"

definition get_int_field :: "response \<Rightarrow> string \<Rightarrow> i64 option" where
  "get_int_field r key = Option.bind (get_field r key) (\<lambda>v. case v of
     RInteger n \<Rightarrow> Some n
   | RString s \<Rightarrow> res_ok (parse_i64 s)
   | _ \<Rightarrow> None)"

text \<open>\<open>to_hash_map\<close>: collecting into a map, the last entry of a key wins.\<close>

definition to_hash_map :: "'j json_ops \<Rightarrow> response \<Rightarrow> (string \<rightharpoonup> 'j) option" where
  "to_hash_map J r = (case r of
     RMap entries \<Rightarrow> Some (fold (\<lambda>(k, v) m. m(to_display_string k \<mapsto> to_json J v)) entries Map.empty)
   | _ \<Rightarrow> None)"

section \<open>Printers\<close>

fun write_raw :: "response \<Rightarrow> string" where
  "write_raw (RString s) = CHR ''$'' # dec_of_nat (length s) @ CRLF @ s @ CRLF"
| "write_raw (RError e) = CHR ''-'' # e @ CRLF"
| "write_raw (RInteger n) = CHR '':'' # i64_to_string n @ CRLF"
| "write_raw RNull = CHR ''_'' # CRLF"
| "write_raw (RArray items) = CHR ''*'' # dec_of_nat (length items) @ CRLF @ concat (map write_raw items)"
| "write_raw (RMap entries) = CHR ''%'' # dec_of_nat (length entries) @ CRLF @
     concat (map (\<lambda>(k, v). write_raw k @ write_raw v) entries)"

definition to_raw :: "response \<Rightarrow> string" where
  "to_raw r = write_raw r"

definition response_to_inline_string :: "response \<Rightarrow> string" where
  "response_to_inline_string r = (case r of
     RString s \<Rightarrow> s
   | RError e \<Rightarrow> ''(error) '' @ e
   | RInteger n \<Rightarrow> ''(integer) '' @ i64_to_string n
   | RNull \<Rightarrow> ''(nil)''
   | RArray items \<Rightarrow> ''(array, '' @ dec_of_nat (length items) @ '' items)''
   | RMap entries \<Rightarrow> ''(map, '' @ dec_of_nat (length entries) @ '' entries)'')"

definition nested :: "response \<Rightarrow> bool" where
  "nested r = (case r of RArray _ \<Rightarrow> True | RMap _ \<Rightarrow> True | _ \<Rightarrow> False)"

text \<open>
  The standard output of \<open>print\<close> at an indentation; \<open>print_items\<close> and \<open>print_entries\<close> are its loops
  (\<open>i\<close> is the index of the next item).
\<close>

function (sequential)
  print_response :: "nat \<Rightarrow> response \<Rightarrow> string"
  and print_items :: "nat \<Rightarrow> nat \<Rightarrow> response list \<Rightarrow> string"
  and print_entries :: "nat \<Rightarrow> (response \<times> response) list \<Rightarrow> string"
where
  "print_response ind r =
     (let pad = concat (replicate ind ''  '') in
      case r of
        RString s \<Rightarrow> pad @ s @ [LF]
      | RError e \<Rightarrow> pad @ ''(error) '' @ e @ [LF]
      | RInteger n \<Rightarrow> pad @ ''(integer) '' @ i64_to_string n @ [LF]
      | RNull \<Rightarrow> pad @ ''(nil)'' @ [LF]
      | RArray items \<Rightarrow> if items = [] then pad @ ''(empty array)'' @ [LF] else print_items ind 0 items
      | RMap entries \<Rightarrow> if entries = [] then pad @ ''(empty map)'' @ [LF] else print_entries ind entries)"
| "print_items ind i [] = []"
| "print_items ind i (item # items) =
     concat (replicate ind ''  '') @ dec_of_nat (i + 1) @ ''. '' @
     (if nested item then [LF] @ print_response (ind + 1) item
      else response_to_inline_string item @ [LF]) @
     print_items ind (Suc i) items"
| "print_entries ind [] = []"
| "print_entries ind ((key, val) # entries) =
     (let pad = concat (replicate ind ''  '') in
      if nested val then pad @ to_display_string key @ '':'' @ [LF] @ print_response (ind + 1) val
      else pad @ to_display_string key @ '': '' @ response_to_inline_string val @ [LF]) @
     print_entries ind entries"
  by pat_completeness auto
termination
  by (relation "measure (\<lambda>x. case x of Inl (i, r) \<Rightarrow> size r
      | Inr (Inl (i, j, rs)) \<Rightarrow> size_list size rs | Inr (Inr (i, es)) \<Rightarrow> size_list (size_prod size size) es)") auto

declare print_response.simps [simp del]

section \<open>The raw form is the wire form\<close>

text \<open>Responses whose strings are what a client can hold: valid UTF-8, errors on a single line.\<close>

fun response_ok :: "response \<Rightarrow> bool" where
  "response_ok (RString s) = (utf8_valid s \<and> length s < 2 ^ 63)"
| "response_ok (RError e) = line_ok e"
| "response_ok (RInteger n) = True"
| "response_ok RNull = True"
| "response_ok (RArray items) = (length items < 2 ^ 63 \<and> (\<forall>r \<in> set items. response_ok r))"
| "response_ok (RMap entries) = (length entries < 2 ^ 63 \<and> (\<forall>(k, v) \<in> set entries. response_ok k \<and> response_ok v))"

fun raw_frame :: "response \<Rightarrow> resp3_frame" where
  "raw_frame (RString s) = BulkString s"
| "raw_frame (RError e) = SimpleError e"
| "raw_frame (RInteger n) = Integer n"
| "raw_frame RNull = Null"
| "raw_frame (RArray items) = Array (map raw_frame items)"
| "raw_frame (RMap entries) = Map (map (\<lambda>(k, v). (raw_frame k, raw_frame v)) entries)"

lemma write_raw_frame: "write_raw r = write_frame (raw_frame r)"
proof (induction r rule: write_raw.induct)
  case (5 items)
  then have "map write_raw items = map (write_frame \<circ> raw_frame) items" by simp
  then show ?case by (simp only: write_raw.simps raw_frame.simps write_frame.simps length_map map_map)
next
  case (6 entries)
  have "map (\<lambda>(k, v). write_raw k @ write_raw v) entries =
      map ((\<lambda>(k, v). write_frame k @ write_frame v) \<circ> (\<lambda>(k, v). (raw_frame k, raw_frame v))) entries"
    by (rule map_cong) (use 6 in auto)
  then show ?case by (simp only: write_raw.simps raw_frame.simps write_frame.simps length_map map_map)
qed simp_all

lemma raw_frame_ok: "response_ok r \<Longrightarrow> client_ok (raw_frame r)"
  by (induction r rule: raw_frame.induct) auto

lemma raw_frame_view: "response_ok r \<Longrightarrow> client_view (raw_frame r) = r"
proof (induction r rule: raw_frame.induct)
  case (5 items)
  then show ?case by (simp add: map_idI)
next
  case (6 entries)
  have "map ((\<lambda>(k, v). (client_view k, client_view v)) \<circ> (\<lambda>(k, v). (raw_frame k, raw_frame v))) entries = entries"
    by (rule map_idI) (use 6 in auto)
  then show ?case by simp
qed simp_all

interpretation raw_wire: wire_codec to_raw read_value id response_ok
  by unfold_locales (simp add: to_raw_def write_raw_frame client_wire.dec_enc raw_frame_ok raw_frame_view)

section \<open>Properties\<close>

text \<open>
  The raw form of a response (the \<open>--raw\<close> output of the command line client) is lossless: reading
  it back with the client's own reader gives the response, and several raw responses printed one after
  the other are read back one by one.
\<close>

lemma to_raw_roundtrip:
  assumes "\<And>r. r \<in> set rs \<Longrightarrow> response_ok r"
  shows "read_n read_value (length rs) (concat (map to_raw rs) @ rest) = Inr (rs, rest)"
  using raw_wire.stream_roundtrip [of rs rest] assms by simp

end
