(* ===== verification/Client.thy ===== *)
theory Client
  imports Client_Response
begin

text \<open>
  The client library, \<open>shroudb-client/src/lib.rs\<close>: connection URIs, the requests of
  \<open>ShrouDBClient\<close> with the decoding of their responses, and the pipeline writer. The network is the
  field \<open>cn_exchange\<close> of a connection: it takes the bytes that are written and flushed and returns
  the response that is read, or the failure (I/O error, timeout) of doing so; \<open>'w\<close> is the state of
  everything at the other end.
\<close>

section \<open>Connection URIs\<close>

record connection_config =
  cc_host :: string
  cc_port :: u16
  cc_tls :: bool
  cc_auth_token :: "string option"

definition parse_authority :: "bool \<Rightarrow> string \<Rightarrow> connection_config" where
  "parse_authority tls rest =
     (let (auth_token, hostport) =
            (case split_once CHR 0x40 rest of Some (t, h) \<Rightarrow> (Some t, h) | None \<Rightarrow> (None, rest));
          hostport = takeWhile (\<lambda>c. c \<noteq> CHR ''/'') hostport;
          (host, port) =
            (case rsplit_once CHR '':'' hostport of
               Some (h, port_str) \<Rightarrow> (case parse_u16 port_str of Inr p \<Rightarrow> (h, p) | Inl _ \<Rightarrow> (hostport, 6399))
             | None \<Rightarrow> (hostport, 6399))
      in \<lparr>cc_host = host, cc_port = port, cc_tls = tls, cc_auth_token = auth_token\<rparr>)"

definition parse_uri :: "string \<Rightarrow> client_error + connection_config" where
  "parse_uri uri =
     (case strip_prefix ''shroudb+tls://'' uri of
        Some rest \<Rightarrow> Inr (parse_authority True rest)
      | None \<Rightarrow> (case strip_prefix ''shroudb://'' uri of
          Some rest \<Rightarrow> Inr (parse_authority False rest)
        | None \<Rightarrow> Inl (Protocol (''invalid URI scheme: '' @ uri))))"

definition config_addr :: "connection_config \<Rightarrow> string" where
  "config_addr cfg = cc_host cfg @ '':'' @ dec_of_nat (unat (cc_port cfg))"

text \<open>The server name that \<open>connect_tls\<close> verifies the certificate against.\<close>

definition tls_server_name :: "string \<Rightarrow> string" where
  "tls_server_name addr =
     (if prefix ''['' addr
      then dropWhile (\<lambda>c. c = CHR ''['') (takeWhile (\<lambda>c. c \<noteq> CHR '']'') addr)
      else case rsplit_once CHR '':'' addr of Some (h, _) \<Rightarrow> h | None \<Rightarrow> addr)"

section \<open>Requests\<close>

record 'w connection =
  cn_exchange :: "bytes \<Rightarrow> 'w \<Rightarrow> (failure + response) \<times> 'w"
  cn_prefix :: "string option"

type_synonym ('w, 'r) request = "'w \<Rightarrow> (failure + 'r) \<times> 'w"

definition send_raw :: "'w connection \<Rightarrow> string list \<Rightarrow> ('w, response) request" where
  "send_raw C args = cn_exchange C (write_command args)"

definition send_command :: "'w connection \<Rightarrow> string list \<Rightarrow> ('w, response) request" where
  "send_command C args = send_raw C (send_command_args (cn_prefix C) args)"

definition send_meta_command :: "'w connection \<Rightarrow> string list \<Rightarrow> ('w, response) request" where
  "send_meta_command C args = send_raw C args"

text \<open>A request followed by the decoding of its response.\<close>

definition decoded :: "('w, response) request \<Rightarrow> (response \<Rightarrow> client_error + 'r) \<Rightarrow> ('w, 'r) request" where
  "decoded req decode w = (case req w of (r, w') \<Rightarrow> (try_res r (\<lambda>resp. map_err Fails (decode resp)), w'))"

definition check_ok :: "response \<Rightarrow> client_error + unit" where
  "check_ok resp = (case resp of
     RError e \<Rightarrow> Inl (Server e)
   | RNull \<Rightarrow> Inl (ResponseFormat ''unexpected null'')
   | _ \<Rightarrow> Inr ())"

definition checked :: "(response \<Rightarrow> client_error + 'r) \<Rightarrow> response \<Rightarrow> client_error + 'r" where
  "checked decode resp = try_res (check_ok resp) (\<lambda>_. decode resp)"

definition version_field :: "response \<Rightarrow> client_error + u64" where
  "version_field resp = ok_or (get_int_field resp ''version'') (ResponseFormat ''missing version field'')"

record 'j get_result =
  gr_key :: bytes
  gr_value :: bytes
  gr_version :: u64
  gr_metadata :: "'j option"

definition parse_get_result :: "'j json_ops \<Rightarrow> response \<Rightarrow> client_error + 'j get_result" where
  "parse_get_result J resp =
     try_res (ok_or (get_string_field resp ''key'') (ResponseFormat (''missing '' @ [CHR 0x27] @ ''key'' @ [CHR 0x27] @ '' field in GET response''))) (\<lambda>key.
     try_res (ok_or (get_string_field resp ''value'') (ResponseFormat (''missing '' @ [CHR 0x27] @ ''value'' @ [CHR 0x27] @ '' field in GET response''))) (\<lambda>val.
     try_res (ok_or (get_int_field resp ''version'') (ResponseFormat (''missing '' @ [CHR 0x27] @ ''version'' @ [CHR 0x27] @ '' field in GET response''))) (\<lambda>version.
       Inr \<lparr>gr_key = key, gr_value = val, gr_version = version,
            gr_metadata = map_option (to_json J) (get_field resp ''metadata'')\<rparr>)))"

record page_result =
  pr_items :: "string list"
  pr_cursor :: "string option"

definition string_items :: "response \<Rightarrow> string list" where
  "string_items r = (case r of RArray items \<Rightarrow> List.map_filter as_str items | _ \<Rightarrow> [])"

definition parse_key_list :: "response \<Rightarrow> client_error + page_result" where
  "parse_key_list resp =
     try_res (ok_or (get_field resp ''keys'') (ResponseFormat ''missing keys field'')) (\<lambda>f.
       Inr \<lparr>pr_items = string_items f, pr_cursor = get_string_field resp ''cursor''\<rparr>)"

definition parse_namespace_list :: "response \<Rightarrow> client_error + page_result" where
  "parse_namespace_list resp =
     try_res (ok_or (get_field resp ''namespaces'') (ResponseFormat ''missing namespaces field'')) (\<lambda>f.
       Inr \<lparr>pr_items = string_items f, pr_cursor = get_string_field resp ''cursor''\<rparr>)"

record client_version_entry =
  cv_version :: u64
  cv_state :: string
  cv_updated_at :: u64
  cv_actor :: string

definition missing_in_versions :: "string \<Rightarrow> nat \<Rightarrow> client_error" where
  "missing_in_versions what i =
     ResponseFormat (''missing '' @ [CHR 0x27] @ what @ [CHR 0x27] @ '' in versions['' @ dec_of_nat i @ '']'')"

definition parse_version_item :: "nat \<times> response \<Rightarrow> client_error + client_version_entry" where
  "parse_version_item it = (case it of (i, item) \<Rightarrow>
     try_res (ok_or (get_int_field item ''version'') (missing_in_versions ''version'' i)) (\<lambda>version.
     try_res (ok_or (get_string_field item ''state'') (missing_in_versions ''state'' i)) (\<lambda>state.
     try_res (ok_or (get_int_field item ''updated_at'') (missing_in_versions ''updated_at'' i)) (\<lambda>updated_at.
     try_res (ok_or (get_string_field item ''actor'') (missing_in_versions ''actor'' i)) (\<lambda>actor.
       Inr \<lparr>cv_version = version, cv_state = state, cv_updated_at = updated_at, cv_actor = actor\<rparr>)))))"

definition client_parse_versions :: "response \<Rightarrow> client_error + client_version_entry list" where
  "client_parse_versions resp =
     try_res (ok_or (get_field resp ''versions'') (ResponseFormat ''missing versions field'')) (\<lambda>f.
       case f of
         RArray items \<Rightarrow> collect_res parse_version_item (enumerate 0 items)
       | _ \<Rightarrow> Inl (ResponseFormat ''versions field is not an array''))"

subsection \<open>Connection\<close>

definition client_auth :: "'w connection \<Rightarrow> string \<Rightarrow> ('w, unit) request" where
  "client_auth C token = decoded (send_meta_command C [''AUTH'', token]) check_ok"

definition client_ping :: "'w connection \<Rightarrow> ('w, unit) request" where
  "client_ping C = decoded (send_meta_command C [''PING'']) check_ok"

text \<open>
  \<open>from_uri\<close>; opening a connection is the argument \<open>connect\<close> (whether over TLS, and the address).
\<close>

definition from_config :: "(bool \<Rightarrow> string \<Rightarrow> ('w, 'w connection) request) \<Rightarrow> connection_config \<Rightarrow>
    ('w, 'w connection) request" where
  "from_config connect cfg w =
     (case connect (cc_tls cfg) (config_addr cfg) w of
        (Inl e, w1) \<Rightarrow> (Inl e, w1)
      | (Inr C, w1) \<Rightarrow>
          (case cc_auth_token cfg of
             None \<Rightarrow> (Inr C, w1)
           | Some token \<Rightarrow>
               (case client_auth C token w1 of
                  (Inl e, w2) \<Rightarrow> (Inl e, w2)
                | (Inr _, w2) \<Rightarrow> (Inr C, w2))))"

definition from_uri :: "(bool \<Rightarrow> string \<Rightarrow> ('w, 'w connection) request) \<Rightarrow> string \<Rightarrow>
    ('w, 'w connection) request" where
  "from_uri connect uri w =
     (case parse_uri uri of
        Inl e \<Rightarrow> (Inl (Fails e), w)
      | Inr cfg \<Rightarrow> from_config connect cfg w)"

subsection \<open>Data\<close>

definition client_put :: "'w connection \<Rightarrow> string \<Rightarrow> bytes \<Rightarrow> bytes \<Rightarrow> ('w, u64) request" where
  "client_put C ns key val =
     decoded (send_command C [''PUT'', ns, from_utf8_lossy key, from_utf8_lossy val]) (checked version_field)"

text \<open>\<open>put_with_metadata\<close>; \<open>meta_str\<close> is the result of \<open>serde_json::to_string\<close>.\<close>

definition client_put_with_metadata :: "'w connection \<Rightarrow> string \<Rightarrow> bytes \<Rightarrow> bytes \<Rightarrow> string + string \<Rightarrow>
    ('w, u64) request" where
  "client_put_with_metadata C ns key val meta_json w =
     (case meta_json of
        Inl e \<Rightarrow> (Inl (Fails (Serialization e)), w)
      | Inr meta_str \<Rightarrow>
          decoded (send_command C [''PUT'', ns, from_utf8_lossy key, ''VALUE'', from_utf8_lossy val, ''META'', meta_str])
            (checked version_field) w)"

definition client_get :: "'j json_ops \<Rightarrow> 'w connection \<Rightarrow> string \<Rightarrow> bytes \<Rightarrow> ('w, 'j get_result) request" where
  "client_get J C ns key =
     decoded (send_command C [''GET'', ns, from_utf8_lossy key]) (checked (parse_get_result J))"

definition client_get_version :: "'j json_ops \<Rightarrow> 'w connection \<Rightarrow> string \<Rightarrow> bytes \<Rightarrow> u64 \<Rightarrow>
    ('w, 'j get_result) request" where
  "client_get_version J C ns key version =
     decoded (send_command C [''GET'', ns, from_utf8_lossy key, ''VERSION'', u64_to_string version])
       (checked (parse_get_result J))"

definition client_delete :: "'w connection \<Rightarrow> string \<Rightarrow> bytes \<Rightarrow> ('w, u64) request" where
  "client_delete C ns key =
     decoded (send_command C [''DELETE'', ns, from_utf8_lossy key]) (checked version_field)"

definition client_list :: "'w connection \<Rightarrow> string \<Rightarrow> ('w, page_result) request" where
  "client_list C ns = decoded (send_command C [''LIST'', ns]) (checked parse_key_list)"

definition client_list_prefix :: "'w connection \<Rightarrow> string \<Rightarrow> string \<Rightarrow> ('w, page_result) request" where
  "client_list_prefix C ns pre = decoded (send_command C [''LIST'', ns, ''PREFIX'', pre]) (checked parse_key_list)"

definition client_list_cursor :: "'w connection \<Rightarrow> string \<Rightarrow> string \<Rightarrow> usize \<Rightarrow> ('w, page_result) request" where
  "client_list_cursor C ns cursor limit =
     decoded (send_command C [''LIST'', ns, ''CURSOR'', cursor, ''LIMIT'', u64_to_string limit]) (checked parse_key_list)"

definition client_versions :: "'w connection \<Rightarrow> string \<Rightarrow> bytes \<Rightarrow> ('w, client_version_entry list) request" where
  "client_versions C ns key =
     decoded (send_command C [''VERSIONS'', ns, from_utf8_lossy key]) (checked client_parse_versions)"

subsection \<open>Namespaces and operations\<close>

definition client_namespace_create :: "'w connection \<Rightarrow> string \<Rightarrow> ('w, unit) request" where
  "client_namespace_create C name = decoded (send_command C [''NAMESPACE'', ''CREATE'', name]) check_ok"

definition client_namespace_drop :: "'w connection \<Rightarrow> string \<Rightarrow> bool \<Rightarrow> ('w, unit) request" where
  "client_namespace_drop C name force =
     decoded (send_command C (if force then [''NAMESPACE'', ''DROP'', name, ''FORCE'']
       else [''NAMESPACE'', ''DROP'', name])) check_ok"

definition client_namespace_list :: "'w connection \<Rightarrow> ('w, page_result) request" where
  "client_namespace_list C = decoded (send_command C [''NAMESPACE'', ''LIST'']) (checked parse_namespace_list)"

record client_namespace_info =
  cni_name :: string
  cni_key_count :: u64
  cni_created_at :: u64

definition missing_in_info :: "string \<Rightarrow> client_error" where
  "missing_in_info what =
     ResponseFormat (''missing '' @ [CHR 0x27] @ what @ [CHR 0x27] @ '' field in NAMESPACE INFO response'')"

definition parse_namespace_info :: "response \<Rightarrow> client_error + client_namespace_info" where
  "parse_namespace_info resp =
     try_res (ok_or (get_string_field resp ''name'') (missing_in_info ''name'')) (\<lambda>name.
     try_res (ok_or (get_int_field resp ''key_count'') (missing_in_info ''key_count'')) (\<lambda>key_count.
     try_res (ok_or (get_int_field resp ''created_at'') (missing_in_info ''created_at'')) (\<lambda>created_at.
       Inr \<lparr>cni_name = name, cni_key_count = key_count, cni_created_at = created_at\<rparr>)))"

definition client_get_namespace_info :: "'w connection \<Rightarrow> string \<Rightarrow> ('w, client_namespace_info) request" where
  "client_get_namespace_info C name =
     decoded (send_command C [''NAMESPACE'', ''INFO'', name]) (checked parse_namespace_info)"

definition client_health :: "'w connection \<Rightarrow> ('w, unit) request" where
  "client_health C = decoded (send_meta_command C [''HEALTH'']) check_ok"

definition client_config_get :: "'w connection \<Rightarrow> string \<Rightarrow> ('w, string option) request" where
  "client_config_get C key =
     decoded (send_command C [''CONFIG'', ''GET'', key]) (checked (\<lambda>resp. Inr (get_string_field resp ''value'')))"

definition client_config_set :: "'w connection \<Rightarrow> string \<Rightarrow> string \<Rightarrow> ('w, unit) request" where
  "client_config_set C key val = decoded (send_command C [''CONFIG'', ''SET'', key, val]) check_ok"

definition client_command_list :: "'w connection \<Rightarrow> ('w, string list) request" where
  "client_command_list C = decoded (send_command C [''COMMAND'', ''LIST'']) (checked (\<lambda>resp.
     try_res (ok_or (get_field resp ''commands'') (ResponseFormat ''missing commands field'')) (\<lambda>f.
       case f of
         RArray items \<Rightarrow> Inr (List.map_filter as_str items)
       | _ \<Rightarrow> Inl (ResponseFormat ''commands field is not an array''))))"

subsection \<open>Pipelines\<close>

definition write_bulk :: "string \<Rightarrow> bytes" where
  "write_bulk s = CHR ''$'' # dec_of_nat (length s) @ CRLF @ s @ CRLF"

definition write_pipeline :: "string list list \<Rightarrow> string option \<Rightarrow> bytes" where
  "write_pipeline commands request_id =
     (let keyword_count = (case request_id of Some _ \<Rightarrow> 2 | None \<Rightarrow> 0);
          total_elements = 1 + keyword_count + length commands in
      CHR ''*'' # dec_of_nat total_elements @ CRLF @
      ''$8'' @ CRLF @ ''PIPELINE'' @ CRLF @
      (case request_id of
         Some i \<Rightarrow> ''$10'' @ CRLF @ ''REQUEST_ID'' @ CRLF @ write_bulk i
       | None \<Rightarrow> []) @
      concat (map (\<lambda>cmd. CHR ''*'' # dec_of_nat (length cmd) @ CRLF @ concat (map write_bulk cmd)) commands))"

definition client_pipeline :: "'w connection \<Rightarrow> string list list \<Rightarrow> string option \<Rightarrow> ('w, response list) request" where
  "client_pipeline C commands request_id = decoded (cn_exchange C (write_pipeline commands request_id)) (\<lambda>resp.
     case resp of
       RArray items \<Rightarrow> Inr items
     | RError e \<Rightarrow> Inl (Server e)
     | _ \<Rightarrow> Inl (ResponseFormat ''expected array response from PIPELINE''))"

section \<open>Lemmas\<close>

lemma dec_not_colon: "CHR '':'' \<notin> set (dec_of_nat n)" "CHR ''/'' \<notin> set (dec_of_nat n)" "CHR 0x40 \<notin> set (dec_of_nat n)"
  using dec_of_nat_range [of _ n] by (fastforce)+

lemma parse_u16_dec: "parse_u16 (dec_of_nat (unat (p :: u16))) = Inr p"
proof -
  have "unat p \<le> 2 ^ 16 - 1" using unsigned_less [of p, where 'a = nat] by simp
  then show ?thesis by (simp add: parse_u16_def parse_unsigned_dec_of_nat)
qed

lemma parse_uri_scheme:
  "parse_uri ((if tls then ''shroudb+tls://'' else ''shroudb://'') @ rest) = Inr (parse_authority tls rest)"
  by (simp add: parse_uri_def)

text \<open>The frame that the pipeline writer writes.\<close>

definition pipeline_frame :: "string list list \<Rightarrow> string option \<Rightarrow> resp3_frame" where
  "pipeline_frame commands request_id =
     Array (BulkString ''PIPELINE'' #
       (case request_id of Some i \<Rightarrow> [BulkString ''REQUEST_ID'', BulkString i] | None \<Rightarrow> []) @
       map (\<lambda>cmd. Array (map BulkString cmd)) commands)"

lemma write_bulk_frame: "write_bulk s = write_frame (BulkString s)"
  by (simp add: write_bulk_def)

lemma write_keywords:
  "''$8'' @ CRLF @ ''PIPELINE'' @ CRLF @ r = write_bulk ''PIPELINE'' @ r"
  "''$10'' @ CRLF @ ''REQUEST_ID'' @ CRLF @ r = write_bulk ''REQUEST_ID'' @ r"
proof -
  have "write_bulk ''PIPELINE'' = ''$8'' @ CRLF @ ''PIPELINE'' @ CRLF"
    and "write_bulk ''REQUEST_ID'' = ''$10'' @ CRLF @ ''REQUEST_ID'' @ CRLF" by code_simp+
  then show "''$8'' @ CRLF @ ''PIPELINE'' @ CRLF @ r = write_bulk ''PIPELINE'' @ r"
    and "''$10'' @ CRLF @ ''REQUEST_ID'' @ CRLF @ r = write_bulk ''REQUEST_ID'' @ r"
    by (simp_all only: append_assoc)
qed

lemma write_pipeline_frame: "write_pipeline commands request_id = write_frame (pipeline_frame commands request_id)"
proof -
  have cmds: "map (\<lambda>cmd. CHR ''*'' # dec_of_nat (length cmd) @ CRLF @ concat (map write_bulk cmd)) commands =
      map write_frame (map (\<lambda>cmd. Array (map BulkString cmd)) commands)"
    by (simp add: write_bulk_frame [abs_def] comp_def)
  show ?thesis
    unfolding write_pipeline_def pipeline_frame_def Let_def write_keywords cmds write_frame.simps(5)
    by (cases request_id) (simp_all add: write_bulk_frame del: write_frame.simps)
qed

section \<open>Properties\<close>

definition config_uri :: "connection_config \<Rightarrow> string" where
  "config_uri cfg =
     (if cc_tls cfg then ''shroudb+tls://'' else ''shroudb://'') @
     (case cc_auth_token cfg of Some t \<Rightarrow> t @ [CHR 0x40] | None \<Rightarrow> []) @ config_addr cfg"

text \<open>
  Connection URIs. The URI of a configuration, \<open>shroudb[+tls]://[token@]host:port\<close>, with anything
  after a slash appended, parses back to that configuration, for every port, every host without a
  slash (also a bracketed IPv6 address) and every token without an at sign; a host may contain an at
  sign only when there is a token.
\<close>

lemma parse_uri_roundtrip:
  assumes "CHR ''/'' \<notin> set (cc_host cfg)"
    and "case cc_auth_token cfg of Some t \<Rightarrow> CHR 0x40 \<notin> set t | None \<Rightarrow> CHR 0x40 \<notin> set (cc_host cfg @ path)"
    and "path = [] \<or> hd path = CHR ''/''"
  shows "parse_uri (config_uri cfg @ path) = Inr cfg"
proof -
  have path: "takeWhile (\<lambda>c. c \<noteq> CHR ''/'') (config_addr cfg @ path) = config_addr cfg"
    using assms(1,3) dec_not_colon(2)
    by (cases path) (auto simp: config_addr_def takeWhile_append takeWhile_eq_all_conv)
  have addr: "rsplit_once CHR '':'' (config_addr cfg) = Some (cc_host cfg, dec_of_nat (unat (cc_port cfg)))"
    by (simp add: config_addr_def rsplit_once_append dec_not_colon)
  have "parse_authority (cc_tls cfg) ((case cc_auth_token cfg of Some t \<Rightarrow> t @ [CHR 0x40] | None \<Rightarrow> []) @ config_addr cfg @ path) = cfg"
  proof (cases "cc_auth_token cfg")
    case None
    then have "split_once CHR 0x40 (config_addr cfg @ path) = None"
      using assms(2) by (intro split_once_None) (simp add: config_addr_def dec_not_colon)
    then show ?thesis using None by (simp add: parse_authority_def path addr parse_u16_dec)
  next
    case (Some t)
    then have "split_once CHR 0x40 (t @ CHR 0x40 # config_addr cfg @ path) = Some (t, config_addr cfg @ path)"
      using assms(2) by (intro split_once_append) simp
    then show ?thesis using Some by (simp add: parse_authority_def path addr parse_u16_dec)
  qed
  then show ?thesis by (simp only: config_uri_def append_assoc parse_uri_scheme)
qed

end
