(* ===== verification/Remote_Store.thy ===== *)
theory Remote_Store
  imports Client Connection
begin

text \<open>
  \<open>RemoteStore\<close>, \<open>shroudb-client/src/remote_store.rs\<close>: the \<open>Store\<close> operations as requests on a
  client connection, the translation of server errors back to store errors, and the reader task of a
  subscription. The mutex around the client makes its requests a sequence. The result \<open>None\<close> of an
  operation is a panic of the client.
\<close>

section \<open>Foreign functions\<close>

text \<open>
  \<open>serde_json::to_string\<close> on JSON values and on meta schemas, \<open>Metadata::default\<close> and
  \<open>serde_json::from_value\<close> on metadata, besides those of \<open>'x ext\<close> and \<open>'x json_ops\<close>.
\<close>

record 'x remote_ext =
  rx_ext :: "'x ext"
  rx_json :: "'x json_ops"
  rx_to_string :: "'x \<Rightarrow> string + string"
  rx_schema_to_string :: "'x \<Rightarrow> string + string"
  rx_metadata_default :: 'x
  rx_metadata_from_value :: "'x \<Rightarrow> string + 'x"

section \<open>Errors\<close>

definition parse_version_conflict :: "string \<Rightarrow> u64 option" where
  "parse_version_conflict msg =
     Option.bind (strip_prefix ''VERSIONCONFLICT '' msg) (\<lambda>body.
     Option.bind (strip_prefix ''current='' (trim_start body)) (\<lambda>current_field. res_ok (parse_u64 current_field)))"

definition prefix_field :: "string \<Rightarrow> u64 option \<times> u64 option \<Rightarrow> u64 option \<times> u64 option" where
  "prefix_field field ml = (case ml of (matched, limit) \<Rightarrow>
     (case strip_prefix ''matched='' field of
        Some v \<Rightarrow> (res_ok (parse_u64 v), limit)
      | None \<Rightarrow> (case strip_prefix ''limit='' field of
          Some v \<Rightarrow> (matched, res_ok (parse_u64 v))
        | None \<Rightarrow> (matched, limit))))"

definition parse_prefix_too_large :: "string \<Rightarrow> (u64 \<times> u64) option" where
  "parse_prefix_too_large msg =
     Option.bind (strip_prefix ''PREFIXTOOLARGE '' msg) (\<lambda>body.
       case fold prefix_field (split_whitespace (trim_start body)) (None, None) of
         (Some matched, Some limit) \<Rightarrow> Some (matched, limit)
       | _ \<Rightarrow> None)"

definition client_error_to_string :: "'x ext \<Rightarrow> client_error \<Rightarrow> string" where
  "client_error_to_string X e = (case e of
     Connection io \<Rightarrow> ''connection failed: '' @ io_error_to_string X io
   | Server s \<Rightarrow> ''server error: '' @ s
   | Protocol s \<Rightarrow> ''protocol error: '' @ s
   | AuthRequired \<Rightarrow> ''authentication required''
   | Serialization s \<Rightarrow> ''serialization failed: '' @ s
   | ResponseFormat s \<Rightarrow> ''unexpected response format: '' @ s
   | Timeout \<Rightarrow> ''operation timed out'')"

definition server_err :: "string \<Rightarrow> 'x store_error" where
  "server_err msg = (case parse_version_conflict msg of
     Some current \<Rightarrow> SE_VersionConflict current
   | None \<Rightarrow> (case parse_prefix_too_large msg of
       Some (matched, limit) \<Rightarrow> SE_PrefixTooLarge matched limit
     | None \<Rightarrow>
         if str_contains msg ''not found'' then SE_NotFound
         else if str_contains msg ''namespace not found'' then SE_NamespaceNotFound msg
         else if str_contains msg ''namespace already exists'' then SE_NamespaceExists msg
         else if str_contains msg ''namespace not empty'' then SE_NamespaceNotEmpty msg
         else if str_contains msg ''invalid cursor'' then SE_InvalidCursor msg
         else SE_Storage msg))"

definition client_err :: "'x ext \<Rightarrow> client_error \<Rightarrow> 'x store_error" where
  "client_err X e = (case e of
     Server msg \<Rightarrow> server_err msg
   | Connection io \<Rightarrow> SE_Connection (io_error_to_string X io)
   | Timeout \<Rightarrow> SE_Connection ''timeout''
   | _ \<Rightarrow> SE_Storage (client_error_to_string X e))"

type_synonym ('w, 'x, 'r) remote_op = "'w \<Rightarrow> ('x store_error + 'r) option \<times> 'w"

definition store_result :: "'x ext \<Rightarrow> failure + 'r \<Rightarrow> ('x store_error + 'r) option" where
  "store_result X r = (case r of
     Inr v \<Rightarrow> Some (Inr v)
   | Inl (Fails e) \<Rightarrow> Some (Inl (client_err X e))
   | Inl Panics \<Rightarrow> None)"

text \<open>A client request with its error mapped, and one whose response the store decodes itself.\<close>

definition remote :: "'x ext \<Rightarrow> ('w, 'r) request \<Rightarrow> ('r \<Rightarrow> 'x store_error + 'q) \<Rightarrow> ('w, 'x, 'q) remote_op" where
  "remote X req decode w = (case req w of (r, w') \<Rightarrow>
     (map_option (\<lambda>sr. try_res sr decode) (store_result X r), w'))"

definition server_error_or :: "'x ext \<Rightarrow> (response \<Rightarrow> 'x store_error + 'q) \<Rightarrow> response \<Rightarrow> 'x store_error + 'q" where
  "server_error_or X decode resp = (case resp of
     RError msg \<Rightarrow> Inl (client_err X (Server msg))
   | _ \<Rightarrow> decode resp)"

definition raw_int_field :: "string \<Rightarrow> response \<Rightarrow> 'x store_error + u64" where
  "raw_int_field name resp =
     ok_or (Option.bind (get_field resp name) as_int) (SE_Storage (''missing '' @ name @ '' field''))"

section \<open>Store operations\<close>

definition remote_put :: "'x remote_ext \<Rightarrow> 'w connection \<Rightarrow> string \<Rightarrow> bytes \<Rightarrow> bytes \<Rightarrow> 'x option \<Rightarrow>
    ('w, 'x, u64) remote_op" where
  "remote_put R C ns key val metadata = remote (rx_ext R)
     (case metadata of
        Some meta \<Rightarrow> client_put_with_metadata C ns key val (rx_to_string R (metadata_to_json (rx_ext R) meta))
      | None \<Rightarrow> client_put C ns key val) Inr"

text \<open>\<open>Entry\<close> with the timestamps that the handlers do not read.\<close>

record 'x full_entry = "'x entry" +
  e_created_at :: u64
  e_updated_at :: u64

definition remote_get :: "'x remote_ext \<Rightarrow> 'w connection \<Rightarrow> string \<Rightarrow> bytes \<Rightarrow> u64 option \<Rightarrow>
    ('w, 'x, 'x full_entry) remote_op" where
  "remote_get R C ns key version = remote (rx_ext R)
     (case version of
        Some v \<Rightarrow> client_get_version (rx_json R) C ns key v
      | None \<Rightarrow> client_get (rx_json R) C ns key)
     (\<lambda>gr. Inr \<lparr>e_key = gr_key gr, e_value = gr_value gr,
        e_metadata = (case gr_metadata gr of
            None \<Rightarrow> rx_metadata_default R
          | Some j \<Rightarrow> (case rx_metadata_from_value R j of Inr m \<Rightarrow> m | Inl _ \<Rightarrow> rx_metadata_default R)),
        e_version = gr_version gr, e_created_at = 0, e_updated_at = 0\<rparr>)"

definition remote_delete :: "'x remote_ext \<Rightarrow> 'w connection \<Rightarrow> string \<Rightarrow> bytes \<Rightarrow> ('w, 'x, u64) remote_op" where
  "remote_delete R C ns key = remote (rx_ext R) (client_delete C ns key) Inr"

definition put_if_args :: "'x remote_ext \<Rightarrow> string \<Rightarrow> bytes \<Rightarrow> bytes \<Rightarrow> 'x option \<Rightarrow> u64 \<Rightarrow> string list" where
  "put_if_args R ns key val metadata expected =
     [''PUTIF'', ns, from_utf8_lossy key, from_utf8_lossy val, ''EXPECT'', u64_to_string expected] @
     (case metadata of
        Some m \<Rightarrow> [''META'', json_to_string (rx_ext R) (metadata_to_json (rx_ext R) m)]
      | None \<Rightarrow> [])"

definition remote_put_if_version :: "'x remote_ext \<Rightarrow> 'w connection \<Rightarrow> string \<Rightarrow> bytes \<Rightarrow> bytes \<Rightarrow> 'x option \<Rightarrow>
    u64 \<Rightarrow> ('w, 'x, u64) remote_op" where
  "remote_put_if_version R C ns key val metadata expected = remote (rx_ext R)
     (send_command C (put_if_args R ns key val metadata expected))
     (server_error_or (rx_ext R) (raw_int_field ''version''))"

definition remote_delete_if_version :: "'x remote_ext \<Rightarrow> 'w connection \<Rightarrow> string \<Rightarrow> bytes \<Rightarrow> u64 \<Rightarrow>
    ('w, 'x, u64) remote_op" where
  "remote_delete_if_version R C ns key expected = remote (rx_ext R)
     (send_command C [''DELIF'', ns, from_utf8_lossy key, ''EXPECT'', u64_to_string expected])
     (server_error_or (rx_ext R) (raw_int_field ''version''))"

definition remote_delete_prefix :: "'x remote_ext \<Rightarrow> 'w connection \<Rightarrow> string \<Rightarrow> bytes \<Rightarrow> ('w, 'x, u64) remote_op" where
  "remote_delete_prefix R C ns pre = remote (rx_ext R)
     (send_command C [''DELPREFIX'', ns, from_utf8_lossy pre])
     (server_error_or (rx_ext R) (raw_int_field ''deleted''))"

definition list_args :: "string \<Rightarrow> bytes option \<Rightarrow> string option \<Rightarrow> usize \<Rightarrow> string list" where
  "list_args ns pre cursor limit =
     [''LIST'', ns] @
     (case pre of Some p \<Rightarrow> [''PREFIX'', from_utf8_lossy p] | None \<Rightarrow> []) @
     (case cursor of Some c \<Rightarrow> [''CURSOR'', c] | None \<Rightarrow> []) @
     [''LIMIT'', u64_to_string limit]"

text \<open>The page in the field \<open>name\<close> of a response.\<close>

definition page_field :: "string \<Rightarrow> response \<Rightarrow> 'x store_error + page" where
  "page_field name resp =
     try_res (ok_or (get_field resp name) (SE_Storage (''missing '' @ name @ '' field''))) (\<lambda>f.
       Inr \<lparr>p_keys = string_items f, p_cursor = get_string_field resp ''cursor''\<rparr>)"

definition remote_list :: "'x remote_ext \<Rightarrow> 'w connection \<Rightarrow> string \<Rightarrow> bytes option \<Rightarrow> string option \<Rightarrow> usize \<Rightarrow>
    ('w, 'x, page) remote_op" where
  "remote_list R C ns pre cursor limit = remote (rx_ext R)
     (send_command C (list_args ns pre cursor limit)) (page_field ''keys'')"

definition versions_args :: "string \<Rightarrow> bytes \<Rightarrow> usize \<Rightarrow> u64 option \<Rightarrow> string list" where
  "versions_args ns key limit from_version =
     [''VERSIONS'', ns, from_utf8_lossy key, ''LIMIT'', u64_to_string limit] @
     (case from_version of Some v \<Rightarrow> [''FROM'', u64_to_string v] | None \<Rightarrow> [])"

definition remote_version_info :: "response \<Rightarrow> version_info" where
  "remote_version_info item =
     \<lparr>vi_version = (case get_int_field item ''version'' of Some n \<Rightarrow> n | None \<Rightarrow> 0),
      vi_state = (if (case get_string_field item ''state'' of Some s \<Rightarrow> s | None \<Rightarrow> []) = ''deleted'' then Deleted else Active),
      vi_updated_at = (case get_int_field item ''updated_at'' of Some n \<Rightarrow> n | None \<Rightarrow> 0),
      vi_actor = (case get_string_field item ''actor'' of Some s \<Rightarrow> s | None \<Rightarrow> [])\<rparr>"

definition remote_versions :: "'x remote_ext \<Rightarrow> 'w connection \<Rightarrow> string \<Rightarrow> bytes \<Rightarrow> usize \<Rightarrow> u64 option \<Rightarrow>
    ('w, 'x, version_info list) remote_op" where
  "remote_versions R C ns key limit from_version = remote (rx_ext R)
     (send_command C (versions_args ns key limit from_version))
     (\<lambda>resp. try_res (ok_or (get_field resp ''versions'') (SE_Storage ''missing versions field'')) (\<lambda>f.
        case f of
          RArray items \<Rightarrow> Inr (map remote_version_info items)
        | _ \<Rightarrow> Inl (SE_Storage ''versions not an array'')))"

definition config_args :: "'x remote_ext \<Rightarrow> 'x namespace_config \<Rightarrow> string list" where
  "config_args R config =
     (case nc_max_versions config of Some v \<Rightarrow> [''MAX_VERSIONS'', u64_to_string v] | None \<Rightarrow> []) @
     (case nc_tombstone_retention_secs config of Some r \<Rightarrow> [''TOMBSTONE_RETENTION'', u64_to_string r] | None \<Rightarrow> []) @
     (case nc_meta_schema config of
        Some schema \<Rightarrow> [''SCHEMA'', (case rx_schema_to_string R schema of Inr s \<Rightarrow> s | Inl _ \<Rightarrow> [])]
      | None \<Rightarrow> [])"

text \<open>The decoding of responses that only say whether a request succeeded.\<close>

definition ok_response :: "'x ext \<Rightarrow> response \<Rightarrow> 'x store_error + unit" where
  "ok_response X resp = map_err (client_err X) (check_ok resp)"

definition remote_namespace_create :: "'x remote_ext \<Rightarrow> 'w connection \<Rightarrow> string \<Rightarrow> 'x namespace_config \<Rightarrow>
    ('w, 'x, unit) remote_op" where
  "remote_namespace_create R C ns config = remote (rx_ext R)
     (send_command C ([''NAMESPACE'', ''CREATE'', ns] @ config_args R config)) (ok_response (rx_ext R))"

definition remote_namespace_drop :: "'x remote_ext \<Rightarrow> 'w connection \<Rightarrow> string \<Rightarrow> bool \<Rightarrow> ('w, 'x, unit) remote_op" where
  "remote_namespace_drop R C ns force = remote (rx_ext R) (client_namespace_drop C ns force) Inr"

definition remote_namespace_list :: "'x remote_ext \<Rightarrow> 'w connection \<Rightarrow> string option \<Rightarrow> usize \<Rightarrow>
    ('w, 'x, page) remote_op" where
  "remote_namespace_list R C cursor limit = remote (rx_ext R)
     (send_command C ([''NAMESPACE'', ''LIST''] @
        (case cursor of Some c \<Rightarrow> [''CURSOR'', c] | None \<Rightarrow> []) @ [''LIMIT'', u64_to_string limit]))
     (page_field ''namespaces'')"

record 'x full_namespace_info = namespace_info +
  ni_config :: "'x namespace_config"

definition default_config :: "'x namespace_config" where
  "default_config = \<lparr>nc_meta_schema = None, nc_max_versions = None, nc_tombstone_retention_secs = None\<rparr>"

definition remote_namespace_info :: "'x remote_ext \<Rightarrow> 'w connection \<Rightarrow> string \<Rightarrow>
    ('w, 'x, 'x full_namespace_info) remote_op" where
  "remote_namespace_info R C ns = remote (rx_ext R) (client_get_namespace_info C ns)
     (\<lambda>info. Inr \<lparr>ni_name = cni_name info, ni_key_count = cni_key_count info,
        ni_created_at = cni_created_at info, ni_config = default_config\<rparr>)"

definition remote_namespace_alter :: "'x remote_ext \<Rightarrow> 'w connection \<Rightarrow> string \<Rightarrow> 'x namespace_config \<Rightarrow>
    ('w, 'x, unit) remote_op" where
  "remote_namespace_alter R C ns config = remote (rx_ext R)
     (send_command C ([''NAMESPACE'', ''ALTER'', ns] @ config_args R config)) (ok_response (rx_ext R))"

definition remote_namespace_validate :: "'x remote_ext \<Rightarrow> 'w connection \<Rightarrow> string \<Rightarrow>
    ('w, 'x, 'x validation_report list) remote_op" where
  "remote_namespace_validate R C ns = remote (rx_ext R)
     (send_command C [''NAMESPACE'', ''VALIDATE'', ns])
     (\<lambda>resp. try_res (ok_response (rx_ext R) resp) (\<lambda>_. Inr []))"

subsection \<open>Pipelines\<close>

text \<open>\<open>PipelineCommand\<close>; the last argument of a put or a get stands for its fields that are not sent.\<close>

datatype 'x pipeline_command =
    PcPut string bytes bytes 'x
  | PcGet string bytes 'x
  | PcDelete string bytes
  | PcPutIfVersion string bytes bytes u64 'x
  | PcDeleteIfVersion string bytes u64

datatype 'x pipeline_result =
    PrPut u64
  | PrGet "'x full_entry"
  | PrDelete u64

definition pipeline_args :: "'x pipeline_command \<Rightarrow> string list" where
  "pipeline_args cmd = (case cmd of
     PcPut ns key val _ \<Rightarrow> [''PUT'', ns, from_utf8_lossy key, from_utf8_lossy val]
   | PcGet ns key _ \<Rightarrow> [''GET'', ns, from_utf8_lossy key]
   | PcDelete ns key \<Rightarrow> [''DELETE'', ns, from_utf8_lossy key]
   | PcPutIfVersion ns key val expected _ \<Rightarrow>
       [''PUTIF'', ns, from_utf8_lossy key, from_utf8_lossy val, ''EXPECT'', u64_to_string expected]
   | PcDeleteIfVersion ns key expected \<Rightarrow>
       [''DELIF'', ns, from_utf8_lossy key, ''EXPECT'', u64_to_string expected])"

definition version_or_zero :: "response \<Rightarrow> u64" where
  "version_or_zero resp = (case get_int_field resp ''version'' of Some v \<Rightarrow> v | None \<Rightarrow> 0)"

definition string_or_empty :: "response \<Rightarrow> string \<Rightarrow> string" where
  "string_or_empty resp name = (case get_string_field resp name of Some s \<Rightarrow> s | None \<Rightarrow> [])"

definition pipeline_decode :: "'x remote_ext \<Rightarrow> 'x pipeline_command \<Rightarrow> response \<Rightarrow> 'x pipeline_result" where
  "pipeline_decode R cmd resp = (case cmd of
     PcPut _ _ _ _ \<Rightarrow> PrPut (version_or_zero resp)
   | PcGet _ _ _ \<Rightarrow> PrGet \<lparr>e_key = string_or_empty resp ''key'', e_value = string_or_empty resp ''value'',
       e_metadata = rx_metadata_default R, e_version = version_or_zero resp, e_created_at = 0, e_updated_at = 0\<rparr>
   | PcDelete _ _ \<Rightarrow> PrDelete (version_or_zero resp)
   | PcPutIfVersion _ _ _ _ _ \<Rightarrow> PrPut (version_or_zero resp)
   | PcDeleteIfVersion _ _ _ \<Rightarrow> PrDelete (version_or_zero resp))"

definition remote_pipeline :: "'x remote_ext \<Rightarrow> 'w connection \<Rightarrow> 'x pipeline_command list \<Rightarrow>
    ('w, 'x, 'x pipeline_result list) remote_op" where
  "remote_pipeline R C commands = remote (rx_ext R) (client_pipeline C (map pipeline_args commands) None)
     (\<lambda>results. Inr (map (\<lambda>(cmd, resp). pipeline_decode R cmd resp) (zip commands results)))"

section \<open>Subscriptions\<close>

definition parse_push_frame :: "response \<Rightarrow> subscription_event option" where
  "parse_push_frame resp = (case resp of
     RArray items \<Rightarrow>
       if length items < 7 then None
       else Option.bind (as_str (items ! 0)) (\<lambda>label.
         if label \<noteq> ''subscribe'' then None
         else Option.bind (Option.bind (as_str (items ! 1)) (\<lambda>e.
             if e = ''put'' then Some EvPut else if e = ''delete'' then Some EvDelete else None)) (\<lambda>event.
           Option.bind (as_str (items ! 2)) (\<lambda>namespace.
           Option.bind (as_str (items ! 3)) (\<lambda>key.
           Option.bind (as_int (items ! 4)) (\<lambda>version.
           Option.bind (as_str (items ! 5)) (\<lambda>actor.
           Option.bind (as_int (items ! 6)) (\<lambda>timestamp.
             Some \<lparr>se_event = event, se_namespace = namespace, se_key = key, se_version = version,
                   se_actor = actor, se_timestamp = timestamp\<rparr>)))))))
   | _ \<Rightarrow> None)"

text \<open>\<open>join\<close> of strings with a separator.\<close>

fun separate_with :: "string \<Rightarrow> string list \<Rightarrow> string list" where
  "separate_with sep (x # y # ys) = x # sep # separate_with sep (y # ys)"
| "separate_with sep xs = xs"

definition subscribe_args :: "string \<Rightarrow> subscription_filter \<Rightarrow> string list" where
  "subscribe_args ns flt =
     [''SUBSCRIBE'', ns] @
     (case sf_key flt of Some key \<Rightarrow> [''KEY'', from_utf8_lossy key] | None \<Rightarrow> []) @
     (if sf_events flt = [] then []
      else [''EVENTS'', concat (separate_with ''|''
        (map (\<lambda>e. case e of EvPut \<Rightarrow> ''put'' | EvDelete \<Rightarrow> ''delete'') (sf_events flt)))])"

text \<open>\<open>subscribe\<close> up to the confirmation: the dedicated connection that its reader task then reads.\<close>

definition remote_subscribe :: "'x remote_ext \<Rightarrow> (bool \<Rightarrow> string \<Rightarrow> ('w, 'w connection) request) \<Rightarrow>
    connection_config \<Rightarrow> string \<Rightarrow> subscription_filter \<Rightarrow> ('w, 'x, 'w connection) remote_op" where
  "remote_subscribe R connect cfg ns flt w =
     (case remote (rx_ext R) (from_config connect cfg) Inr w of
        (Some (Inr C), w1) \<Rightarrow>
          remote (rx_ext R) (send_command C (subscribe_args ns flt))
            (\<lambda>resp. try_res (ok_response (rx_ext R) resp) (\<lambda>_. Inr C)) w1
      | (r, w1) \<Rightarrow> (r, w1))"

definition subscription_closed :: "response \<Rightarrow> bool" where
  "subscription_closed resp = (case resp of
     RArray items \<Rightarrow> 2 \<le> length items \<and> as_str (items ! 0) = Some ''subscription'' \<and> as_str (items ! 1) = Some ''closed''
   | _ \<Rightarrow> False)"

text \<open>
  The reader task on the bytes that the connection delivers: the events that it sends to the
  subscription handle, whose receiver is dropped after \<open>n\<close> of them.
\<close>

function relay :: "nat \<Rightarrow> bytes \<Rightarrow> subscription_event list" where
  "relay n s =
     (case read_value s of
        Inl _ \<Rightarrow> []
      | Inr (resp, r) \<Rightarrow>
          if subscription_closed resp then []
          else (case parse_push_frame resp of
            None \<Rightarrow> relay n r
          | Some event \<Rightarrow> (case n of 0 \<Rightarrow> [] | Suc m \<Rightarrow> event # relay m r)))"
  by pat_completeness auto
termination
  by (relation "measure (length \<circ> snd)") (auto dest!: read_consumes(1))

declare relay.simps [simp del]

section \<open>Errors over the wire\<close>

lemma ws_len_plain: "33 \<le> byte c \<Longrightarrow> byte c < 128 \<Longrightarrow> ws_len (c # s) = 0"
  by simp

lemma split_ws_plain:
  "(\<And>c. c \<in> set s \<Longrightarrow> 33 \<le> byte c \<and> byte c < 128) \<Longrightarrow> split_ws acc (s @ t) = split_ws (acc @ s) t"
proof (induction s arbitrary: acc)
  case (Cons c s)
  have "ws_len ((c # s) @ t) = 0" using Cons.prems [of c] by (simp add: ws_len_plain)
  with Cons show ?case by simp
qed simp

lemma dec_plain: "c \<in> set (u64_to_string v) \<Longrightarrow> 33 \<le> byte c \<and> byte c < 128"
  using dec_of_nat_range [of c "unat v"] by (simp add: u64_to_string_def)

lemma trim_keyword: "trim_start (CHR ''c'' # r) = CHR ''c'' # r" "trim_start (CHR ''m'' # r) = CHR ''m'' # r"
  by (simp_all add: trim_start_id)

lemma split_prefix_too_large:
  "split_whitespace (''matched='' @ u64_to_string m @ '' limit='' @ u64_to_string l) =
    [''matched='' @ u64_to_string m, ''limit='' @ u64_to_string l]"
proof -
  let ?m = "''matched='' @ u64_to_string m" and ?l = "''limit='' @ u64_to_string l"
  have pm: "33 \<le> byte c \<and> byte c < 128" if "c \<in> set ?m" for c using that dec_plain [of c m] by auto
  have pl: "33 \<le> byte c \<and> byte c < 128" if "c \<in> set ?l" for c using that dec_plain [of c l] by auto
  have "split_ws [] (?m @ CHR '' '' # ?l @ []) = [?m] @ split_ws [] (?l @ [])"
    using split_ws_plain [OF pm, of ?m "[]" "CHR '' '' # ?l @ []"] by simp
  also have "split_ws [] (?l @ []) = [?l]" using split_ws_plain [OF pl, of ?l "[]" "[]"] by simp
  finally show ?thesis by (simp add: split_whitespace_def)
qed

lemma parse_version_conflict_wire:
  "parse_version_conflict (''VERSIONCONFLICT current='' @ u64_to_string v) = Some v"
  by (simp add: parse_version_conflict_def trim_keyword)

lemma parse_prefix_too_large_wire:
  "parse_prefix_too_large (''PREFIXTOOLARGE matched='' @ u64_to_string m @ '' limit='' @ u64_to_string l) = Some (m, l)"
  using split_prefix_too_large [of m l]
  by (simp add: parse_prefix_too_large_def trim_keyword prefix_field_def)

lemma server_err_wire:
  "server_err (command_error_to_string X (VersionConflict v)) = SE_VersionConflict v"
  "server_err (command_error_to_string X (PrefixTooLarge m l)) = SE_PrefixTooLarge m l"
  "server_err (command_error_to_string X NotFound) = SE_NotFound"
  "server_err (command_error_to_string X (NamespaceNotFound ns)) = SE_NotFound"
proof -
  show "server_err (command_error_to_string X (VersionConflict v)) = SE_VersionConflict v"
    by (simp only: server_err_def command_error_to_string.simps parse_version_conflict_wire option.case)
  have "parse_version_conflict (command_error_to_string X (PrefixTooLarge m l)) = None"
    by (simp add: parse_version_conflict_def)
  then show "server_err (command_error_to_string X (PrefixTooLarge m l)) = SE_PrefixTooLarge m l"
    by (simp only: server_err_def command_error_to_string.simps parse_prefix_too_large_wire option.case prod.case)
qed (simp_all add: server_err_def parse_version_conflict_def parse_prefix_too_large_def)

section \<open>Events over the wire\<close>

text \<open>Events that a client can receive: keys are arbitrary bytes, but the client holds them as text.\<close>

definition event_ok :: "subscription_event \<Rightarrow> bool" where
  "event_ok e \<longleftrightarrow> (\<forall>s \<in> {se_namespace e, se_key e, se_actor e}. utf8_valid s \<and> length s < 2 ^ 63)"

lemma push_frame_received:
  assumes "event_ok e"
  shows "\<exists>resp. read_value (write_frame (subscription_event_to_push_frame e) @ r) = Inr (resp, r) \<and>
    \<not> subscription_closed resp \<and> parse_push_frame resp = Some e"
proof -
  let ?f = "subscription_event_to_push_frame e"
  have "client_ok ?f"
    using assms by (simp add: event_ok_def subscription_event_to_push_frame_def Let_def line_ok_def utf8_valid_ascii
        split: event_type.split)
  then have "read_value (write_frame ?f @ r) = Inr (client_view ?f, r)" by (rule client_wire.dec_enc)
  moreover have "\<not> subscription_closed (client_view ?f)" and "parse_push_frame (client_view ?f) = Some e"
    using assms by (simp_all add: event_ok_def subscription_event_to_push_frame_def Let_def subscription_closed_def
        parse_push_frame_def as_str_def as_int_def split: event_type.split)
  ultimately show ?thesis by blast
qed

lemma pong_received:
  "\<exists>resp. read_value (write_frame (ok_frame S (rm_with rm_ok ''message'' (RvString ''PONG''))) @ r) = Inr (resp, r) \<and>
    \<not> subscription_closed resp \<and> parse_push_frame resp = None"
proof -
  let ?f = "ok_frame S (rm_with rm_ok ''message'' (RvString ''PONG''))"
  have "client_ok ?f" and "\<not> subscription_closed (client_view ?f) \<and> parse_push_frame (client_view ?f) = None"
    by (simp_all add: ok_frame_def rm_with_def rm_ok_def response_map_to_frame_def subscription_closed_def parse_push_frame_def)
  then show ?thesis using client_wire.dec_enc [of ?f r] by blast
qed

text \<open>The events that a sequence of connection events delivers.\<close>

definition delivered :: "conn_event list \<Rightarrow> subscription_event list" where
  "delivered evs = List.map_filter (\<lambda>ev. case ev of Message (Some e) _ _ \<Rightarrow> Some e | _ \<Rightarrow> None) evs"

lemma delivered_simps [simp]:
  "delivered [] = []"
  "delivered (Message (Some e) w f # evs) = e # delivered evs"
  "delivered (Frame r w f # evs) = delivered evs"
  by (simp_all add: delivered_def List.map_filter_simps)

lemma relay_frames:
  assumes "list_all2 (serves S) evs frames" and "\<And>e. e \<in> set (delivered evs) \<Longrightarrow> event_ok e"
  shows "relay n (concat (map write_frame frames)) = take n (delivered evs)"
  using assms
proof (induction evs frames arbitrary: n rule: list_all2_induct)
  case Nil
  have "read_value [] = Inl (Fails (Protocol ''connection closed''))"
    by (simp add: read_value.simps client_head_def client_line_def)
  then show ?case by (simp add: relay.simps [of n "[]"])
next
  case (Cons ev evs f frames)
  let ?r = "concat (map write_frame frames)"
  consider (event) e where "ev = Message (Some e) True True" "f = subscription_event_to_push_frame e"
    | (pong) g where "ev = Frame (Inr (Some g)) True True" "f = ok_frame S (rm_with rm_ok ''message'' (RvString ''PONG''))"
    using Cons.hyps(1) by (auto simp: serves_def)
  then show ?case
  proof cases
    case event
    then obtain resp where "read_value (write_frame f @ ?r) = Inr (resp, ?r)" "\<not> subscription_closed resp"
        "parse_push_frame resp = Some e"
      using push_frame_received [of e ?r] Cons.prems by auto
    then show ?thesis using event Cons relay.simps [of n "write_frame f @ ?r"] by (cases n) simp_all
  next
    case pong
    then obtain resp where "read_value (write_frame f @ ?r) = Inr (resp, ?r)" "\<not> subscription_closed resp"
        "parse_push_frame resp = None"
      using pong_received [of S ?r] by auto
    then show ?thesis using pong Cons relay.simps [of n "write_frame f @ ?r"] by simp
  qed
qed

lemma event_filter_joined:
  assumes "CHR ''|'' \<in> set s"
  shows "event_filter [to_ascii_uppercase s] = []"
proof -
  have "CHR ''|'' = to_ascii_lower_char (to_ascii_upper_char CHR ''|'')" by code_simp
  then have "CHR ''|'' \<in> set (to_ascii_lowercase (to_ascii_uppercase s))"
    using assms unfolding to_ascii_lowercase_def to_ascii_uppercase_def by (metis image_eqI list.set_map)
  then have "to_ascii_lowercase (to_ascii_uppercase s) \<notin> {''put'', ''delete''}" by auto
  then show ?thesis by (simp add: event_filter_def List.map_filter_simps Let_def)
qed

lemma separate_with_mem: "2 \<le> length xs \<Longrightarrow> sep \<in> set (separate_with sep xs)"
  by (cases "(sep, xs)" rule: separate_with.cases) auto

lemma separate_with_hd: "\<exists>r. concat (separate_with sep (x # xs)) = x @ r"
  by (cases xs) simp_all

lemma joined_not_key:
  assumes "es \<noteq> []"
  shows "to_ascii_uppercase (concat (separate_with ''|'' (map (\<lambda>e. case e of EvPut \<Rightarrow> ''put'' | EvDelete \<Rightarrow> ''delete'') es))) \<noteq> ''KEY''"
proof -
  obtain e es' where "es = e # es'" using assms by (cases es) auto
  then obtain r where "concat (separate_with ''|'' (map (\<lambda>e. case e of EvPut \<Rightarrow> ''put'' | EvDelete \<Rightarrow> ''delete'') es)) =
      (case e of EvPut \<Rightarrow> ''put'' | EvDelete \<Rightarrow> ''delete'') @ r"
    using separate_with_hd by fastforce
  moreover have "to_ascii_upper_char CHR ''p'' = CHR ''P''" "to_ascii_upper_char CHR ''d'' = CHR ''D''" by code_simp+
  ultimately show ?thesis by (cases e) (simp_all add: to_ascii_uppercase_def)
qed

lemma parse_subscribe_args:
  "parse_flat X (subscribe_args ns flt) = Inr (Subscribe ns (map_option from_utf8_lossy (sf_key flt))
     (if sf_events flt = [] then [] else [to_ascii_uppercase (concat (separate_with ''|''
        (map (\<lambda>e. case e of EvPut \<Rightarrow> ''put'' | EvDelete \<Rightarrow> ''delete'') (sf_events flt))))]))"
proof -
  have "to_ascii_uppercase ''SUBSCRIBE'' = ''SUBSCRIBE''" "to_ascii_uppercase ''KEY'' = ''KEY''"
    "to_ascii_uppercase ''EVENTS'' = ''EVENTS''" by code_simp+
  then show ?thesis
    by (cases "sf_key flt") (auto simp: parse_flat_def subscribe_args_def parse_subscribe_def require_args_def dest: joined_not_key)
qed

section \<open>Properties\<close>

text \<open>
  C27: the errors a client acts on survive the wire: a version conflict of the server's store reaches
  the caller of the remote store with the current version, a refused prefix deletion with both counts,
  and a missing key as missing.
\<close>

theorem client_err_wire:
  "client_err X (Server (command_error_to_string Y (VersionConflict v))) = SE_VersionConflict v \<and>
   client_err X (Server (command_error_to_string Y (PrefixTooLarge m l))) = SE_PrefixTooLarge m l \<and>
   client_err X (Server (command_error_to_string Y NotFound)) = SE_NotFound"
  by (simp only: client_err_def client_error.case server_err_wire)

text \<open>
  The remote store never reports a missing namespace as such. The test for \<open>not found\<close> comes
  before the test for \<open>namespace not found\<close>, so the latter is unreachable and a missing namespace is
  reported as a missing key.
\<close>

lemma client_err_namespace:
  "client_err X e \<noteq> SE_NamespaceNotFound s \<and>
   client_err X (Server (command_error_to_string Y (NamespaceNotFound ns))) = SE_NotFound"
proof
  have "str_contains msg ''namespace not found'' \<Longrightarrow> str_contains msg ''not found''" for msg
  proof -
    assume "str_contains msg ''namespace not found''"
    then obtain a b where "msg = (a @ ''namespace '') @ ''not found'' @ b" by (auto simp: str_contains_iff)
    then show ?thesis unfolding str_contains_iff by blast
  qed
  then show "client_err X e \<noteq> SE_NamespaceNotFound s"
    by (auto simp: client_err_def server_err_def split: client_error.split option.split)
qed (simp only: client_err_def client_error.case server_err_wire)

text \<open>
  C15: a subscription end to end. What a subscribed server connection writes, read by the remote
  store's reader task, gives the subscription's events completely, unchanged and in order, up to the
  point where the receiver is dropped; answers to \<open>PING\<close> in between are skipped.
\<close>

theorem subscription_end_to_end:
  assumes "mode c = Subscribed" and "list_all2 (serves S) evs frames"
    and "\<And>e. e \<in> set (delivered evs) \<Longrightarrow> event_ok e"
  shows "relay n (concat (map write_frame (drop (length (out c)) (out (fst (fold (conn_step S) evs (c, st))))))) =
    take n (delivered evs)"
  using subscription_frames [OF assms(1,2), of st] relay_frames [OF assms(2,3)] by simp

theorem subscription_end_to_end_witness:
  "relay 5 (concat (map write_frame (drop (length (out \<lparr>mode = Subscribed, auth = Some ''admin'', limiter = None, out = []\<rparr>))
      (out (fst (fold (conn_step demo_server)
        [Message (Some \<lparr>se_event = EvPut, se_namespace = ''n'', se_key = ''k'', se_version = 1, se_actor = ''a'', se_timestamp = 0\<rparr>) True True]
        (\<lparr>mode = Subscribed, auth = Some ''admin'', limiter = None, out = []\<rparr>, demo_state))))))) =
   take 5 (delivered [Message (Some \<lparr>se_event = EvPut, se_namespace = ''n'', se_key = ''k'', se_version = 1, se_actor = ''a'', se_timestamp = 0\<rparr>) True True])"
  by (rule subscription_end_to_end [where frames = "[subscription_event_to_push_frame
      \<lparr>se_event = EvPut, se_namespace = ''n'', se_key = ''k'', se_version = 1, se_actor = ''a'', se_timestamp = 0\<rparr>]"])
    (simp_all add: serves_def event_ok_def utf8_valid_ascii)

text \<open>
  A subscription with at most one event type reaches the server's store with exactly the filter
  that the caller of the remote store gave.
\<close>

lemma subscribe_filter_roundtrip:
  assumes "length (sf_events flt) \<le> 1" and "\<And>k. sf_key flt = Some k \<Longrightarrow> utf8_valid k"
  shows "\<exists>events. parse_flat X (subscribe_args ns flt) = Inr (Subscribe ns (sf_key flt) events) \<and>
    event_filter events = sf_events flt"
proof -
  have key: "map_option from_utf8_lossy (sf_key flt) = sf_key flt" using assms(2) by (cases "sf_key flt") simp_all
  have ev: "event_filter [to_ascii_uppercase ''put''] = [EvPut]" "event_filter [to_ascii_uppercase ''delete''] = [EvDelete]"
    "event_filter [] = []" by code_simp+
  obtain es where "sf_events flt = es" and "es = [] \<or> es = [EvPut] \<or> es = [EvDelete]"
    using assms(1) by (metis (full_types) One_nat_def event_type.exhaust le_SucE le_zero_eq length_0_conv length_Suc_conv)
  then show ?thesis using ev parse_subscribe_args [of X ns flt] key by auto
qed

text \<open>
  The filter of a subscription to several event types is lost: the client joins the types into one
  argument, which the server does not recognise, so the filter it uses has no event type at all.
\<close>

lemma subscribe_filter_lost:
  assumes "2 \<le> length (sf_events flt)"
  shows "\<exists>key events. parse_flat X (subscribe_args ns flt) = Inr (Subscribe ns key events) \<and> event_filter events = []"
proof -
  let ?j = "concat (separate_with ''|'' (map (\<lambda>e. case e of EvPut \<Rightarrow> ''put'' | EvDelete \<Rightarrow> ''delete'') (sf_events flt)))"
  have "''|'' \<in> set (separate_with ''|'' (map (\<lambda>e. case e of EvPut \<Rightarrow> ''put'' | EvDelete \<Rightarrow> ''delete'') (sf_events flt)))"
    using assms by (intro separate_with_mem) simp
  then have "CHR ''|'' \<in> set ?j" unfolding set_concat by (rule UN_I) simp
  from event_filter_joined [OF this] parse_subscribe_args [of X ns flt] assms show ?thesis by auto
qed

end
