(* ===== verification/Cli.thy ===== *)
theory Cli
  imports Remote_Store
begin

text \<open>
  The command line client, \<open>shroudb-cli/src/main.rs\<close>: the completion of command names, the splitting of
  an input line into words, what is done with a line, the output of a response, and \<open>main\<close> with the
  read-eval-print loop. The line editor and the argument parser are third-party: their results are
  arguments. The help texts are in the theory \<open>Cli_Help\<close>. The characters with a meaning are ASCII, so
  the splitting works on bytes.
\<close>

section \<open>Completion\<close>

text \<open>
  \<open>to_uppercase\<close>, exact wherever the result is ASCII: besides the letters, dotless i, long s, sharp s and
  the Latin ligatures. The other characters do not become ASCII and are left as they are.
\<close>

definition upper_two :: "char \<Rightarrow> char \<Rightarrow> string option" where
  "upper_two a b =
     (if byte a = 0xC4 \<and> byte b = 0xB1 then Some ''I''
      else if byte a = 0xC5 \<and> byte b = 0xBF then Some ''S''
      else if byte a = 0xC3 \<and> byte b = 0x9F then Some ''SS'' else None)"

definition upper_three :: "char \<Rightarrow> char \<Rightarrow> char \<Rightarrow> string option" where
  "upper_three a b c =
     (if byte a = 0xEF \<and> byte b = 0xAC \<and> 0x80 \<le> byte c \<and> byte c \<le> 0x86
      then Some ([''FF'', ''FI'', ''FL'', ''FFI'', ''FFL'', ''ST'', ''ST''] ! (byte c - 0x80)) else None)"

fun to_uppercase :: "string \<Rightarrow> string" where
  "to_uppercase [] = []"
| "to_uppercase [a] = [to_ascii_upper_char a]"
| "to_uppercase [a, b] = (case upper_two a b of Some t \<Rightarrow> t | None \<Rightarrow> [to_ascii_upper_char a, to_ascii_upper_char b])"
| "to_uppercase (a # b # c # s) =
     (case upper_two a b of
        Some t \<Rightarrow> t @ to_uppercase (c # s)
      | None \<Rightarrow> (case upper_three a b c of
          Some t \<Rightarrow> t @ to_uppercase s
        | None \<Rightarrow> to_ascii_upper_char a # to_uppercase (b # c # s)))"

lemma to_uppercase_ascii: "(\<And>c. c \<in> set s \<Longrightarrow> byte c < 128) \<Longrightarrow> to_uppercase s = to_ascii_uppercase s"
proof (induction s rule: to_uppercase.induct)
  case (3 a b)
  then have "byte a < 128" by simp
  then show ?case by (simp add: upper_two_def to_ascii_uppercase_def)
next
  case (4 a b c s)
  then have "byte a < 128" by simp
  then have n: "upper_two a b = None" "upper_three a b c = None" by (simp_all add: upper_two_def upper_three_def)
  with 4 show ?case by (simp add: to_ascii_uppercase_def)
qed (simp_all add: to_ascii_uppercase_def)

definition COMMANDS :: "string list" where
  "COMMANDS =
     [''AUTH'', ''PING'', ''PUT'', ''PUTIF'', ''GET'', ''DELETE'', ''DELIF'', ''DELPREFIX'', ''LIST'', ''VERSIONS'', ''NAMESPACE'',
      ''PIPELINE'', ''SUBSCRIBE'', ''UNSUBSCRIBE'', ''HEALTH'', ''CONFIG'', ''COMMAND'', ''help'', ''quit'', ''exit'']"

text \<open>\<open>rfind\<close> of a blank, plus one, or zero: where the word at the end of a text starts.\<close>

definition word_start :: "string \<Rightarrow> nat" where
  "word_start s = length (dropWhile (\<lambda>c. c \<noteq> CHR '' '') (rev s))"

definition complete :: "string \<Rightarrow> nat \<Rightarrow> nat \<times> string list" where
  "complete line pos =
     (let start = word_start (take pos line);
          pre = drop start (take pos line)
      in (start, filter (\<lambda>c. prefix (to_uppercase pre) (to_uppercase c)) COMMANDS))"

section \<open>Splitting a line\<close>

datatype quoting = NormalQ | DoubleQuote | SingleQuote

definition flush_word :: "string \<Rightarrow> string list" where
  "flush_word current = (if current = [] then [] else [current])"

fun shell_words_loop :: "quoting \<Rightarrow> string \<Rightarrow> string \<Rightarrow> string list" where
  "shell_words_loop state current [] = flush_word current"
| "shell_words_loop NormalQ current (ch # chars) =
     (if ch = CHR 0x22 then shell_words_loop DoubleQuote current chars
      else if ch = CHR 0x27 then shell_words_loop SingleQuote current chars
      else if ch = CHR '' '' \<or> ch = CHR 0x09 then flush_word current @ shell_words_loop NormalQ [] chars
      else shell_words_loop NormalQ (current @ [ch]) chars)"
| "shell_words_loop DoubleQuote current (ch # chars) =
     (if ch = CHR 0x22 then shell_words_loop NormalQ current chars
      else if ch = CHR 0x5C then
        (case chars of
           next # chars' \<Rightarrow>
             if next = CHR 0x22 \<or> next = CHR 0x5C then shell_words_loop DoubleQuote (current @ [next]) chars'
             else shell_words_loop DoubleQuote (current @ [ch]) chars
         | [] \<Rightarrow> shell_words_loop DoubleQuote (current @ [ch]) chars)
      else shell_words_loop DoubleQuote (current @ [ch]) chars)"
| "shell_words_loop SingleQuote current (ch # chars) =
     (if ch = CHR 0x27 then shell_words_loop NormalQ current chars
      else shell_words_loop SingleQuote (current @ [ch]) chars)"

definition shell_words :: "string \<Rightarrow> string list" where
  "shell_words input = shell_words_loop NormalQ [] input"

section \<open>The read-eval-print loop\<close>

text \<open>What the loop does with a trimmed line.\<close>

datatype repl_action = Skip | CommandHelp string | Help | Quit | Send "string list"

definition repl_line :: "string \<Rightarrow> repl_action" where
  "repl_line line =
     (if line = [] then Skip
      else case (case strip_prefix ''help '' line of Some cmd \<Rightarrow> Some cmd | None \<Rightarrow> strip_prefix ''HELP '' line) of
        Some cmd \<Rightarrow> CommandHelp (trim cmd)
      | None \<Rightarrow>
          if eq_ignore_ascii_case line ''help'' then Help
          else if eq_ignore_ascii_case line ''quit'' \<or> eq_ignore_ascii_case line ''exit'' then Quit
          else Send (shell_words line))"

datatype output_mode = Human | Json | Raw

definition output_mode_of :: "bool \<Rightarrow> bool \<Rightarrow> output_mode" where
  "output_mode_of raw json = (if raw then Raw else if json then Json else Human)"

text \<open>Standard output and standard error; \<open>pretty\<close> is the JSON crate's pretty printer.\<close>

definition print_output :: "'j json_ops \<Rightarrow> ('j \<Rightarrow> string + string) \<Rightarrow> response \<Rightarrow> output_mode \<Rightarrow> string \<times> string" where
  "print_output J pretty resp om = (case om of
     Human \<Rightarrow> (print_response 0 resp, [])
   | Json \<Rightarrow> (case pretty (to_json J resp) of
       Inr s \<Rightarrow> (s @ [LF], [])
     | Inl e \<Rightarrow> ([], ''(JSON serialization error: '' @ e @ '')'' @ [LF]))
   | Raw \<Rightarrow> (to_raw resp, []))"

text \<open>The connection that \<open>main\<close> opens; the response to \<open>AUTH\<close> is read and dropped.\<close>

definition cli_connect :: "(bool \<Rightarrow> string \<Rightarrow> ('w, 'w connection) request) \<Rightarrow> string option \<Rightarrow> string \<Rightarrow> u16 \<Rightarrow> bool \<Rightarrow>
    ('w, string \<times> 'w connection) request" where
  "cli_connect connect uri host port tls w = (case uri of
     Some u \<Rightarrow> (case parse_uri u of
         Inl e \<Rightarrow> (Inl (Fails e), w)
       | Inr config \<Rightarrow> (case connect (cc_tls config) (config_addr config) w of
           (Inl e, w1) \<Rightarrow> (Inl e, w1)
         | (Inr C, w1) \<Rightarrow> (case cc_auth_token config of
             None \<Rightarrow> (Inr (config_addr config, C), w1)
           | Some token \<Rightarrow> (case send_command C [''AUTH'', token] w1 of
               (Inl e, w2) \<Rightarrow> (Inl e, w2)
             | (Inr _, w2) \<Rightarrow> (Inr (config_addr config, C), w2)))))
   | None \<Rightarrow> (case connect tls (host @ '':'' @ dec_of_nat (unat port)) w of
       (Inl e, w1) \<Rightarrow> (Inl e, w1)
     | (Inr C, w1) \<Rightarrow> (Inr (host @ '':'' @ dec_of_nat (unat port), C), w1)))"

section \<open>Quoting\<close>

text \<open>A word in double quotes, with its quotes and backslashes escaped.\<close>

fun escape :: "string \<Rightarrow> string" where
  "escape [] = []"
| "escape (c # cs) = (if c = CHR 0x22 \<or> c = CHR 0x5C then [CHR 0x5C, c] else [c]) @ escape cs"

definition quote :: "string \<Rightarrow> string" where
  "quote w = CHR 0x22 # escape w @ [CHR 0x22]"

lemma shell_words_escape:
  "shell_words_loop DoubleQuote current (escape w @ CHR 0x22 # rest) = shell_words_loop NormalQ (current @ w) rest"
proof (induction w arbitrary: current)
  case (Cons c w)
  show ?case
  proof (cases "c = CHR 0x22 \<or> c = CHR 0x5C")
    case True
    then show ?thesis using Cons by auto
  next
    case False
    then show ?thesis using Cons by simp
  qed
qed simp

text \<open>
  The empty word cannot be typed: quotes with nothing between them add nothing to the line, so a
  quoted empty value is dropped and the command is sent with one argument less.
\<close>

lemma shell_words_drop_empty: "shell_words (quote [] @ '' '' @ rest) = shell_words rest"
  by (simp add: shell_words_def quote_def flush_word_def)

text \<open>Any command name is offered as the completion of any beginning of it, wherever in the line it stands.\<close>

lemma commands_plain: "list_all (list_all (\<lambda>c. byte c < 128 \<and> c \<noteq> CHR '' '')) COMMANDS"
  by code_simp

lemma complete_offers:
  assumes "c \<in> set COMMANDS" and "n \<le> length c"
  shows "fst (complete (l @ '' '' @ take n c @ rest) (length l + 1 + n)) = length l + 1"
    and "c \<in> set (snd (complete (l @ '' '' @ take n c @ rest) (length l + 1 + n)))"
proof -
  have plain: "byte x < 128" "x \<noteq> CHR '' ''" if "x \<in> set c" for x
    using commands_plain assms(1) that by (auto simp: list_all_iff)
  let ?typed = "l @ '' '' @ take n c"
  have pos: "take (length l + 1 + n) (l @ '' '' @ take n c @ rest) = ?typed" using assms(2) by simp
  have "CHR '' '' \<notin> set (take n c)" using plain(2) [of "CHR '' ''"] by (auto dest: in_set_takeD)
  then have "dropWhile (\<lambda>c. c \<noteq> CHR '' '') (rev (take n c) @ CHR '' '' # rev l) = CHR '' '' # rev l"
    by (subst dropWhile_append2) auto
  then have start: "word_start ?typed = length l + 1" by (simp add: word_start_def)
  have "to_uppercase (take n c) = to_ascii_uppercase (take n c)" "to_uppercase c = to_ascii_uppercase c"
    using plain by (auto intro!: to_uppercase_ascii dest: in_set_takeD)
  then have "prefix (to_uppercase (take n c)) (to_uppercase c)"
    by (simp add: to_ascii_uppercase_def take_is_prefix flip: take_map)
  then show "fst (complete (l @ '' '' @ take n c @ rest) (length l + 1 + n)) = length l + 1"
    and "c \<in> set (snd (complete (l @ '' '' @ take n c @ rest) (length l + 1 + n)))"
    using assms(1) by (simp_all only: complete_def pos start Let_def fst_conv snd_conv) simp
qed

end
