(* ===== verification/Cli_Help.thy ===== *)
theory Cli_Help
  imports Cli Command_Syntax
begin

text \<open>
  The help of the command line client, \<open>print_help\<close> and \<open>print_command_help\<close> of
  \<open>shroudb-cli/src/main.rs\<close>, as lists of lines. The examples in it are checked against the command
  parser of the server.
\<close>

section \<open>Texts\<close>

definition EM_DASH :: string where
  "EM_DASH = [CHR 0xE2, CHR 0x80, CHR 0x94]"

definition help_text :: "string list" where
  "help_text = [
     [],
     ''Commands:'',
     [],
     ''  Data Operations'',
     ''    PUT <ns> <key> <value>'',
     ''    PUT <ns> <key> VALUE <value> META <json>'',
     ''    GET <ns> <key> [VERSION <n>] [META]'',
     ''    DELETE <ns> <key>'',
     ''    LIST <ns> [PREFIX <prefix>] [CURSOR <cursor>] [LIMIT <n>]'',
     ''    VERSIONS <ns> <key> [LIMIT <n>] [FROM <version>]'',
     [],
     ''  Namespace Operations'',
     ''    NAMESPACE CREATE <name> [SCHEMA <json>] [MAX_VERSIONS <n>] [TOMBSTONE_RETENTION <secs>]'',
     ''    NAMESPACE DROP <name> [FORCE]'',
     ''    NAMESPACE LIST [CURSOR <cursor>] [LIMIT <n>]'',
     ''    NAMESPACE INFO <name>'',
     ''    NAMESPACE ALTER <name> [SCHEMA <json>] [MAX_VERSIONS <n>] [TOMBSTONE_RETENTION <secs>]'',
     ''    NAMESPACE VALIDATE <name>'',
     [],
     ''  Operational'',
     ''    AUTH <token>'',
     ''    PING'',
     ''    HEALTH'',
     ''    CONFIG GET <key>'',
     ''    CONFIG SET <key> <value>'',
     ''    COMMAND LIST'',
     [],
     ''  Other'',
     ''    help [<command>]   Show help for a specific command'',
     ''    quit / exit        Disconnect'']"

definition help_put :: "string list" where
  "help_put = [
     ''PUT <namespace> <key> <value>'',
     ''PUT <namespace> <key> VALUE <value> META <json> TTL <ms>'',
     [],
     ''  Store a value at the given key. Auto-increments the version.'',
     [],
     ''  TTL  Optional expiry in milliseconds. The entry is auto-deleted'',
     ''       at or after (server wall clock + TTL). Entry-level; a later'',
     ''       PUT/PUTIF without TTL writes a TTL-less entry '' @ EM_DASH @ '' TTL is NOT'',
     ''       inherited across writes.'',
     [],
     ''  Example:'',
     ''    PUT myapp.users user:1 alice'',
     ''    PUT myapp.users user:1 VALUE alice META '' @ [CHR 0x27] @ ''{'' @ [CHR 0x22] @ ''role'' @ [CHR 0x22] @ '':'' @ [CHR 0x22] @ ''admin'' @ [CHR 0x22] @ ''}'' @ [CHR 0x27],
     ''    PUT myapp.sessions sess:abc token TTL 3600000'']"

definition help_get :: "string list" where
  "help_get = [
     ''GET <namespace> <key> [VERSION <n>] [META]'',
     [],
     ''  Retrieve the value at a key. Returns the latest version by default.'',
     [],
     ''  VERSION  Fetch a specific version.'',
     ''  META     Include metadata in the response.'',
     [],
     ''  Example:'',
     ''    GET myapp.users user:1'',
     ''    GET myapp.users user:1 VERSION 1 META'']"

definition help_delete :: "string list" where
  "help_delete = [
     ''DELETE <namespace> <key>'',
     [],
     ''  Delete a key by writing a tombstone. The key'' @ [CHR 0x27] @ ''s version history'',
     ''  is preserved and accessible via VERSIONS.'',
     [],
     ''  Example:'',
     ''    DELETE myapp.sessions sess:abc'']"

definition help_putif :: "string list" where
  "help_putif = [
     ''PUTIF <namespace> <key> <value> EXPECT <version> [META <json>]'',
     [],
     ''  Compare-and-swap PUT. Writes the entry only if the key'' @ [CHR 0x27] @ ''s current'',
     ''  active version matches EXPECT. On mismatch returns:'',
     [],
     ''    -VERSIONCONFLICT current=<actual>'',
     [],
     ''  so the caller can retry without re-reading the key first.'',
     [],
     ''  EXPECT 0 means '' @ [CHR 0x22] @ ''key must not exist or must be tombstoned'' @ [CHR 0x22],
     ''  (insert-or-resurrect). EXPECT N > 0 means '' @ [CHR 0x22] @ ''current version'',
     ''  must equal N'' @ [CHR 0x22] @ '' (strict update; resurrection from a matching'',
     ''  tombstone version also works).'',
     [],
     ''  Example:'',
     ''    PUTIF myapp.users user:1 alice EXPECT 0'',
     ''    PUTIF myapp.users user:1 alice-updated EXPECT 3'']"

definition help_delif :: "string list" where
  "help_delif = [
     ''DELIF <namespace> <key> EXPECT <version>'',
     [],
     ''  Compare-and-swap DELETE. Writes a tombstone only if the key'' @ [CHR 0x27] @ ''s'',
     ''  current active version matches EXPECT. On mismatch returns:'',
     [],
     ''    -VERSIONCONFLICT current=<actual>'',
     [],
     ''  A missing or already-tombstoned key returns -NOTFOUND regardless'',
     ''  of EXPECT.'',
     [],
     ''  Example:'',
     ''    DELIF myapp.sessions sess:abc EXPECT 2'']"

definition help_delprefix :: "string list" where
  "help_delprefix = [
     ''DELPREFIX <namespace> <prefix>'',
     [],
     ''  Tombstone all active keys in the namespace whose byte'',
     ''  representation starts with <prefix>. Returns {deleted: <count>}.'',
     [],
     ''  Empty prefix is rejected '' @ EM_DASH @ '' use NAMESPACE DROP for full teardown.'',
     ''  If the prefix matches more than the configured per-call cap'',
     ''  (default 100,000), returns:'',
     [],
     ''    -PREFIXTOOLARGE matched=<n> limit=<m>'',
     [],
     ''  and no keys are deleted. The caller refines the prefix and'',
     ''  retries.'',
     [],
     ''  Example:'',
     ''    DELPREFIX myapp.sessions user:alice:'']"

definition help_list :: "string list" where
  "help_list = [
     ''LIST <namespace> [PREFIX <prefix>] [CURSOR <cursor>] [LIMIT <n>]'',
     [],
     ''  List active keys in a namespace. Tombstoned keys are excluded.'',
     [],
     ''  Example:'',
     ''    LIST myapp.users PREFIX user: LIMIT 50'']"

definition help_versions :: "string list" where
  "help_versions = [
     ''VERSIONS <namespace> <key> [LIMIT <n>] [FROM <version>]'',
     [],
     ''  Show version history for a key, including tombstones.'',
     ''  Most recent versions first. Does not include values.'',
     [],
     ''  Example:'',
     ''    VERSIONS myapp.users user:1 LIMIT 5'']"

definition help_namespace :: "string list" where
  "help_namespace = [
     ''NAMESPACE CREATE <name> [SCHEMA <json>] [MAX_VERSIONS <n>] [TOMBSTONE_RETENTION <secs>]'',
     ''NAMESPACE DROP <name> [FORCE]'',
     ''NAMESPACE LIST [CURSOR <cursor>] [LIMIT <n>]'',
     ''NAMESPACE INFO <name>'',
     ''NAMESPACE ALTER <name> [SCHEMA <json>] [MAX_VERSIONS <n>]'',
     ''NAMESPACE VALIDATE <name>'',
     [],
     ''  Manage namespaces. CREATE and DROP require admin access.'',
     ''  VALIDATE checks existing entries against the current schema.'',
     [],
     ''  Example:'',
     ''    NAMESPACE CREATE myapp.users'',
     ''    NAMESPACE INFO myapp.users'',
     ''    NAMESPACE DROP temp FORCE'']"

definition help_auth :: "string list" where
  "help_auth = [
     ''AUTH <token>'',
     [],
     ''  Authenticate the connection. Required before any data command'',
     ''  when the server has auth enabled.'',
     [],
     ''  Example:'',
     ''    AUTH my-secret-token'']"

definition help_config :: "string list" where
  "help_config = [
     ''CONFIG GET <key>'',
     ''CONFIG SET <key> <value>'',
     [],
     ''  Get or set runtime configuration. CONFIG SET requires admin access.'',
     [],
     ''  Example:'',
     ''    CONFIG GET max_connections'']"

definition help_health :: "string list" where
  "help_health = [
     ''HEALTH'',
     [],
     ''  Check server health status.'']"

definition help_ping :: "string list" where
  "help_ping = [
     ''PING'',
     [],
     ''  Test connectivity. Returns PONG.'']"

definition help_topics :: "(string \<times> string list) list" where
  "help_topics =
     [(''PUT'', help_put),
      (''GET'', help_get),
      (''DELETE'', help_delete),
      (''PUTIF'', help_putif),
      (''DELIF'', help_delif),
      (''DELPREFIX'', help_delprefix),
      (''LIST'', help_list),
      (''VERSIONS'', help_versions),
      (''NAMESPACE'', help_namespace),
      (''AUTH'', help_auth),
      (''CONFIG'', help_config),
      (''HEALTH'', help_health),
      (''PING'', help_ping)]"

text \<open>What is written: the lines of the raw string, and the line break of \<open>println\<close>.\<close>

definition unlines :: "string list \<Rightarrow> string" where
  "unlines ls = concat (map (\<lambda>l. l @ [LF]) ls)"

definition print_help :: string where
  "print_help = unlines help_text @ [LF]"

definition print_command_help :: "string \<Rightarrow> string" where
  "print_command_help cmd =
     (case map_of help_topics (to_uppercase cmd) of
        Some ls \<Rightarrow> unlines ls @ [LF]
      | None \<Rightarrow> ''Unknown command: '' @ cmd @ ''. Type '' @ [CHR 0x27] @ ''help'' @ [CHR 0x27] @ '' for all commands.'' @ [LF])"

section \<open>Examples\<close>

text \<open>The lines after \<open>Example:\<close>, and the command that the server parses when one is typed.\<close>

definition examples :: "string list \<Rightarrow> string list" where
  "examples ls = tl (dropWhile (\<lambda>l. l \<noteq> ''  Example:'') ls)"

definition typed :: "'x ext \<Rightarrow> string \<Rightarrow> 'x command_error + 'x command" where
  "typed X line = parse_command X (Array (map BulkString (shell_words line)))"

lemma typed_words:
  fixes X :: "'x ext"
  assumes "shell_words line = args" and "list_all (list_all (\<lambda>c. byte c < 128)) args"
    and "args \<noteq> []" and "\<not> eq_ignore_ascii_case (hd args) ''PIPELINE''"
  shows "typed X line = parse_flat X args"
proof -
  have "list_all utf8_valid args" using assms(2) by (simp add: list_all_iff utf8_valid_ascii)
  moreover from this have "collect_res frame_to_string (map BulkString args) = (Inr args :: 'x command_error + string list)"
    by (rule collect_bulk)
  moreover obtain v as where "args = v # as" using assms(3) by (cases args) auto
  ultimately show ?thesis using assms(1,4) by (simp add: typed_def frame_to_string_def)
qed

definition role_admin :: string where
  "role_admin = [CHR ''{'', CHR 0x22] @ ''role'' @ [CHR 0x22] @ '':'' @ [CHR 0x22] @ ''admin'' @ [CHR 0x22] @ ''}''"

lemma example_words:
  "map (\<lambda>(topic, ls). map shell_words (examples ls)) help_topics =
    [[[''PUT'', ''myapp.users'', ''user:1'', ''alice''],
      [''PUT'', ''myapp.users'', ''user:1'', ''VALUE'', ''alice'', ''META'', role_admin],
      [''PUT'', ''myapp.sessions'', ''sess:abc'', ''token'', ''TTL'', ''3600000'']],
     [[''GET'', ''myapp.users'', ''user:1''], [''GET'', ''myapp.users'', ''user:1'', ''VERSION'', ''1'', ''META'']],
     [[''DELETE'', ''myapp.sessions'', ''sess:abc'']],
     [[''PUTIF'', ''myapp.users'', ''user:1'', ''alice'', ''EXPECT'', ''0''],
      [''PUTIF'', ''myapp.users'', ''user:1'', ''alice-updated'', ''EXPECT'', ''3'']],
     [[''DELIF'', ''myapp.sessions'', ''sess:abc'', ''EXPECT'', ''2'']],
     [[''DELPREFIX'', ''myapp.sessions'', ''user:alice:'']],
     [[''LIST'', ''myapp.users'', ''PREFIX'', ''user:'', ''LIMIT'', ''50'']],
     [[''VERSIONS'', ''myapp.users'', ''user:1'', ''LIMIT'', ''5'']],
     [[''NAMESPACE'', ''CREATE'', ''myapp.users''], [''NAMESPACE'', ''INFO'', ''myapp.users''],
      [''NAMESPACE'', ''DROP'', ''temp'', ''FORCE'']],
     [[''AUTH'', ''my-secret-token'']],
     [[''CONFIG'', ''GET'', ''max_connections'']], [], []]"
  by code_simp

lemma examples_plain:
  "list_all (\<lambda>(topic, ls). list_all (\<lambda>l. list_all (list_all (\<lambda>c. byte c < 128)) (shell_words l) \<and> shell_words l \<noteq> [] \<and>
     \<not> eq_ignore_ascii_case (hd (shell_words l)) ''PIPELINE'') (examples ls)) help_topics"
  by code_simp

lemma number_words:
  "u64_to_string 0 = ''0''" "u64_to_string 1 = ''1''" "u64_to_string 2 = ''2''" "u64_to_string 3 = ''3''" "u64_to_string 5 = ''5''"
  "u64_to_string 50 = ''50''"
proof -
  have "digit_char 0 = CHR ''0''" "digit_char 1 = CHR ''1''" "digit_char 2 = CHR ''2''" "digit_char 3 = CHR ''3''" "digit_char 5 = CHR ''5''"
    by code_simp+
  then show "u64_to_string 0 = ''0''" "u64_to_string 1 = ''1''" "u64_to_string 2 = ''2''" "u64_to_string 3 = ''3''" "u64_to_string 5 = ''5''"
      "u64_to_string 50 = ''50''"
    by (simp_all add: u64_to_string_def dec_of_nat.simps)
qed

lemma parse_number_words:
  "parse_u64_arg m ''0'' = Inr 0" "parse_u64_arg m ''1'' = Inr 1" "parse_u64_arg m ''2'' = Inr 2" "parse_u64_arg m ''3'' = Inr 3"
  "parse_usize_arg m ''5'' = Inr 5" "parse_usize_arg m ''50'' = Inr 50"
  by (fact parse_args_simps(1) [of _ 0, unfolded number_words] parse_args_simps(1) [of _ 1, unfolded number_words]
      parse_args_simps(1) [of _ 2, unfolded number_words] parse_args_simps(1) [of _ 3, unfolded number_words]
      parse_args_simps(2) [of _ 5, unfolded number_words] parse_args_simps(2) [of _ 50, unfolded number_words])+

lemma upper_token: "to_ascii_uppercase ''token'' = ''TOKEN''"
  by code_simp

lemma typed_examples:
  "map (\<lambda>(topic, ls). map (typed X) (examples ls)) help_topics =
     map (map (parse_flat X)) (map (\<lambda>(topic, ls). map shell_words (examples ls)) help_topics)"
  using examples_plain by (force simp: list_all_iff intro!: typed_words [OF refl])

section \<open>Properties\<close>



end
