(* ===== verification/End_To_End.thy ===== *)
theory End_To_End
  imports Remote_Store
begin

text \<open>
  Client and server composed: the network of a client connection is a connection task of the server.
  The bytes of a request are read by the server's frame reader, one step of the connection task
  handles the frame, and the bytes that the task writes are read by the client's response reader. The
  operations of the remote store then refine those of the server's store.
\<close>

section \<open>Composition\<close>

definition server_exchange :: "('s, 'x, 'a) server \<Rightarrow> bytes \<Rightarrow> 'a conn \<times> 's dstate \<Rightarrow>
    (failure + response) \<times> 'a conn \<times> 's dstate" where
  "server_exchange S bs cst = (case cst of (c, st) \<Rightarrow>
     (case conn_step S (Frame (map_sum id fst (read_frame bs)) True True) (c, st) of (c', st') \<Rightarrow>
        (map_sum id fst (read_value (concat (map write_frame (drop (length (out c)) (out c'))))), (c', st'))))"

definition served :: "('s, 'x, 'a) server \<Rightarrow> ('a conn \<times> 's dstate) connection" where
  "served S = \<lparr>cn_exchange = server_exchange S, cn_prefix = None\<rparr>"

text \<open>A connection that executes the next command: not rate limited, authenticated, token current.\<close>

definition ready :: "('s, 'x, 'a) server \<Rightarrow> 'a conn \<Rightarrow> 's dstate \<Rightarrow> bool" where
  "ready S c st \<longleftrightarrow> mode c = Normal \<and> fst (acquire_limit S c (world st)) \<and>
     (sv_auth_required S \<longrightarrow> auth c \<noteq> None) \<and> check_expiry S (auth c) (world st) = Current"

definition usable :: "'a conn \<Rightarrow> 'a conn \<Rightarrow> bool" where
  "usable c c' \<longleftrightarrow> mode c' = Normal \<and> auth c' = auth c \<and> (limiter c = None \<longrightarrow> limiter c' = None)"

text \<open>
  \<open>answers rop c st r s'\<close>: run against the connection, the remote operation returns \<open>r\<close>, leaves the
  store in \<open>s'\<close>, and the connection usable with its context.
\<close>

definition answers :: "('a conn \<times> 's dstate, 'x, 'r) remote_op \<Rightarrow> 'a conn \<Rightarrow> 's dstate \<Rightarrow>
    'x store_error + 'r \<Rightarrow> 's \<Rightarrow> bool" where
  "answers rop c st r s' \<longleftrightarrow> (\<exists>c' st'. rop (c, st) = (Some r, (c', st')) \<and> world st' = s' \<and> usable c c')"

definition dispatched :: "'x command \<Rightarrow> bool" where
  "dispatched cmd = (case cmd of Auth _ \<Rightarrow> False | Subscribe _ _ _ \<Rightarrow> False | _ \<Rightarrow> True)"

lemma exchange_execute:
  assumes "ready S c st" and "read_frame bs = Inr (Some f, rest)"
    and "parse_command (d_ext (sv_dispatcher S)) f = Inr cmd" and "dispatched cmd"
    and "execute (sv_dispatcher S) (auth c) cmd st = (Some resp, st')"
    and "client_ok (response_to_frame (d_ext (sv_dispatcher S)) resp)"
  shows "\<exists>c'. server_exchange S bs (c, st) =
      (Inr (client_view (response_to_frame (d_ext (sv_dispatcher S)) resp)), (c', st')) \<and> usable c c'"
proof -
  let ?f = "response_to_frame (d_ext (sv_dispatcher S)) resp"
  obtain c1 where a: "acquire_limit S c (world st) = (True, c1)"
    using assms(1) by (cases "acquire_limit S c (world st)") (auto simp: ready_def)
  have c1: "auth c1 = auth c" "out c1 = out c" "mode c1 = Normal"
    using acquire_limit_simps [of S c "world st"] a assms(1) by (simp_all add: ready_def)
  have lim: "limiter c = None \<Longrightarrow> limiter c1 = None" using a by (simp add: acquire_limit_def)
  have gate: "\<not> (sv_auth_required S \<and> auth c1 = None)" "check_expiry S (auth c1) (world st) = Current"
    using assms(1) c1 by (simp_all add: ready_def)
  have "handle_command S cmd True True (c1, st) = handle_execute S cmd True True (c1, st)"
    using assms(4) gate by (cases cmd) (auto simp: handle_command_def dispatched_def)
  also have "\<dots> = (reply True ?f c1, st')" using assms(5) c1 by (simp add: handle_execute_def finish_execute_def Let_def)
  finally have "conn_step S (Frame (Inr (Some f)) True True) (c, st) = (reply True ?f c1, st')"
    using assms(1,3) by (simp add: conn_step_def normal_step_def normal_frame_def a ready_def)
  moreover have "read_value (write_frame ?f @ []) = Inr (client_view ?f, [])"
    using assms(6) by (rule client_wire.dec_enc)
  ultimately show ?thesis using assms(2) c1 lim by (simp add: server_exchange_def usable_def)
qed

text \<open>A flat command whose arguments fit the server's limits.\<close>

definition fits :: "string \<Rightarrow> bool" where
  "fits s \<longleftrightarrow> utf8_valid s \<and> length s \<le> MAX_BULK_SIZE"

definition result_response :: "'x command_error + 'x response_map \<Rightarrow> 'x command_response" where
  "result_response r = (case r of Inr resp \<Rightarrow> Success resp | Inl e \<Rightarrow> Error e)"

text \<open>A command line that the server accepts as \<open>cmd\<close> and lets pass the access check.\<close>

definition accepted :: "('s, 'x, 'a) server \<Rightarrow> 'a conn \<Rightarrow> 's dstate \<Rightarrow> string list \<Rightarrow> 'x command \<Rightarrow> bool" where
  "accepted S c st args cmd \<longleftrightarrow>
     ready S c st \<and> args \<noteq> [] \<and> list_all fits args \<and> length args \<le> 10 \<and>
     \<not> eq_ignore_ascii_case (hd args) ''PIPELINE'' \<and>
     parse_flat (d_ext (sv_dispatcher S)) args = Inr cmd \<and> dispatched cmd \<and> \<not> is_pipeline cmd \<and>
     acl_gate (sv_dispatcher S) (auth c) cmd (world st) = None"

lemma parse_command_flat:
  assumes "args \<noteq> []" and "list_all fits args" and "\<not> eq_ignore_ascii_case (hd args) ''PIPELINE''"
  shows "parse_command X (Array (map BulkString args)) = parse_flat X args"
proof -
  have "collect_res frame_to_string (map BulkString args) = (Inr args :: 'a command_error + string list)"
    using assms(2) by (induction args) (simp_all add: fits_def frame_to_string_def)
  moreover obtain a as where "args = a # as" using assms(1) by (cases args) auto
  ultimately show ?thesis using assms by (simp add: frame_to_string_def fits_def)
qed

lemma exchange_flat:
  assumes acc: "accepted S c st args cmd"
    and d: "dispatch (sv_dispatcher S) cmd (world st) = (Some r, s')"
    and ok: "client_ok (response_to_frame (d_ext (sv_dispatcher S)) (result_response r))"
  shows "\<exists>c' st'. send_command (served S) args (c, st) =
      (Inr (client_view (response_to_frame (d_ext (sv_dispatcher S)) (result_response r))), (c', st')) \<and>
    world st' = s' \<and> usable c c'"
proof -
  have "command_ok args" using acc by (auto simp: accepted_def command_ok_def fits_def MAX_COLLECTION_SIZE_def list_all_iff)
  from command_wire.dec_enc [OF this, of "[]"]
  have rf: "read_frame (write_command args) = Inr (Some (Array (map BulkString args)), [])" by simp
  have rdy: "ready S c st" and disp: "dispatched cmd" using acc by (simp_all add: accepted_def)
  obtain st' where ex: "execute (sv_dispatcher S) (auth c) cmd st = (Some (result_response r), st')" and w: "world st' = s'"
    using acc d by (simp add: accepted_def execute_leaf execute_one_def result_response_def)
  have "parse_flat (d_ext (sv_dispatcher S)) args = Inr cmd" using acc by (simp add: accepted_def)
  then have "parse_command (d_ext (sv_dispatcher S)) (Array (map BulkString args)) = Inr cmd"
    using acc by (subst parse_command_flat) (simp_all add: accepted_def)
  from exchange_execute [OF rdy rf this disp ex ok] w show ?thesis
    by (auto simp: send_command_def send_raw_def served_def send_command_args_def)
qed

section \<open>One remote call\<close>

lemma remote_decoded:
  "remote X (decoded req p) q = remote X req (\<lambda>resp. try_res (map_err (client_err X) (p resp)) q)"
proof (rule ext)
  fix w
  obtain r w' where r: "req w = (r, w')" by fastforce
  show "remote X (decoded req p) q w = remote X req (\<lambda>resp. try_res (map_err (client_err X) (p resp)) q) w"
  proof (cases r)
    case (Inl e)
    then show ?thesis by (cases e) (simp_all add: remote_def decoded_def r store_result_def)
  next
    case (Inr resp)
    then show ?thesis by (cases "p resp") (simp_all add: remote_def decoded_def r store_result_def)
  qed
qed

lemma remote_call:
  assumes "accepted S c st args cmd" and "dispatch (sv_dispatcher S) cmd (world st) = (Some res, s')"
    and "client_ok (response_to_frame (d_ext (sv_dispatcher S)) (result_response res))"
    and derr: "\<And>t. decode (RError t) = Inl (server_err t)"
  shows "answers (remote X (send_command (served S) args) decode) c st
    (case res of
       Inl e \<Rightarrow> Inl (server_err (command_error_to_string (d_ext (sv_dispatcher S)) e))
     | Inr m \<Rightarrow> decode (client_view (response_map_to_frame (d_ext (sv_dispatcher S)) m))) s'"
proof -
  let ?f = "response_to_frame (d_ext (sv_dispatcher S)) (result_response res)"
  from exchange_flat [OF assms(1-3)] obtain c' st'
    where ex: "send_command (served S) args (c, st) = (Inr (client_view ?f), (c', st'))"
      and st': "world st' = s'" "usable c c'" by blast
  then show ?thesis using derr
    by (cases res) (simp_all add: answers_def remote_def store_result_def result_response_def)
qed

section \<open>The operations\<close>

lemma length_dec_of_nat: "n < 10 ^ k \<Longrightarrow> 0 < k \<Longrightarrow> length (dec_of_nat n) \<le> k"
proof (induction n arbitrary: k rule: dec_of_nat.induct)
  case (1 n)
  show ?case
  proof (cases "n < 10")
    case True
    then show ?thesis using "1.prems" by (simp add: dec_of_nat.simps [of n])
  next
    case False
    then obtain j where k: "k = Suc j" "0 < j" using "1.prems" by (cases k; cases "k - 1") auto
    then have "n div 10 < 10 ^ j" using "1.prems" by (simp add: less_mult_imp_div_less)
    then have "length (dec_of_nat (n div 10)) \<le> j" using "1.IH" [OF False] k by simp
    then show ?thesis using False k by (subst dec_of_nat.simps) simp
  qed
qed

lemma fits_u64: "fits (u64_to_string v)"
proof -
  have "unat v < 10 ^ 20" using unat_le_max [of v] by simp
  then have "length (u64_to_string v) \<le> 20" unfolding u64_to_string_def by (rule length_dec_of_nat) simp
  then show ?thesis by (simp add: fits_def MAX_BULK_SIZE_def)
qed

lemma fits_words:
  "fits ''PUT''" "fits ''GET''" "fits ''DELETE''" "fits ''PUTIF''" "fits ''DELIF''" "fits ''DELPREFIX''" "fits ''EXPECT''"
  "fits ''LIST''" "fits ''PREFIX''" "fits ''CURSOR''" "fits ''LIMIT''" "fits ''VERSION''"
  by (simp_all add: fits_def MAX_BULK_SIZE_def utf8_valid_ascii)

lemma upper_words:
  "to_ascii_uppercase ''PUT'' = ''PUT''" "to_ascii_uppercase ''GET'' = ''GET''" "to_ascii_uppercase ''DELETE'' = ''DELETE''"
  "to_ascii_uppercase ''PUTIF'' = ''PUTIF''" "to_ascii_uppercase ''DELIF'' = ''DELIF''"
  "to_ascii_uppercase ''DELPREFIX'' = ''DELPREFIX''" "to_ascii_uppercase ''EXPECT'' = ''EXPECT''"
  "to_ascii_uppercase ''LIST'' = ''LIST''" "to_ascii_uppercase ''PREFIX'' = ''PREFIX''"
  "to_ascii_uppercase ''CURSOR'' = ''CURSOR''" "to_ascii_uppercase ''LIMIT'' = ''LIMIT''"
  "to_ascii_uppercase ''VERSION'' = ''VERSION''"
  by code_simp+

lemma no_pipeline_verb:
  "\<not> eq_ignore_ascii_case ''PUT'' ''PIPELINE''" "\<not> eq_ignore_ascii_case ''GET'' ''PIPELINE''"
  "\<not> eq_ignore_ascii_case ''DELETE'' ''PIPELINE''" "\<not> eq_ignore_ascii_case ''PUTIF'' ''PIPELINE''"
  "\<not> eq_ignore_ascii_case ''DELIF'' ''PIPELINE''" "\<not> eq_ignore_ascii_case ''DELPREFIX'' ''PIPELINE''"
  "\<not> eq_ignore_ascii_case ''LIST'' ''PIPELINE''"
  by code_simp+

lemma lossy_words:
  "from_utf8_lossy ''status'' = ''status''" "from_utf8_lossy ''OK'' = ''OK''" "from_utf8_lossy ''version'' = ''version''"
  "from_utf8_lossy ''deleted'' = ''deleted''" "from_utf8_lossy ''key'' = ''key''" "from_utf8_lossy ''value'' = ''value''"
  "from_utf8_lossy ''keys'' = ''keys''" "from_utf8_lossy ''cursor'' = ''cursor''"
  by (simp_all add: utf8_valid_ascii)

lemmas call_simps = upper_words no_pipeline_verb parse_flat_def require_args_def dispatched_def

lemma parse_data_commands:
  "parse_flat X [''PUT'', ns, key, val] = Inr (Put ns key val None None)"
  "parse_flat X [''GET'', ns, key] = Inr (Get ns key None False)"
  "parse_flat X [''GET'', ns, key, ''VERSION'', u64_to_string v] = Inr (Get ns key (Some v) False)"
  "parse_flat X [''DELETE'', ns, key] = Inr (Delete ns key)"
  "parse_flat X [''PUTIF'', ns, key, val, ''EXPECT'', u64_to_string v] = Inr (PutIf ns key val None v)"
  "parse_flat X [''DELIF'', ns, key, ''EXPECT'', u64_to_string v] = Inr (DelIf ns key v)"
  "pre \<noteq> [] \<Longrightarrow> parse_flat X [''DELPREFIX'', ns, pre] = Inr (DelPrefix ns pre)"
  by (simp_all add: call_simps parser_defs parse_u64_arg_def eq_ignore_ascii_case_refl)

lemma version_view:
  "client_ok (response_map_to_frame X (version_ok v))"
  "client_view (response_map_to_frame X (version_ok v)) =
     RMap [(RString ''status'', RString ''OK''), (RString ''version'', RInteger v)]"
  by (simp_all add: response_map_to_frame_def version_ok_def rm_with_def rm_ok_def lossy_words)

lemma decode_version:
  "raw_int_field ''version'' (RMap [(RString ''status'', RString ''OK''), (RString ''version'', RInteger v)]) = Inr v"
  "version_field (RMap [(RString ''status'', RString ''OK''), (RString ''version'', RInteger v)]) = Inr v"
  by (simp_all add: raw_int_field_def version_field_def get_int_field_def get_field_def to_display_string_def as_int_def)

lemma decode_derr:
  "server_error_or X decode (RError t) = Inl (server_err t)"
  "try_res (map_err (client_err X) (checked p (RError t))) q = Inl (server_err t)"
  by (simp_all add: server_error_or_def client_err_def checked_def check_ok_def)

lemma decode_map:
  "server_error_or X decode (RMap es) = decode (RMap es)"
  "checked p (RMap es) = p (RMap es)"
  by (simp_all add: server_error_or_def checked_def check_ok_def)

lemma fits_lossy: "fits s \<Longrightarrow> from_utf8_lossy s = s"
  by (simp add: fits_def)

lemma line_ok_errors:
  "line_ok (command_error_to_string X (VersionConflict v))"
  "line_ok (command_error_to_string X (PrefixTooLarge m l))"
  "line_ok (command_error_to_string X NotFound)"
proof -
  have app: "line_ok (a @ b)" if "line_ok a" "line_ok b" for a b
    using that by (simp add: line_ok_def utf8_valid_append)
  have lit: "line_ok ''VERSIONCONFLICT current=''" "line_ok ''PREFIXTOOLARGE matched=''" "line_ok '' limit=''" "line_ok ''not found''"
    by (simp_all add: line_ok_def utf8_valid_ascii)
  show "line_ok (command_error_to_string X (VersionConflict v))"
    unfolding command_error_to_string.simps by (intro app lit line_ok_dec)
  show "line_ok (command_error_to_string X (PrefixTooLarge m l))"
    unfolding command_error_to_string.simps by (intro app lit line_ok_dec)
  show "line_ok (command_error_to_string X NotFound)"
    unfolding command_error_to_string.simps by (rule lit)
qed

lemmas op_simps = accepted_def fits_words fits_u64 no_pipeline_verb parse_data_commands dispatched_def decode_derr decode_map
  version_view decode_version result_response_def line_ok_errors server_err_wire

lemma answers_put:
  assumes "ready S c st" and "fits ns" and "fits key" and "fits val"
    and "acl_gate (sv_dispatcher S) (auth c) (Put ns key val None None) (world st) = None"
    and "st_put_with_options (d_store (sv_dispatcher S)) ns key val
      \<lparr>po_metadata = None, po_ttl = None, po_expected_version = None\<rparr> (world st) = (Inr n, s')"
  shows "answers (remote_put R (served S) ns key val None) c st (Inr n) s'"
proof -
  have d: "dispatch (sv_dispatcher S) (Put ns key val None None) (world st) = (Some (Inr (version_ok n)), s')"
    using assms(6) by (simp add: no_panic_def call_def handle_put_def parse_metadata_def)
  have acc: "accepted S c st [''PUT'', ns, key, val] (Put ns key val None None)"
    using assms(1-5) by (simp add: op_simps)
  show ?thesis
    using remote_call [OF acc d, of "\<lambda>resp. try_res (map_err (client_err (rx_ext R)) (checked version_field resp)) Inr" "rx_ext R"]
    by (simp add: remote_put_def client_put_def remote_decoded fits_lossy [OF assms(3)] fits_lossy [OF assms(4)] op_simps)
qed

lemma answers_delete:
  assumes "ready S c st" and "fits ns" and "fits key"
    and "acl_gate (sv_dispatcher S) (auth c) (Delete ns key) (world st) = None"
    and "st_delete (d_store (sv_dispatcher S)) ns key (world st) = (r, s')"
    and "r = Inr n \<or> r = Inl SE_NotFound"
  shows "answers (remote_delete R (served S) ns key) c st r s'"
proof -
  let ?res = "case r of Inr _ \<Rightarrow> Inr (version_ok n) | Inl _ \<Rightarrow> Inl NotFound"
  have d: "dispatch (sv_dispatcher S) (Delete ns key) (world st) = (Some ?res, s')"
    using assms(5,6) by (auto simp: no_panic_def call_def handle_delete_def)
  have acc: "accepted S c st [''DELETE'', ns, key] (Delete ns key)" using assms(1-4) by (simp add: op_simps)
  show ?thesis
    using remote_call [OF acc d, of "\<lambda>resp. try_res (map_err (client_err (rx_ext R)) (checked version_field resp)) Inr" "rx_ext R"]
      assms(6)
    by (auto simp: remote_delete_def client_delete_def remote_decoded fits_lossy [OF assms(3)] op_simps
        simp del: command_error_to_string.simps)
qed

lemma answers_put_if:
  assumes "ready S c st" and "fits ns" and "fits key" and "fits val"
    and "acl_gate (sv_dispatcher S) (auth c) (PutIf ns key val None x) (world st) = None"
    and "st_put_if_version (d_store (sv_dispatcher S)) ns key val None x (world st) = (r, s')"
    and "r = Inr n \<or> r = Inl (SE_VersionConflict n)"
  shows "answers (remote_put_if_version R (served S) ns key val None x) c st r s'"
proof -
  let ?res = "case r of Inr _ \<Rightarrow> Inr (version_ok n) | Inl _ \<Rightarrow> Inl (VersionConflict n)"
  have d: "dispatch (sv_dispatcher S) (PutIf ns key val None x) (world st) = (Some ?res, s')"
    using assms(6,7) by (auto simp: no_panic_def call_def handle_put_if_def parse_metadata_def)
  have acc: "accepted S c st [''PUTIF'', ns, key, val, ''EXPECT'', u64_to_string x] (PutIf ns key val None x)"
    using assms(1-5) by (simp add: op_simps)
  show ?thesis
    using remote_call [OF acc d, of "server_error_or (rx_ext R) (raw_int_field ''version'')" "rx_ext R"] assms(7)
    by (auto simp: remote_put_if_version_def put_if_args_def fits_lossy [OF assms(3)] fits_lossy [OF assms(4)] op_simps
        simp del: command_error_to_string.simps)
qed

lemma answers_delete_if:
  assumes "ready S c st" and "fits ns" and "fits key"
    and "acl_gate (sv_dispatcher S) (auth c) (DelIf ns key x) (world st) = None"
    and "st_delete_if_version (d_store (sv_dispatcher S)) ns key x (world st) = (r, s')"
    and "r = Inr n \<or> r = Inl (SE_VersionConflict n) \<or> r = Inl SE_NotFound"
  shows "answers (remote_delete_if_version R (served S) ns key x) c st r s'"
proof -
  let ?res = "case r of Inr _ \<Rightarrow> Inr (version_ok n) | Inl e \<Rightarrow> Inl (if e = SE_NotFound then NotFound else VersionConflict n)"
  have d: "dispatch (sv_dispatcher S) (DelIf ns key x) (world st) = (Some ?res, s')"
    using assms(5,6) by (auto simp: no_panic_def call_def handle_del_if_def)
  have acc: "accepted S c st [''DELIF'', ns, key, ''EXPECT'', u64_to_string x] (DelIf ns key x)"
    using assms(1-4) by (simp add: op_simps)
  show ?thesis
    using remote_call [OF acc d, of "server_error_or (rx_ext R) (raw_int_field ''version'')" "rx_ext R"] assms(6)
    by (auto simp: remote_delete_if_version_def fits_lossy [OF assms(3)] op_simps simp del: command_error_to_string.simps)
qed

lemma deleted_view:
  "client_ok (response_map_to_frame X (rm_with rm_ok ''deleted'' (RvInteger v)))"
  "server_error_or Y (raw_int_field ''deleted'') (client_view (response_map_to_frame X (rm_with rm_ok ''deleted'' (RvInteger v)))) = Inr v"
  by (simp_all add: response_map_to_frame_def rm_with_def rm_ok_def lossy_words raw_int_field_def get_field_def
      to_display_string_def as_int_def server_error_or_def)

lemma answers_delete_prefix:
  assumes "ready S c st" and "fits ns" and "fits pre" and "pre \<noteq> []"
    and "acl_gate (sv_dispatcher S) (auth c) (DelPrefix ns pre) (world st) = None"
    and "st_delete_prefix (d_store (sv_dispatcher S)) ns pre (world st) = (r, s')"
    and "r = Inr n \<or> r = Inl (SE_PrefixTooLarge m l)"
  shows "answers (remote_delete_prefix R (served S) ns pre) c st r s'"
proof -
  let ?res = "case r of Inr _ \<Rightarrow> Inr (rm_with rm_ok ''deleted'' (RvInteger n)) | Inl e \<Rightarrow> Inl (PrefixTooLarge m l)"
  have d: "dispatch (sv_dispatcher S) (DelPrefix ns pre) (world st) = (Some ?res, s')"
    using assms(6,7) by (auto simp: no_panic_def call_def handle_del_prefix_def)
  have acc: "accepted S c st [''DELPREFIX'', ns, pre] (DelPrefix ns pre)"
    using assms(1-5) by (simp add: op_simps)
  show ?thesis
    using remote_call [OF acc d, of "server_error_or (rx_ext R) (raw_int_field ''deleted'')" "rx_ext R"] assms(7)
    by (auto simp: remote_delete_prefix_def fits_lossy [OF assms(3)] op_simps deleted_view simp del: command_error_to_string.simps)
qed

lemma get_view:
  assumes "length (e_key e) < 2 ^ 63" and "length (e_value e) < 2 ^ 63"
  shows "client_ok (response_map_to_frame X (get_response X False e))"
    and "checked (parse_get_result J) (client_view (response_map_to_frame X (get_response X False e))) =
      Inr \<lparr>gr_key = from_utf8_lossy (e_key e), gr_value = from_utf8_lossy (e_value e), gr_version = e_version e, gr_metadata = None\<rparr>"
  using assms
  by (simp_all add: response_map_to_frame_def get_response_def rm_with_def rm_ok_def lossy_words checked_def check_ok_def
      parse_get_result_def get_string_field_def get_int_field_def get_field_def to_display_string_def as_str_def)

lemma answers_get:
  assumes "ready S c st" and "fits ns" and "fits key"
    and "acl_gate (sv_dispatcher S) (auth c) (Get ns key version False) (world st) = None"
    and "st_get (d_store (sv_dispatcher S)) ns key version (world st) = (r, s')"
    and "r = Inr e \<and> length (e_key e) < 2 ^ 63 \<and> length (e_value e) < 2 ^ 63 \<or> r = Inl SE_NotFound"
  shows "answers (remote_get R (served S) ns key version) c st
    (map_sum id (\<lambda>e. \<lparr>e_key = from_utf8_lossy (e_key e), e_value = from_utf8_lossy (e_value e),
       e_metadata = rx_metadata_default R, e_version = e_version e, e_created_at = 0, e_updated_at = 0\<rparr>) r) s'"
proof -
  let ?res = "case r of Inr _ \<Rightarrow> Inr (get_response (d_ext (sv_dispatcher S)) False e) | Inl _ \<Rightarrow> Inl NotFound"
  let ?args = "[''GET'', ns, key] @ (case version of Some v \<Rightarrow> [''VERSION'', u64_to_string v] | None \<Rightarrow> [])"
  have d: "dispatch (sv_dispatcher S) (Get ns key version False) (world st) = (Some ?res, s')"
    using assms(5,6) by (auto simp: no_panic_def call_def handle_get_def get_error_def)
  have acc: "accepted S c st ?args (Get ns key version False)"
    using assms(1-4) by (cases version) (simp_all add: op_simps)
  have rg: "remote_get R (served S) ns key version =
      remote (rx_ext R) (send_command (served S) ?args) (\<lambda>resp. try_res (map_err (client_err (rx_ext R)) (checked (parse_get_result (rx_json R)) resp))
        (\<lambda>gr. Inr \<lparr>e_key = gr_key gr, e_value = gr_value gr,
          e_metadata = (case gr_metadata gr of None \<Rightarrow> rx_metadata_default R
            | Some j \<Rightarrow> (case rx_metadata_from_value R j of Inr m \<Rightarrow> m | Inl _ \<Rightarrow> rx_metadata_default R)),
          e_version = gr_version gr, e_created_at = 0, e_updated_at = 0\<rparr>))"
    by (cases version)
      (simp_all add: remote_get_def client_get_def client_get_version_def remote_decoded fits_lossy [OF assms(3)])
  show ?thesis unfolding rg
    using remote_call [OF acc d, of "\<lambda>resp. try_res (map_err (client_err (rx_ext R)) (checked (parse_get_result (rx_json R)) resp))
        (\<lambda>gr. Inr \<lparr>e_key = gr_key gr, e_value = gr_value gr,
          e_metadata = (case gr_metadata gr of None \<Rightarrow> rx_metadata_default R
            | Some j \<Rightarrow> (case rx_metadata_from_value R j of Inr m \<Rightarrow> m | Inl _ \<Rightarrow> rx_metadata_default R)),
          e_version = gr_version gr, e_created_at = 0, e_updated_at = 0\<rparr>)" "rx_ext R"] assms(6)
    by (auto simp: op_simps get_view simp del: command_error_to_string.simps)
qed

section \<open>Sequences of writes\<close>

text \<open>The write operations of a store on a key (or, for the last one, on a prefix of keys).\<close>

datatype write_op =
    WPut bytes
  | WDelete
  | WPutIf bytes u64
  | WDeleteIf u64
  | WDeletePrefix

definition local_write :: "('s, 'x) store \<Rightarrow> string \<times> bytes \<times> write_op \<Rightarrow> ('s, 'x, u64) op" where
  "local_write T nko = (case nko of (ns, key, oper) \<Rightarrow> (case oper of
     WPut val \<Rightarrow> st_put_with_options T ns key val \<lparr>po_metadata = None, po_ttl = None, po_expected_version = None\<rparr>
   | WDelete \<Rightarrow> st_delete T ns key
   | WPutIf val x \<Rightarrow> st_put_if_version T ns key val None x
   | WDeleteIf x \<Rightarrow> st_delete_if_version T ns key x
   | WDeletePrefix \<Rightarrow> st_delete_prefix T ns key))"

definition remote_write :: "'x remote_ext \<Rightarrow> 'w connection \<Rightarrow> string \<times> bytes \<times> write_op \<Rightarrow> ('w, 'x, u64) remote_op" where
  "remote_write R C nko = (case nko of (ns, key, oper) \<Rightarrow> (case oper of
     WPut val \<Rightarrow> remote_put R C ns key val None
   | WDelete \<Rightarrow> remote_delete R C ns key
   | WPutIf val x \<Rightarrow> remote_put_if_version R C ns key val None x
   | WDeleteIf x \<Rightarrow> remote_delete_if_version R C ns key x
   | WDeletePrefix \<Rightarrow> remote_delete_prefix R C ns key))"

text \<open>Arguments that reach the server unchanged, and the results that come back unchanged.\<close>

definition write_ok :: "string \<times> bytes \<times> write_op \<Rightarrow> bool" where
  "write_ok nko = (case nko of (ns, key, oper) \<Rightarrow> fits ns \<and> fits key \<and> (case oper of
     WPut val \<Rightarrow> fits val
   | WPutIf val x \<Rightarrow> fits val
   | WDeletePrefix \<Rightarrow> key \<noteq> []
   | _ \<Rightarrow> True))"

fun exact :: "write_op \<Rightarrow> 'x store_error + u64 \<Rightarrow> bool" where
  "exact oper (Inr n) = True"
| "exact WDelete (Inl SE_NotFound) = True"
| "exact (WPutIf val x) (Inl (SE_VersionConflict n)) = True"
| "exact (WDeleteIf x) (Inl (SE_VersionConflict n)) = True"
| "exact (WDeleteIf x) (Inl SE_NotFound) = True"
| "exact WDeletePrefix (Inl (SE_PrefixTooLarge m l)) = True"
| "exact _ _ = False"

definition write_command_of :: "string \<times> bytes \<times> write_op \<Rightarrow> 'x command" where
  "write_command_of nko = (case nko of (ns, key, oper) \<Rightarrow> (case oper of
     WPut val \<Rightarrow> Put ns key val None None
   | WDelete \<Rightarrow> Delete ns key
   | WPutIf val x \<Rightarrow> PutIf ns key val None x
   | WDeleteIf x \<Rightarrow> DelIf ns key x
   | WDeletePrefix \<Rightarrow> DelPrefix ns key))"

fun_cases exact_WPut: "exact (WPut val) r"
fun_cases exact_WDelete: "exact WDelete r"
fun_cases exact_WPutIf: "exact (WPutIf val x) r"
fun_cases exact_WDeleteIf: "exact (WDeleteIf x) r"
fun_cases exact_WDeletePrefix: "exact WDeletePrefix r"

lemma exact_cases:
  "exact (WPut val) r \<Longrightarrow> \<exists>n. r = Inr n"
  "exact WDelete r \<Longrightarrow> \<exists>n. r = Inr n \<or> r = Inl SE_NotFound"
  "exact (WPutIf val x) r \<Longrightarrow> \<exists>n. r = Inr n \<or> r = Inl (SE_VersionConflict n)"
  "exact (WDeleteIf x) r \<Longrightarrow> \<exists>n. r = Inr n \<or> r = Inl (SE_VersionConflict n) \<or> r = Inl SE_NotFound"
  "exact WDeletePrefix r \<Longrightarrow> \<exists>n m l. r = Inr n \<or> r = Inl (SE_PrefixTooLarge m l)"
  by (auto elim: exact_WPut exact_WDelete exact_WPutIf exact_WDeleteIf exact_WDeletePrefix)

lemma answers_write:
  assumes "ready S c st" and "write_ok nko"
    and "acl_gate (sv_dispatcher S) (auth c) (write_command_of nko) (world st) = None"
    and "local_write (d_store (sv_dispatcher S)) nko (world st) = (r, s')"
    and "exact (snd (snd nko)) r"
  shows "answers (remote_write R (served S) nko) c st r s'"
proof -
  obtain ns key oper where nko: "nko = (ns, key, oper)" by (cases nko)
  show ?thesis
  proof (cases oper)
    case (WPut val)
    then show ?thesis using assms nko exact_cases(1) [of val r]
      by (auto simp: write_ok_def write_command_of_def local_write_def remote_write_def intro: answers_put)
  next
    case WDelete
    then obtain n where "r = Inr n \<or> r = Inl SE_NotFound" using assms(5) nko exact_cases(2) [of r] by auto
    with WDelete show ?thesis using assms nko answers_delete [of S c st ns key r s' n R]
      by (auto simp: write_ok_def write_command_of_def local_write_def remote_write_def)
  next
    case (WPutIf val x)
    then obtain n where "r = Inr n \<or> r = Inl (SE_VersionConflict n)" using assms(5) nko exact_cases(3) [of val x r] by auto
    with WPutIf show ?thesis using assms nko answers_put_if [of S c st ns key val x r s' n R]
      by (auto simp: write_ok_def write_command_of_def local_write_def remote_write_def)
  next
    case (WDeleteIf x)
    then obtain n where "r = Inr n \<or> r = Inl (SE_VersionConflict n) \<or> r = Inl SE_NotFound"
      using assms(5) nko exact_cases(4) [of x r] by auto
    with WDeleteIf show ?thesis using assms nko answers_delete_if [of S c st ns key x r s' n R]
      by (auto simp: write_ok_def write_command_of_def local_write_def remote_write_def)
  next
    case WDeletePrefix
    then obtain n m l where "r = Inr n \<or> r = Inl (SE_PrefixTooLarge m l)" using assms(5) nko exact_cases(5) [of r] by auto
    with WDeletePrefix show ?thesis using assms nko answers_delete_prefix [of S c st ns key r s' n m l R]
      by (auto simp: write_ok_def write_command_of_def local_write_def remote_write_def)
  qed
qed

text \<open>Running operations one after the other, on a store and through a connection.\<close>

fun run_ops :: "('o \<Rightarrow> 's \<Rightarrow> 'r \<times> 's) \<Rightarrow> 'o list \<Rightarrow> 's \<Rightarrow> 'r list \<times> 's" where
  "run_ops f [] s = ([], s)"
| "run_ops f (x # xs) s = (case f x s of (r, s1) \<Rightarrow> (case run_ops f xs s1 of (rs, s2) \<Rightarrow> (r # rs, s2)))"

text \<open>A connection that stays ready: no rate limit, and a context that neither expires nor is refused.\<close>

definition steady :: "('s, 'x, 'a) server \<Rightarrow> 'a conn \<Rightarrow> bool" where
  "steady S c \<longleftrightarrow> mode c = Normal \<and> limiter c = None \<and>
     (\<exists>ctx. auth c = Some ctx \<and>
        (\<forall>s. check_expiry S (Some ctx) s = Current) \<and> (\<forall>req s. is_ok (d_check (sv_dispatcher S) ctx req s)))"

lemma steady_ready: "steady S c \<Longrightarrow> ready S c st"
  by (auto simp: steady_def ready_def acquire_limit_def)

lemma steady_allowed: "steady S c \<Longrightarrow> acl_gate (sv_dispatcher S) (auth c) cmd s = None"
  by (auto simp: steady_def acl_gate_check)

lemma steady_usable: "steady S c \<Longrightarrow> usable c c' \<Longrightarrow> steady S c'"
  by (simp add: steady_def usable_def)

section \<open>Properties\<close>


definition steady_server :: "(mem, string, string) server" where
  "steady_server = demo_server\<lparr>sv_is_expired := \<lambda>_ _. False\<rparr>"

definition admin_conn :: "string conn" where
  "admin_conn = \<lparr>mode = Normal, auth = Some ''admin'', limiter = None, out = []\<rparr>"

definition text_remote_ext :: "string remote_ext" where
  "text_remote_ext = \<lparr>rx_ext = text_ext,
     rx_json = \<lparr>js_string = id, js_int = i64_to_string, js_null = ''null'', js_array = concat, js_object = \<lambda>kvs. concat (map snd kvs)\<rparr>,
     rx_to_string = Inr, rx_schema_to_string = Inr, rx_metadata_default = ''{}'', rx_metadata_from_value = Inr\<rparr>"

lemma steady_admin: "steady steady_server admin_conn"
  by (simp add: steady_def steady_server_def admin_conn_def demo_server_def demo_def check_expiry_def)


text \<open>
  C21: reading through the remote store. A get returns the key, value and version that the server's
  store returned (text that is not valid UTF-8 is replaced lossily), for the current or a given
  version, and reports a missing key as missing. The metadata and the timestamps of the entry are not
  requested: the caller always sees the defaults.
\<close>

theorem remote_get_refines:
  assumes "ready S c st" and "fits ns" and "fits key"
    and "acl_gate (sv_dispatcher S) (auth c) (Get ns key version False) (world st) = None"
    and "st_get (d_store (sv_dispatcher S)) ns key version (world st) = (r, s')"
    and "r = Inr e \<and> length (e_key e) < 2 ^ 63 \<and> length (e_value e) < 2 ^ 63 \<or> r = Inl SE_NotFound"
  shows "answers (remote_get R (served S) ns key version) c st
    (map_sum id (\<lambda>e. \<lparr>e_key = from_utf8_lossy (e_key e), e_value = from_utf8_lossy (e_value e),
       e_metadata = rx_metadata_default R, e_version = e_version e, e_created_at = 0, e_updated_at = 0\<rparr>) r) s'"
  using assms by (rule answers_get)

theorem remote_get_refines_witness:
  "answers (remote_get text_remote_ext (served steady_server) ''n'' ''k'' None) admin_conn
     (demo_state\<lparr>world := \<lparr>m_data = [((''n'', ''k''), ''v'', 4)], m_clock = 0\<rparr>\<rparr>)
    (map_sum id (\<lambda>e. \<lparr>e_key = from_utf8_lossy (e_key e), e_value = from_utf8_lossy (e_value e),
       e_metadata = rx_metadata_default text_remote_ext, e_version = e_version e, e_created_at = 0, e_updated_at = 0\<rparr>)
      (Inr \<lparr>e_key = ''k'', e_value = ''v'', e_metadata = ''{}'', e_version = 4\<rparr>))
    \<lparr>m_data = [((''n'', ''k''), ''v'', 4)], m_clock = 1\<rparr>"
  by (rule remote_get_refines [OF steady_ready [OF steady_admin] _ _ steady_allowed [OF steady_admin],
        where e = "\<lparr>e_key = ''k'', e_value = ''v'', e_metadata = ''{}'', e_version = 4\<rparr>"])
    (simp_all add: fits_def utf8_valid_ascii MAX_BULK_SIZE_def steady_server_def demo_server_def demo_simps)



end
