(* ===== verification/Remote_Reads.thy ===== *)
theory Remote_Reads
  imports End_To_End Command_Syntax
begin

text \<open>
  The listings of the remote store composed with the server: keys, versions of a key, namespaces and the
  information of a namespace, read through the client library, are those of the server's store.
\<close>

section \<open>Requests in the syntax of commands\<close>

lemma short_args: "pipeline_depth cmd = 0 \<Longrightarrow> dispatched cmd \<Longrightarrow> length (command_args X cmd) \<le> 10"
  by (cases cmd) (simp_all add: dispatched_def opt_arg_def flag_def split: option.split)

lemma accepted_args:
  assumes "ready S c st" and "command_wf cmd" and "pipeline_depth cmd = 0" and "dispatched cmd"
    and "json_laws (d_ext (sv_dispatcher S)) cmd" and "list_all fits (command_args (d_ext (sv_dispatcher S)) cmd)"
    and "acl_gate (sv_dispatcher S) (auth c) cmd (world st) = None"
  shows "accepted S c st (command_args (d_ext (sv_dispatcher S)) cmd) cmd"
proof -
  let ?args = "command_args (d_ext (sv_dispatcher S)) cmd"
  have "length ?args \<le> 10" using assms(3,4) by (rule short_args)
  moreover have "\<not> is_pipeline cmd" using assms(3) by (cases cmd) simp_all
  ultimately show ?thesis
    using assms parse_flat_args [OF assms(5,2,3)] command_args_verb [OF assms(3), of "d_ext (sv_dispatcher S)"]
    by (auto simp: accepted_def)
qed

lemma remote_call_ok:
  assumes "accepted S c st args cmd" and "dispatch (sv_dispatcher S) cmd (world st) = (Some (Inr m), s')"
    and "client_ok (response_map_to_frame (d_ext (sv_dispatcher S)) m)"
    and "decode (client_view (response_map_to_frame (d_ext (sv_dispatcher S)) m)) = r"
  shows "answers (remote X (send_command (served S) args) decode) c st r s'"
proof -
  have "client_ok (response_to_frame (d_ext (sv_dispatcher S)) (result_response (Inr m)))"
    using assms(3) by (simp add: result_response_def)
  from exchange_flat [OF assms(1,2) this] show ?thesis
    using assms(4) by (auto simp: answers_def remote_def store_result_def result_response_def)
qed

section \<open>Read operations\<close>

datatype read_op =
    RdList string "bytes option" "string option" usize
  | RdVersions string bytes usize "u64 option"
  | RdNamespaces "string option" usize
  | RdInfo string

datatype read_result =
    RrPage page
  | RrVersions "version_info list"
  | RrInfo namespace_info

text \<open>The operation on a store, and through a connection.\<close>

definition on_result :: "('r \<Rightarrow> 'q) \<Rightarrow> ('e + 'r) \<times> 's \<Rightarrow> ('e + 'q) \<times> 's" where
  "on_result f = map_prod (map_sum id f) id"

lemma on_result_Inr: "on_result f x = (Inr r, s') \<Longrightarrow> \<exists>p. x = (Inr p, s') \<and> r = f p"
  by (cases x; cases "fst x") (auto simp: on_result_def)

definition local_read :: "('s, 'x) store \<Rightarrow> read_op \<Rightarrow> ('s, 'x, read_result) op" where
  "local_read T oper s = (case oper of
     RdList ns pre cursor limit \<Rightarrow> on_result RrPage (st_list T ns pre cursor limit s)
   | RdVersions ns key limit frm \<Rightarrow> on_result RrVersions (st_versions T ns key limit frm s)
   | RdNamespaces cursor limit \<Rightarrow> on_result RrPage (st_namespace_list T cursor limit s)
   | RdInfo ns \<Rightarrow> on_result RrInfo (st_namespace_info T ns s))"

definition on_answer :: "('r \<Rightarrow> 'q) \<Rightarrow> ('e + 'r) option \<times> 's \<Rightarrow> ('e + 'q) option \<times> 's" where
  "on_answer f = map_prod (map_option (map_sum id f)) id"

definition remote_read :: "'x remote_ext \<Rightarrow> 'w connection \<Rightarrow> read_op \<Rightarrow> ('w, 'x, read_result) remote_op" where
  "remote_read R C oper = (case oper of
     RdList ns pre cursor limit \<Rightarrow> on_answer RrPage \<circ> remote_list R C ns pre cursor limit
   | RdVersions ns key limit frm \<Rightarrow> on_answer RrVersions \<circ> remote_versions R C ns key limit frm
   | RdNamespaces cursor limit \<Rightarrow> on_answer RrPage \<circ> remote_namespace_list R C cursor limit
   | RdInfo ns \<Rightarrow> on_answer (RrInfo \<circ> namespace_info.truncate) \<circ> remote_namespace_info R C ns)"

lemma answers_map:
  "answers rop c st r s' \<Longrightarrow> answers (on_answer f \<circ> rop) c st (map_sum id f r) s'"
  by (auto simp: answers_def on_answer_def)

definition read_ok :: "read_op \<Rightarrow> bool" where
  "read_ok oper = (case oper of
     RdList ns pre cursor limit \<Rightarrow> fits ns \<and> pred_option fits pre \<and> pred_option fits cursor
   | RdVersions ns key limit frm \<Rightarrow> fits ns \<and> fits key
   | RdNamespaces cursor limit \<Rightarrow> pred_option fits cursor
   | RdInfo ns \<Rightarrow> fits ns)"

text \<open>Texts that survive the way back: UTF-8, of a length that can be printed; and lists that can be counted.\<close>

definition text_back :: "string \<Rightarrow> bool" where
  "text_back s \<longleftrightarrow> utf8_valid s \<and> length s < 2 ^ 63"

fun result_back :: "read_result \<Rightarrow> bool" where
  "result_back (RrPage p) = (length (p_keys p) < 2 ^ 63 \<and> list_all text_back (p_keys p) \<and> pred_option text_back (p_cursor p))"
| "result_back (RrVersions vs) = (length vs < 2 ^ 63 \<and> list_all (\<lambda>v. text_back (vi_actor v)) vs)"
| "result_back (RrInfo i) = text_back (ni_name i)"

definition read_command_of :: "read_op \<Rightarrow> 'x command" where
  "read_command_of oper = (case oper of
     RdList ns pre cursor limit \<Rightarrow> List ns pre cursor (Some limit)
   | RdVersions ns key limit frm \<Rightarrow> Versions ns key (Some limit) frm
   | RdNamespaces cursor limit \<Rightarrow> NamespaceList cursor (Some limit)
   | RdInfo ns \<Rightarrow> NamespaceInfo ns)"

lemma fits_read_words:
  "fits ''LIST''" "fits ''PREFIX''" "fits ''CURSOR''" "fits ''LIMIT''" "fits ''VERSIONS''" "fits ''FROM''"
  "fits ''NAMESPACE''" "fits ''INFO''"
  by (simp_all add: fits_def MAX_BULK_SIZE_def utf8_valid_ascii)

lemma accepted_read:
  assumes "ready S c st" and "read_ok oper"
    and "acl_gate (sv_dispatcher S) (auth c) (read_command_of oper) (world st) = None"
  shows "accepted S c st (command_args (d_ext (sv_dispatcher S)) (read_command_of oper)) (read_command_of oper)"
  using assms
  by (intro accepted_args; cases oper)
    (auto simp: read_command_of_def read_ok_def dispatched_def json_laws_def opt_arg_def fits_read_words fits_u64 split: option.splits)

section \<open>Responses\<close>

lemma lossy_read_words:
  "from_utf8_lossy ''namespaces'' = ''namespaces''" "from_utf8_lossy ''versions'' = ''versions''"
  "from_utf8_lossy ''state'' = ''state''" "from_utf8_lossy ''updated_at'' = ''updated_at''" "from_utf8_lossy ''actor'' = ''actor''"
  "from_utf8_lossy ''active'' = ''active''" "from_utf8_lossy ''deleted'' = ''deleted''" "from_utf8_lossy ''name'' = ''name''"
  "from_utf8_lossy ''key_count'' = ''key_count''" "from_utf8_lossy ''created_at'' = ''created_at''"
  by (simp_all add: utf8_valid_ascii)

lemmas response_simps = response_map_to_frame_def rm_with_def rm_ok_def lossy_words lossy_read_words get_string_field_def
  get_int_field_def get_field_def to_display_string_def as_str_def as_int_def text_back_def

lemma strings_back: "list_all text_back ks \<Longrightarrow> List.map_filter as_str (map (\<lambda>k. RString (from_utf8_lossy k)) ks) = ks"
  by (induction ks) (simp_all add: text_back_def as_str_def)

lemma page_back:
  assumes "result_back (RrPage p)" and "name = ''keys'' \<and> f = RvBytes \<or> name = ''namespaces'' \<and> f = (\<lambda>k. RvString (from_utf8_lossy k))"
  shows "client_ok (response_map_to_frame X (with_cursor (rm_with rm_ok name (RvArray (map f (p_keys p)))) (p_cursor p)))"
    and "page_field name (client_view (response_map_to_frame X
      (with_cursor (rm_with rm_ok name (RvArray (map f (p_keys p)))) (p_cursor p)))) = Inr p"
proof -
  have f: "map (response_value_to_frame X \<circ> f) (p_keys p) = map BulkString (p_keys p)"
    using assms by (auto simp: text_back_def list_all_iff)
  show "client_ok (response_map_to_frame X (with_cursor (rm_with rm_ok name (RvArray (map f (p_keys p)))) (p_cursor p)))"
    using assms by (cases "p_cursor p") (auto simp: with_cursor_def response_simps f list_all_iff)
  have "client_view (response_map_to_frame X (with_cursor (rm_with rm_ok name (RvArray (map f (p_keys p)))) (p_cursor p))) =
      RMap ((RString ''status'', RString ''OK'') # (RString name, RArray (map (\<lambda>k. RString (from_utf8_lossy k)) (p_keys p))) #
        (case p_cursor p of None \<Rightarrow> [] | Some c \<Rightarrow> [(RString ''cursor'', RString c)]))"
    using assms by (cases "p_cursor p") (auto simp: with_cursor_def response_simps f comp_def)
  then show "page_field name (client_view (response_map_to_frame X
      (with_cursor (rm_with rm_ok name (RvArray (map f (p_keys p)))) (p_cursor p)))) = Inr p"
    using assms strings_back [of "p_keys p"]
    by (cases "p_cursor p") (auto simp: page_field_def string_items_def response_simps)
qed

lemma version_back:
  "text_back (vi_actor v) \<Longrightarrow> client_ok (response_value_to_frame X (version_entry v))"
  "text_back (vi_actor v) \<Longrightarrow> remote_version_info (client_view (response_value_to_frame X (version_entry v))) = v"
  by (cases "vi_state v"; simp add: version_entry_def remote_version_info_def entry_state_str_def response_simps)+

lemma versions_back:
  assumes "result_back (RrVersions vs)"
  shows "client_ok (response_map_to_frame X (rm_with rm_ok ''versions'' (RvArray (map version_entry vs))))"
    and "\<exists>items. get_field (client_view (response_map_to_frame X (rm_with rm_ok ''versions'' (RvArray (map version_entry vs))))) ''versions'' =
      Some (RArray items) \<and> map remote_version_info items = vs"
  using assms by (auto simp: response_simps list_all_iff version_back map_idI)

lemma info_back:
  assumes "result_back (RrInfo i)"
  defines "m \<equiv> rm_with (rm_with (rm_with rm_ok ''name'' (RvString (ni_name i)))
        ''key_count'' (RvInteger (ni_key_count i))) ''created_at'' (RvInteger (ni_created_at i))"
  shows "client_ok (response_map_to_frame X m)"
    and "checked parse_namespace_info (client_view (response_map_to_frame X m)) =
      Inr \<lparr>cni_name = ni_name i, cni_key_count = ni_key_count i, cni_created_at = ni_created_at i\<rparr>"
  using assms by (simp_all add: response_simps checked_def check_ok_def parse_namespace_info_def)

section \<open>The operations against the server\<close>

lemma answers_list:
  assumes acc: "accepted S c st (list_args ns pre cursor limit) (List ns pre cursor (Some limit))"
    and p: "st_list (d_store (sv_dispatcher S)) ns pre cursor limit (world st) = (Inr p, s')" and ok: "result_back (RrPage p)"
  shows "answers (remote_list R (served S) ns pre cursor limit) c st (Inr p) s'"
proof -
  have d: "dispatch (sv_dispatcher S) (List ns pre cursor (Some limit)) (world st) =
      (Some (Inr (with_cursor (rm_with rm_ok ''keys'' (RvArray (map RvBytes (p_keys p)))) (p_cursor p))), s')"
    using p by (simp add: no_panic_def handle_list_def call_def unwrap_or_def)
  show ?thesis unfolding remote_list_def using ok by (intro remote_call_ok [OF acc d] page_back) simp_all
qed

lemma answers_versions:
  assumes acc: "accepted S c st (versions_args ns key limit frm) (Versions ns key (Some limit) frm)"
    and p: "st_versions (d_store (sv_dispatcher S)) ns key limit frm (world st) = (Inr vs, s')" and ok: "result_back (RrVersions vs)"
  shows "answers (remote_versions R (served S) ns key limit frm) c st (Inr vs) s'"
proof -
  have d: "dispatch (sv_dispatcher S) (Versions ns key (Some limit) frm) (world st) =
      (Some (Inr (rm_with rm_ok ''versions'' (RvArray (map version_entry vs)))), s')"
    using p by (simp add: no_panic_def handle_versions_def call_def unwrap_or_def)
  show ?thesis unfolding remote_versions_def using versions_back(2) [OF ok, of "d_ext (sv_dispatcher S)"]
    by (intro remote_call_ok [OF acc d] versions_back ok) auto
qed

lemma answers_namespaces:
  assumes acc: "accepted S c st ([''NAMESPACE'', ''LIST''] @
        (case cursor of Some c \<Rightarrow> [''CURSOR'', c] | None \<Rightarrow> []) @ [''LIMIT'', u64_to_string limit]) (NamespaceList cursor (Some limit))"
    and p: "st_namespace_list (d_store (sv_dispatcher S)) cursor limit (world st) = (Inr p, s')" and ok: "result_back (RrPage p)"
  shows "answers (remote_namespace_list R (served S) cursor limit) c st (Inr p) s'"
proof -
  have d: "dispatch (sv_dispatcher S) (NamespaceList cursor (Some limit)) (world st) =
      (Some (Inr (with_cursor (rm_with rm_ok ''namespaces''
        (RvArray (map (\<lambda>k. RvString (from_utf8_lossy k)) (p_keys p)))) (p_cursor p))), s')"
    using p by (simp add: no_panic_def handle_namespace_list_def call_def unwrap_or_def)
  show ?thesis unfolding remote_namespace_list_def using ok by (intro remote_call_ok [OF acc d] page_back) simp_all
qed

lemma answers_info:
  assumes acc: "accepted S c st [''NAMESPACE'', ''INFO'', ns] (NamespaceInfo ns)"
    and p: "st_namespace_info (d_store (sv_dispatcher S)) ns (world st) = (Inr i, s')" and ok: "result_back (RrInfo i)"
  shows "answers (remote_namespace_info R (served S) ns) c st
      (Inr \<lparr>ni_name = ni_name i, ni_key_count = ni_key_count i, ni_created_at = ni_created_at i, ni_config = default_config\<rparr>) s'"
proof -
  have d: "dispatch (sv_dispatcher S) (NamespaceInfo ns) (world st) =
      (Some (Inr (rm_with (rm_with (rm_with rm_ok ''name'' (RvString (ni_name i)))
        ''key_count'' (RvInteger (ni_key_count i))) ''created_at'' (RvInteger (ni_created_at i)))), s')"
    using p by (simp add: no_panic_def handle_info_def call_def)
  show ?thesis unfolding remote_namespace_info_def client_get_namespace_info_def remote_decoded
    by (intro remote_call_ok [OF acc d] info_back ok) (simp add: info_back [OF ok])
qed

lemma answers_read:
  assumes "ready S c st" and "read_ok oper"
    and "acl_gate (sv_dispatcher S) (auth c) (read_command_of oper) (world st) = None"
    and "local_read (d_store (sv_dispatcher S)) oper (world st) = (Inr r, s')" and "result_back r"
  shows "answers (remote_read R (served S) oper) c st (Inr r) s'"
  using accepted_read [OF assms(1-3)]
proof (cases oper)
  case (RdList ns pre cursor limit)
  then obtain p where p: "st_list (d_store (sv_dispatcher S)) ns pre cursor limit (world st) = (Inr p, s')" "r = RrPage p"
    using assms(4) by (auto simp: local_read_def dest: on_result_Inr)
  have "list_args ns pre cursor limit = command_args (d_ext (sv_dispatcher S)) (read_command_of oper)"
    using assms(2) RdList by (auto simp: read_command_of_def list_args_def read_ok_def fits_lossy split: option.split)
  then have "answers (remote_list R (served S) ns pre cursor limit) c st (Inr p) s'"
    using accepted_read [OF assms(1-3)] p assms(5) RdList by (intro answers_list) (simp_all add: read_command_of_def)
  from answers_map [OF this, of RrPage] show ?thesis using RdList p by (simp add: remote_read_def)
next
  case (RdVersions ns key limit frm)
  then obtain vs where p: "st_versions (d_store (sv_dispatcher S)) ns key limit frm (world st) = (Inr vs, s')" "r = RrVersions vs"
    using assms(4) by (auto simp: local_read_def dest: on_result_Inr)
  have "versions_args ns key limit frm = command_args (d_ext (sv_dispatcher S)) (read_command_of oper)"
    using assms(2) RdVersions by (auto simp: read_command_of_def versions_args_def read_ok_def fits_lossy split: option.split)
  then have "answers (remote_versions R (served S) ns key limit frm) c st (Inr vs) s'"
    using accepted_read [OF assms(1-3)] p assms(5) RdVersions by (intro answers_versions) (simp_all add: read_command_of_def)
  from answers_map [OF this, of RrVersions] show ?thesis using RdVersions p by (simp add: remote_read_def)
next
  case (RdNamespaces cursor limit)
  then obtain p where p: "st_namespace_list (d_store (sv_dispatcher S)) cursor limit (world st) = (Inr p, s')" "r = RrPage p"
    using assms(4) by (auto simp: local_read_def dest: on_result_Inr)
  have "[''NAMESPACE'', ''LIST''] @ (case cursor of Some c \<Rightarrow> [''CURSOR'', c] | None \<Rightarrow> []) @ [''LIMIT'', u64_to_string limit] =
      command_args (d_ext (sv_dispatcher S)) (read_command_of oper)"
    using RdNamespaces by (simp add: read_command_of_def split: option.split)
  then have "answers (remote_namespace_list R (served S) cursor limit) c st (Inr p) s'"
    using accepted_read [OF assms(1-3)] p assms(5) RdNamespaces by (intro answers_namespaces) (simp_all add: read_command_of_def)
  from answers_map [OF this, of RrPage] show ?thesis using RdNamespaces p by (simp add: remote_read_def)
next
  case (RdInfo ns)
  then obtain i where p: "st_namespace_info (d_store (sv_dispatcher S)) ns (world st) = (Inr i, s')" "r = RrInfo i"
    using assms(4) by (auto simp: local_read_def dest: on_result_Inr)
  then have "answers (remote_namespace_info R (served S) ns) c st
      (Inr \<lparr>ni_name = ni_name i, ni_key_count = ni_key_count i, ni_created_at = ni_created_at i, ni_config = default_config\<rparr>) s'"
    using accepted_read [OF assms(1-3)] assms(5) RdInfo by (intro answers_info) (simp_all add: read_command_of_def)
  from answers_map [OF this, of "RrInfo \<circ> namespace_info.truncate"] show ?thesis
    using RdInfo p by (cases i) (simp add: remote_read_def namespace_info.defs)
qed

section \<open>Changes of namespaces\<close>

datatype namespace_op =
    NsCreate "u64 option" "u64 option"
  | NsAlter "u64 option" "u64 option"
  | NsDrop bool

definition plain_config :: "u64 option \<Rightarrow> u64 option \<Rightarrow> 'x namespace_config" where
  "plain_config mv tr = \<lparr>nc_meta_schema = None, nc_max_versions = mv, nc_tombstone_retention_secs = tr\<rparr>"

definition local_namespace :: "('s, 'x) store \<Rightarrow> string \<Rightarrow> namespace_op \<Rightarrow> ('s, 'x, unit) op" where
  "local_namespace T ns oper = (case oper of
     NsCreate mv tr \<Rightarrow> st_namespace_create T ns (plain_config mv tr)
   | NsAlter mv tr \<Rightarrow> st_namespace_alter T ns (plain_config mv tr)
   | NsDrop force \<Rightarrow> st_namespace_drop T ns force)"

definition remote_namespace :: "'x remote_ext \<Rightarrow> 'w connection \<Rightarrow> string \<Rightarrow> namespace_op \<Rightarrow> ('w, 'x, unit) remote_op" where
  "remote_namespace R C ns oper = (case oper of
     NsCreate mv tr \<Rightarrow> remote_namespace_create R C ns (plain_config mv tr)
   | NsAlter mv tr \<Rightarrow> remote_namespace_alter R C ns (plain_config mv tr)
   | NsDrop force \<Rightarrow> remote_namespace_drop R C ns force)"

definition namespace_command :: "string \<Rightarrow> namespace_op \<Rightarrow> 'x command" where
  "namespace_command ns oper = (case oper of
     NsCreate mv tr \<Rightarrow> NamespaceCreate ns None mv tr
   | NsAlter mv tr \<Rightarrow> NamespaceAlter ns None mv tr
   | NsDrop force \<Rightarrow> NamespaceDrop ns force)"

lemma fits_namespace_words:
  "fits ''CREATE''" "fits ''ALTER''" "fits ''DROP''" "fits ''FORCE''" "fits ''MAX_VERSIONS''" "fits ''TOMBSTONE_RETENTION''"
  by (simp_all add: fits_def MAX_BULK_SIZE_def utf8_valid_ascii)

lemma try_res_Inr: "try_res r Inr = r"
  by (cases r) simp_all

text \<open>Creating, altering and dropping a namespace through the client library is doing so in the server's store.\<close>

lemma answers_namespace:
  assumes "ready S c st" and "fits ns"
    and "acl_gate (sv_dispatcher S) (auth c) (namespace_command ns oper) (world st) = None"
    and "local_namespace (d_store (sv_dispatcher S)) ns oper (world st) = (Inr (), s')"
  shows "answers (remote_namespace R (served S) ns oper) c st (Inr ()) s'"
proof -
  let ?cmd = "namespace_command ns oper"
  have acc: "accepted S c st (command_args (d_ext (sv_dispatcher S)) ?cmd) ?cmd"
    using assms(1-3) by (intro accepted_args; cases oper)
      (auto simp: namespace_command_def dispatched_def json_laws_def opt_arg_def flag_def fits_read_words fits_namespace_words fits_u64
        split: option.splits)
  have d: "dispatch (sv_dispatcher S) ?cmd (world st) = (Some (Inr rm_ok), s')"
    using assms(4) by (cases oper) (simp_all add: namespace_command_def local_namespace_def plain_config_def no_panic_def
        handle_create_def handle_alter_def handle_drop_def namespace_parse_config_def call_def)
  have ok: "client_ok (response_map_to_frame (d_ext (sv_dispatcher S)) rm_ok)"
      "check_ok (client_view (response_map_to_frame (d_ext (sv_dispatcher S)) rm_ok)) = Inr ()"
    by (simp_all add: response_simps check_ok_def)
  have "remote_namespace R (served S) ns oper = remote (rx_ext R) (send_command (served S) (command_args (d_ext (sv_dispatcher S)) ?cmd))
      (ok_response (rx_ext R))"
    by (cases oper) (auto simp: remote_namespace_def remote_namespace_create_def remote_namespace_alter_def remote_namespace_drop_def
        client_namespace_drop_def remote_decoded namespace_command_def config_args_def plain_config_def ok_response_def [abs_def] try_res_Inr
        split: option.split)
  then show ?thesis using remote_call_ok [OF acc d ok(1), of "ok_response (rx_ext R)"] by (simp add: ok_response_def ok(2))
qed

section \<open>Properties\<close>



end
