(* ===== verification/Cli_Session.thy ===== *)
theory Cli_Session
  imports Cli_Help Remote_Reads
begin

text \<open>
  \<open>main\<close> of the command line client, \<open>shroudb-cli/src/main.rs\<close>, with its read-eval-print loop, and the
  client composed with the server: a command typed at the prompt is executed by the server, and what is
  printed is the server's response.
\<close>

section \<open>The read-eval-print loop\<close>

text \<open>The results of \<open>readline\<close>.\<close>

datatype readline = Line string | Interrupted | Eof | Readline_error string

text \<open>How the loop stands: waiting for the next line, left by \<open>break\<close>, or the process has panicked.\<close>

datatype loop_end = Waiting | Broken | Crashed

text \<open>What the loop uses of other crates: errors as text, and JSON values with their pretty printer.\<close>

record ('x, 'j) cli_env =
  ce_ext :: "'x ext"
  ce_json :: "'j json_ops"
  ce_pretty :: "'j \<Rightarrow> string + string"

text \<open>One command: what is written to standard output and standard error, or a panic.\<close>

definition run_command :: "('x, 'j) cli_env \<Rightarrow> 'w connection \<Rightarrow> output_mode \<Rightarrow> string list \<Rightarrow> 'w \<Rightarrow>
    (string \<times> string) option \<times> 'w" where
  "run_command E C om args w = (case send_command C args w of
     (Inr resp, w') \<Rightarrow> (Some (print_output (ce_json E) (ce_pretty E) resp om), w')
   | (Inl (Fails e), w') \<Rightarrow> (Some ([], ''error: '' @ client_error_to_string (ce_ext E) e @ [LF]), w')
   | (Inl Panics, w') \<Rightarrow> (None, w'))"

fun repl :: "('x, 'j) cli_env \<Rightarrow> 'w connection \<Rightarrow> output_mode \<Rightarrow> readline list \<Rightarrow> 'w \<Rightarrow>
    (string \<times> string) list \<times> loop_end \<times> 'w" where
  "repl E C om [] w = ([], Waiting, w)"
| "repl E C om (Line line # events) w = (case repl_line (trim line) of
     Skip \<Rightarrow> repl E C om events w
   | CommandHelp cmd \<Rightarrow> apfst (Cons (print_command_help cmd, [])) (repl E C om events w)
   | Help \<Rightarrow> apfst (Cons (print_help, [])) (repl E C om events w)
   | Quit \<Rightarrow> ([], Broken, w)
   | Send args \<Rightarrow> (case run_command E C om args w of
       (Some written, w') \<Rightarrow> apfst (Cons written) (repl E C om events w')
     | (None, w') \<Rightarrow> ([], Crashed, w')))"
| "repl E C om (Interrupted # events) w = ([], Broken, w)"
| "repl E C om (Eof # events) w = ([], Broken, w)"
| "repl E C om (Readline_error e # events) w = ([([], ''readline error: '' @ e @ [LF])], Broken, w)"

section \<open>The process\<close>

text \<open>The parsed arguments, \<open>struct Cli\<close>.\<close>

record cli_args =
  cli_uri :: "string option"
  cli_host :: string
  cli_port :: u16
  cli_json :: bool
  cli_raw :: bool
  cli_tls :: bool
  cli_command :: "string list"

definition cli_default :: cli_args where
  "cli_default = \<lparr>cli_uri = None, cli_host = ''127.0.0.1'', cli_port = 6399, cli_json = False, cli_raw = False,
     cli_tls = False, cli_command = []\<rparr>"

text \<open>
  The terminal: the home directory of the environment, the error of creating the line editor, the
  result of loading the history (\<open>Inl None\<close> is an input/output error), and the results of \<open>readline\<close>.
\<close>

record terminal =
  tm_home :: "string option"
  tm_editor_error :: "string option"
  tm_load_history :: "string \<Rightarrow> string option + unit"
  tm_lines :: "readline list"

definition dirs_home :: "string option \<Rightarrow> string" where
  "dirs_home home = (case home of Some h \<Rightarrow> h | None \<Rightarrow> ''.'')"

text \<open>\<open>Path::join\<close> with a relative path.\<close>

definition path_join :: "string \<Rightarrow> string \<Rightarrow> string" where
  "path_join base p = (if base = [] then p else if last base = CHR ''/'' then base @ p else base @ ''/'' @ p)"

definition CARGO_PKG_VERSION :: string where
  "CARGO_PKG_VERSION = ''1.1.0''"

definition greeting :: "string \<Rightarrow> string" where
  "greeting addr = ''shroudb-cli v'' @ CARGO_PKG_VERSION @ '' '' @ EM_DASH @ '' connected to '' @ addr @ [LF] @
     ''Type '' @ [CHR 0x27] @ ''help'' @ [CHR 0x27] @ '' for commands, Ctrl-C to exit.'' @ [LF] @ [LF]"

text \<open>
  How the process stands: an error that \<open>main\<close> returns, a panic, still reading lines, or finished, with
  the file the history is saved to.
\<close>

datatype cli_exit = Exit_error string | Exit_panic | Reading | Exit_ok "string option"

definition failure_exit :: "'x ext \<Rightarrow> failure \<Rightarrow> cli_exit" where
  "failure_exit X f = (case f of Fails e \<Rightarrow> Exit_error (client_error_to_string X e) | Panics \<Rightarrow> Exit_panic)"

text \<open>The interactive part of \<open>main\<close>.\<close>

definition interactive :: "('x, 'j) cli_env \<Rightarrow> terminal \<Rightarrow> string \<Rightarrow> 'w connection \<Rightarrow> output_mode \<Rightarrow> 'w \<Rightarrow>
    (string \<times> string) list \<times> cli_exit \<times> 'w" where
  "interactive E T addr C om w =
     (let hello = (greeting addr, []); history = path_join (dirs_home (tm_home T)) ''.shroudb_history'' in
      case tm_editor_error T of
        Some e \<Rightarrow> ([hello], Exit_error e, w)
      | None \<Rightarrow>
          (let warning = (case tm_load_history T history of
                 Inl (Some e) \<Rightarrow> [([], ''warning: could not load history: '' @ e @ [LF])]
               | _ \<Rightarrow> [])
           in case repl E C om (tm_lines T) w of (outs, fin, w') \<Rightarrow>
             (hello # warning @ outs,
              (case fin of Waiting \<Rightarrow> Reading | Broken \<Rightarrow> Exit_ok (Some history) | Crashed \<Rightarrow> Exit_panic), w')))"

definition cli_main :: "('x, 'j) cli_env \<Rightarrow> (bool \<Rightarrow> string \<Rightarrow> ('w, 'w connection) request) \<Rightarrow> terminal \<Rightarrow> cli_args \<Rightarrow> 'w \<Rightarrow>
    (string \<times> string) list \<times> cli_exit \<times> 'w" where
  "cli_main E connect T args w =
     (let om = output_mode_of (cli_raw args) (cli_json args) in
      case cli_connect connect (cli_uri args) (cli_host args) (cli_port args) (cli_tls args) w of
        (Inl f, w1) \<Rightarrow> ([], failure_exit (ce_ext E) f, w1)
      | (Inr (addr, C), w1) \<Rightarrow>
          if cli_command args \<noteq> [] then
            (case send_command C (cli_command args) w1 of
               (Inl f, w2) \<Rightarrow> ([], failure_exit (ce_ext E) f, w2)
             | (Inr resp, w2) \<Rightarrow> ([print_output (ce_json E) (ce_pretty E) resp om], Exit_ok None, w2))
          else interactive E T addr C om w1)"

section \<open>Typing a command\<close>

text \<open>The words of a command in quotes, with a blank between them.\<close>

definition quote_line :: "string list \<Rightarrow> string" where
  "quote_line ws = quote (hd ws) @ concat (map (\<lambda>w. '' '' @ quote w) (tl ws))"

lemma quote_loop: "shell_words_loop NormalQ [] (quote w @ rest) = shell_words_loop NormalQ w rest"
  using shell_words_escape [of "[]" w rest] by (simp add: quote_def)

lemma shell_words_blanks:
  "list_all (\<lambda>w. w \<noteq> []) ws \<Longrightarrow>
    shell_words_loop NormalQ current (concat (map (\<lambda>w. '' '' @ quote w) ws)) = flush_word current @ ws"
  by (induction ws arbitrary: current) (simp_all add: quote_loop flush_word_def)

lemma quote_line_words: "ws \<noteq> [] \<Longrightarrow> list_all (\<lambda>w. w \<noteq> []) ws \<Longrightarrow> shell_words (quote_line ws) = ws"
  by (cases ws) (simp_all add: quote_line_def shell_words_def quote_loop shell_words_blanks [simplified] flush_word_def)

lemma last_quoted: "last (quote w @ concat (map (\<lambda>w. '' '' @ quote w) ws)) = CHR 0x22"
  by (induction ws arbitrary: w) (simp_all add: quote_def)

lemma quote_line_ends: "quote_line ws \<noteq> []" "hd (quote_line ws) = CHR 0x22" "last (quote_line ws) = CHR 0x22"
  using last_quoted [of "hd ws" "tl ws"] by (simp_all add: quote_line_def quote_def)

lemma trim_quote_line: "trim (quote_line ws) = quote_line ws"
  by (rule trim_id) (simp_all add: quote_line_ends)

lemma repl_line_quoted:
  assumes "ws \<noteq> []" and "list_all (\<lambda>w. w \<noteq> []) ws"
  shows "repl_line (quote_line ws) = Send ws"
proof -
  obtain s where s: "quote_line ws = CHR 0x22 # s" using quote_line_ends [of ws] by (cases "quote_line ws") auto
  have "\<not> eq_ignore_ascii_case (CHR 0x22 # s) ''help''" "\<not> eq_ignore_ascii_case (CHR 0x22 # s) ''quit''"
      "\<not> eq_ignore_ascii_case (CHR 0x22 # s) ''exit''"
    by (simp_all add: eq_ignore_ascii_case_def to_ascii_lowercase_def to_ascii_lower_char_def)
  then show ?thesis using quote_line_words [OF assms] by (simp add: repl_line_def s)
qed

text \<open>
  A command given on the command line: its response is printed and the process ends with success, also
  when the response is an error.
\<close>

lemma one_shot:
  assumes "cli_uri args = None" and "cli_command args \<noteq> []"
    and "connect (cli_tls args) (cli_host args @ '':'' @ dec_of_nat (unat (cli_port args))) w = (Inr C, w1)"
    and "send_command C (cli_command args) w1 = (Inr resp, w2)"
  shows "cli_main E connect T args w =
    ([print_output (ce_json E) (ce_pretty E) resp (output_mode_of (cli_raw args) (cli_json args))], Exit_ok None, w2)"
  using assms by (simp add: cli_main_def cli_connect_def)

section \<open>Properties\<close>


definition text_cli_ext :: "(string, string) cli_env" where
  "text_cli_ext = \<lparr>ce_ext = text_ext, ce_json = rx_json text_remote_ext, ce_pretty = Inr\<rparr>"


end
