(* ===== verification/Spec2Isabelle.thy ===== *)
theory Spec2Isabelle
  imports Deployment Webhooks Byte_Conn Cli_Session
begin

text \<open>
  ShrouDB, an encrypted versioned key-value store: a verification development of its server, its
  protocol and its clients.

  \<^bold>\<open>The program.\<close> A client writes commands as RESP3 arrays to a TCP connection. The server
  (\<open>shroudb-server\<close>) runs one task per connection, which reads a frame, parses it to a command, checks
  authentication, token expiry and rate limit, and hands it to the dispatcher of the protocol crate
  (\<open>shroudb-protocol\<close>). The dispatcher checks access, calls a handler, and answers pipelines with a
  request id from a cache. Handlers call the store, which is a crate outside the repository, as are the
  storage engine, the access-control crate and the cipher. Background tasks snapshot, flush, prune and
  compact; a reloader replaces the tokens; webhook actors deliver events. The client library
  (\<open>shroudb-client\<close>) offers requests and a \<open>Store\<close> over a connection, and \<open>shroudb-cli\<close> is a line editor
  on top of it. Subcommands of the server binary export, import and rekey offline.

  \<^bold>\<open>Conventions.\<close> A byte is a \<open>char\<close>; \<open>String\<close> and \<open>Vec<u8>\<close> are \<open>string\<close>. \<open>u64\<close>, \<open>usize\<close> and \<open>i64\<close> are
  \<open>64 word\<close>, \<open>u32\<close> is \<open>32 word\<close>, \<open>u16\<close> is \<open>16 word\<close>, and arithmetic on them wraps. A \<open>Result\<close> is a sum with the
  error on the left, \<open>?\<close> is \<open>try_res\<close>. A panic is \<open>None\<close> around a result (dispatcher, remote store,
  backup) or the value \<open>Panics\<close> (client reader). Code outside the repository is a parameter: values that
  are only passed around have the type \<open>'x\<close> (JSON, metadata, schemas), functions of other crates are
  fields of records (\<open>'x ext\<close>, \<open>('s, 'x) store\<close>, \<open>'s engine\<close>, \<open>'v validator_ops\<close>, \<open>'s bg_engine\<close>,
  \<open>webhook_ext\<close>, \<open>'x backup_ext\<close>, \<open>('s, 'x) replay_engine\<close>), and the state they act on is \<open>'s\<close>. What a
  theorem needs of them is a named hypothesis; each such hypothesis is met by a concrete instance in a
  witness (\<open>text_ext\<close>, \<open>mem_store\<close>, \<open>list_validator\<close>, \<open>demo_bg\<close>, \<open>log_engine\<close>, \<open>demo_backup\<close>).

  \<^bold>\<open>Library.\<close> \<open>Prelude\<close>: types, results, lists. \<open>Rust_Str\<close>: the string and integer functions of Rust's
  standard library that the sources use, UTF-8 included. \<open>F64\<close>: floating point numbers as rationals with
  infinities and a value for not-a-number, rounded to even at 53 bits; parsing, multiplication and conversion of
  integers, exact below \<open>2\<close> to the \<open>53\<close>. \<open>Wire_Codec\<close>: the locale \<open>wire_codec\<close>, the contract
  of an encoder and a decoder on a byte stream, with the laws of streams of messages; it is interpreted
  by the server's reader and writer, the client's reader on the server's frames, the client's commands
  on the server's reader, and the raw output on the client's reader; the locale \<open>polled_codec\<close> of \<open>Poll\<close>
  extends it. \<open>Mem_Store\<close>: a concrete store.

  \<^bold>\<open>Protocol crate.\<close>
  \<^item> \<open>Resp3\<close>: \<open>resp3/mod.rs\<close>, \<open>reader.rs\<close>, \<open>writer.rs\<close>. \<open>read_frame\<close> consumes the front of the bytes still to
    come. Lemmas: a well-formed frame is read back; an accepted frame respects the limits on depth,
    size and lines; frames in a stream are separated.
  \<^item> \<open>Poll\<close>: the same reader as the runtime drives it, on the bytes that have arrived: a poll is pending or
    returns, and a reader that is dropped loses what it has taken. Lemmas: polling agrees with reading on
    every longer stream, and the way the bytes are cut up does not matter.
  \<^item> \<open>Command\<close>: \<open>command.rs\<close>, \<open>error.rs\<close>, \<open>response.rs\<close>, \<open>resp3/serialize.rs\<close>.
  \<^item> \<open>Parse_Command\<close>: \<open>resp3/parse_command.rs\<close>, one definition per verb, option loops as recursion on the
    arguments. Lemmas: what accepted commands satisfy, pipelines, nesting depth. \<open>Command_Syntax\<close> writes
    every command as a frame, which the parser inverts.
  \<^item> \<open>Handlers\<close>: \<open>handlers/\<close>, one definition per handler.
  \<^item> \<open>Idempotency\<close>: \<open>idempotency.rs\<close>, with the locale \<open>response_cache\<close> interpreted by it.
  \<^item> \<open>Dispatch\<close>: \<open>dispatch.rs\<close>. \<open>execute\<close> recurses through pipelines. Lemmas: only authorised leaf commands
    change the store, replay, order, audit records, no panic on parsed commands.
  \<^item> \<open>Exec_Machine\<close>: \<open>execute\<close> as a small-step machine that gives way between the sub-commands of a
    pipeline; run alone it computes \<open>execute\<close>, and any number of machines interleave on one dispatcher. An
    operation of the store and an operation on the idempotency map are single steps.

  \<^bold>\<open>Server.\<close>
  \<^item> \<open>Rate_Limiter\<close> and \<open>Connection\<close>: \<open>connection.rs\<close>, the connection and subscription loops as a step function
    on events (a frame, a protocol error, an idle timeout, a pushed message, a signal).
  \<^item> \<open>Byte_Conn\<close>: the same task on the bytes of its socket, with the reader dropped when \<open>select!\<close> takes another
    branch. It refines the frame-level connection as long as no event cuts a frame in two.
  \<^item> \<open>Server\<close>: \<open>server.rs\<close>, the listeners, TLS handshakes and all connection tasks as a step function on
    events, so that a list of events is an interleaving; a task that executes a command proceeds by steps of
    \<open>Exec_Machine\<close>. An abort takes effect at once. Lemmas: every change of the store under
    authentication, the gauge of connections, atomicity of a command that is not interrupted, the drain.
  \<^item> \<open>Config\<close>, \<open>Reload\<close>, \<open>Startup\<close>: \<open>config.rs\<close>, \<open>reload.rs\<close> and the first part of \<open>main.rs\<close>, from the
    command line to the exit of the server, with the banner and the doctor. Lemmas: the expansion of
    variables ends and is a single pass; the memory budget is exact; which tokens are in force.
  \<^item> \<open>Scheduler\<close>, \<open>Webhooks\<close>: \<open>scheduler.rs\<close> with the metrics reporter and the periods of the tasks,
    \<open>webhooks.rs\<close>. Lemmas: retention of tombstones, delivery.
  \<^item> \<open>Deployment\<close>: the server as \<open>run_server\<close> assembles it from a configuration: connections, reloader and
    background tasks on one state. From the tokens of the configuration file to the changes of the data.
  \<^item> \<open>Backup\<close>: export, import and rekey of \<open>main.rs\<close>. The locale \<open>version_writer\<close> is a step that writes one
    version under the next number; the import step and the rekey step are its interpretations.

  \<^bold>\<open>Clients.\<close>
  \<^item> \<open>Client_Conn\<close>, \<open>Client_Response\<close>, \<open>Client\<close>: \<open>connection.rs\<close>, \<open>response.rs\<close>, \<open>lib.rs\<close>. A connection is a
    function from the bytes written to the bytes read, on a state \<open>'w\<close> of the peer.
  \<^item> \<open>Remote_Store\<close>: \<open>remote_store.rs\<close>.
  \<^item> \<open>Cli\<close>, \<open>Cli_Help\<close>, \<open>Cli_Session\<close>: \<open>shroudb-cli/src/main.rs\<close>, completion and splitting of lines, the
    help texts, and \<open>main\<close> with the read-eval-print loop; a command typed at the prompt is composed with the
    server's connection down to the dispatcher.
  \<^item> \<open>End_To_End\<close>: the peer of a client is a connection of the server. The abstract specification of the
    remote store is the store behind the server: writes and reads through the whole stack (client
    request, bytes, server reader, parser, dispatcher, handler, response, bytes, client reader,
    decoding) refine the operations of that store. \<open>Remote_Reads\<close> does the same for listings and for changes
    of namespaces.

  \<^bold>\<open>Termination and bounds.\<close> There is no fuel. The readers recurse on the remaining input (the server's
  reader also on the depth, bounded by \<open>MAX_DEPTH\<close>); the loop of \<open>expand_env_vars\<close>, which may run for ever,
  is a partial function with the value \<open>None\<close> for that. Hypotheses such as \<open>fits\<close> and \<open>client_ok\<close> are the
  limits of the protocol (bulk strings of at most \<open>MAX_BULK_SIZE\<close> bytes, collections of at most
  \<open>MAX_COLLECTION_SIZE\<close> elements, lines without line breaks).

  \<^bold>\<open>Not modelled.\<close> Sockets, the TLS library and timeouts of the operating system, whose outcomes are events or
  parameters; tracing and the counters of commands, except the audit record, the gauge of connections and what the background tasks report; the rounding of
  the rate limiter's floating point arithmetic (a parameter with a bound); the line editor and the argument
  parsers, third-party code whose results are arguments; the capitalisation of characters whose
  upper or lower case is not ASCII. The crate root of the protocol has only declarations, and the fuzz
  targets, unit and integration tests exercise the code modelled here.
\<close>

end
